(* ===== verification/Prelude.thy ===== *)
theory Prelude
  imports Main "HOL-Library.AList" "HOL-Library.Word" "HOL-Library.Char_ord" "HOL-Library.List_Lexorder"
begin

section \<open>Shared vocabulary: errors, dictionaries, strings, time\<close>

text \<open>
  What every component of the model uses.
  \<^item> \<open>exn\<close> names the exceptions of \<open>passkey_errors.py\<close>, \<open>enrollment.py\<close> and \<open>oidc.py\<close>
    and the built-in ones the code raises; a Python result is \<open>exn + 'a\<close>, and an operation
    on a mutable object is a function of the state that returns a result and the new state.
  \<^item> A Python \<open>dict\<close> is an association list without duplicate keys, in insertion order
    (\<open>AList.update\<close> overwrites in place and appends a new key, as \<open>dict\<close> does).
  \<^item> A Python \<open>str\<close> is a \<open>string\<close>: a list of code points, restricted to the Latin-1 range
    (a \<open>char\<close> has 256 values). \<open>bytes\<close> is a list of 8-bit words.
  \<^item> An aware \<open>datetime\<close> is its instant in microseconds since 0001-01-01T00:00:00Z.
\<close>

subsection \<open>Named collections\<close>

named_theorems dict_simps "lookups and keys of dictionaries"
named_theorems store_simps "unfolding of store operations"
named_theorems py_str_simps "evaluation of the Python string functions"

subsection \<open>Exceptions and results\<close>

datatype exn =
    ValueError string
  | TypeError string
  | AttributeError string
  | OverflowError
  | RuntimeError string
  | ChallengeNotFound string
  | CredentialNotFound string
  | CredentialMutationDenied string
  | UserHandleMismatch string
  | PasskeyUserConflict string
  | PasskeyCredentialConflict string
  | CredentialCounterConflict string
  | EnrollmentCapabilityNotFound string
  | OIDCConfigurationError string
  | OIDCProtocolError string
  | PermissionError string
  | IntegrityError string
  | OperationalError string
  | WebAuthnException string
  | SQLiteSchemaError string
  | UnsupportedSQLiteSchema string
  | HTTPException nat string "(string \<times> string) list"
  | OAuth2Error string "string option" "string option"
  | HostError string
  | KeyError string
  | AssertionError string

fun is_TypeError :: "exn \<Rightarrow> bool" where
  "is_TypeError (TypeError _) = True"
| "is_TypeError _ = False"

text \<open>\<open>except ValueError\<close> also catches the subclasses of \<open>oidc.py\<close>.\<close>

fun is_ValueError :: "exn \<Rightarrow> bool" where
  "is_ValueError (ValueError _) = True"
| "is_ValueError (OIDCConfigurationError _) = True"
| "is_ValueError (OIDCProtocolError _) = True"
| "is_ValueError _ = False"

type_synonym 'a result = "exn + 'a"
type_synonym ('s, 'a) op = "'s \<Rightarrow> 'a result \<times> 's"

text \<open>Drops the message: two stores that raise the same exception class agree up to \<open>bare\<close>.\<close>

fun bare :: "exn \<Rightarrow> exn" where
  "bare (ChallengeNotFound _) = ChallengeNotFound []"
| "bare (CredentialNotFound _) = CredentialNotFound []"
| "bare (CredentialCounterConflict _) = CredentialCounterConflict []"
| "bare (PasskeyUserConflict _) = PasskeyUserConflict []"
| "bare (PasskeyCredentialConflict _) = PasskeyCredentialConflict []"
| "bare (EnrollmentCapabilityNotFound _) = EnrollmentCapabilityNotFound []"
| "bare e = e"

fun is_ok :: "'a result \<Rightarrow> bool" where
  "is_ok (Inr _) = True"
| "is_ok (Inl _) = False"

lemma is_ok_iff: "is_ok r \<longleftrightarrow> (\<exists>x. r = Inr x)"
  by (cases r) auto

lemma not_is_ok_iff: "\<not> is_ok r \<longleftrightarrow> (\<exists>e. r = Inl e)"
  by (cases r) auto

subsection \<open>Dictionaries\<close>

type_synonym ('k, 'v) dict = "('k \<times> 'v) list"

abbreviation dict_ok :: "('k, 'v) dict \<Rightarrow> bool" where
  "dict_ok d \<equiv> distinct (map fst d)"

declare update_conv' [dict_simps] delete_conv' [dict_simps] map_of_eq_Some_iff [simp del]

lemma dict_ok_update [simp, intro]: "dict_ok d \<Longrightarrow> dict_ok (AList.update k v d)"
  by (rule AList.distinct_update)

lemma dict_ok_delete [simp, intro]: "dict_ok d \<Longrightarrow> dict_ok (AList.delete k d)"
  by (rule AList.distinct_delete)

text \<open>The comprehension over \<open>items()\<close> that drops some entries: the map restricted.\<close>

lemma dict_ok_filter [simp, intro]: "dict_ok d \<Longrightarrow> dict_ok (filter P d)"
  by (induction d) auto

lemma map_of_filter_item:
  "dict_ok d \<Longrightarrow>
   map_of (filter P d) k = (case map_of d k of None \<Rightarrow> None | Some v \<Rightarrow> if P (k, v) then Some v else None)"
proof (induction d)
  case Nil
  then show ?case by simp
next
  case (Cons a d)
  obtain k' v' where a: "a = (k', v')" by force
  from Cons have IH: "map_of (filter P d) k =
      (case map_of d k of None \<Rightarrow> None | Some v \<Rightarrow> if P (k, v) then Some v else None)"
    and new: "map_of d k' = None"
    by (simp_all add: a map_of_eq_None_iff image_image)
  show ?case
    using IH new by (auto simp: a split: option.splits)
qed

lemma set_update_dict:
  "dict_ok d \<Longrightarrow> x \<in> set (AList.update k v d) \<longleftrightarrow> x = (k, v) \<or> (x \<in> set d \<and> fst x \<noteq> k)"
  by (induction d) auto

lemma map_of_Some_iff_dict: "dict_ok d \<Longrightarrow> map_of d k = Some v \<longleftrightarrow> (k, v) \<in> set d"
  by (rule map_of_eq_Some_iff)

text \<open>\<open>next((item for item in d.items() if P item), None)\<close> is \<open>List.find\<close>.\<close>

lemma find_Some_in: "List.find P xs = Some x \<Longrightarrow> x \<in> set xs \<and> P x"
  by (auto simp: find_Some_iff)

lemma find_cong_unique:
  assumes "\<And>x y. x \<in> set xs \<Longrightarrow> y \<in> set xs \<Longrightarrow> P x \<Longrightarrow> P y \<Longrightarrow> x = y"
    and "x \<in> set xs" and "P x"
  shows "List.find P xs = Some x"
proof (cases "List.find P xs")
  case None
  with assms(2,3) show ?thesis by (auto simp: find_None_iff)
next
  case (Some y)
  then have "y \<in> set xs" and "P y" using find_Some_in by metis+
  with assms have "y = x" by blast
  with Some show ?thesis by simp
qed

subsection \<open>Sequencing and mapping of results\<close>

definition op_bind :: "('s, 'a) op \<Rightarrow> ('a \<Rightarrow> ('s, 'b) op) \<Rightarrow> ('s, 'b) op" where
  "op_bind f g s = (case f s of (Inl e, s') \<Rightarrow> (Inl e, s') | (Inr a, s') \<Rightarrow> g a s')"

definition res_bind :: "'a result \<Rightarrow> ('a \<Rightarrow> 'b result) \<Rightarrow> 'b result" where
  "res_bind r f = (case r of Inl e \<Rightarrow> Inl e | Inr a \<Rightarrow> f a)"

lemma res_bind_simps [simp]: "res_bind (Inr a) f = f a" "res_bind (Inl e) f = Inl e"
  by (simp_all add: res_bind_def)

lemma res_bind_Inr: "res_bind r f = Inr b \<longleftrightarrow> (\<exists>a. r = Inr a \<and> f a = Inr b)"
  by (cases r) auto

text \<open>A chain of guards that succeeds has passed each of them.\<close>

lemma guard_Inr: "(if b then Inl e else x) = Inr r \<longleftrightarrow> \<not> b \<and> x = Inr r"
  by simp

lemma case_guard_Inr: "(case x of Inl e \<Rightarrow> Inl (g e) | Inr p \<Rightarrow> f p) = Inr r \<longleftrightarrow> (\<exists>p. x = Inr p \<and> f p = Inr r)"
  by (cases x) auto

lemmas guards = guard_Inr case_guard_Inr res_bind_Inr Let_def

fun map_result :: "('a \<Rightarrow> 'b result) \<Rightarrow> 'a list \<Rightarrow> 'b list result" where
  "map_result f [] = Inr []"
| "map_result f (x # xs) = res_bind (f x) (\<lambda>y. res_bind (map_result f xs) (\<lambda>ys. Inr (y # ys)))"

lemma map_result_map: "(\<And>x. x \<in> set xs \<Longrightarrow> f (g x) = Inr x) \<Longrightarrow> map_result f (map g xs) = Inr xs"
  by (induction xs) auto

lemma map_result_all: "(\<And>x. x \<in> set xs \<Longrightarrow> f x = Inr (g x)) \<Longrightarrow> map_result f xs = Inr (map g xs)"
  by (induction xs) auto

subsection \<open>Tables with a key column\<close>

text \<open>The first row whose key is \<open>k\<close>: \<open>SELECT ... WHERE key=?\<close> and \<open>fetchone\<close>.\<close>

definition select_by :: "('r \<Rightarrow> 'k) \<Rightarrow> 'k \<Rightarrow> 'r list \<Rightarrow> 'r option" where
  "select_by key k rows = List.find (\<lambda>r. key r = k) rows"

lemma select_by_Nil [simp]: "select_by key k [] = None"
  by (simp add: select_by_def)

lemma select_by_Cons: "select_by key k (x # xs) = (if key x = k then Some x else select_by key k xs)"
  by (simp add: select_by_def)

lemma select_by_map:
  assumes "\<And>x. x \<in> set xs \<Longrightarrow> key' (f x) = g (key x)" and "inj g"
  shows "select_by key' (g k) (map f xs) = map_option f (select_by key k xs)"
  using assms(1) by (induction xs) (auto simp: select_by_def injD [OF assms(2)])

lemmas select_by_map_id = select_by_map [where g = "\<lambda>x. x", simplified]

lemma select_by_None: "select_by key k xs = None \<longleftrightarrow> k \<notin> key ` set xs"
  by (induction xs) (auto simp: select_by_Cons)

lemma select_by_append:
  "select_by key k (xs @ ys) = (case select_by key k xs of None \<Rightarrow> select_by key k ys | Some x \<Rightarrow> Some x)"
  by (induction xs) (auto simp: select_by_Cons)

lemma select_by_SomeD: "select_by key k xs = Some x \<Longrightarrow> x \<in> set xs \<and> key x = k"
  unfolding select_by_def by (auto dest: find_Some_in)

lemma select_by_Some:
  "distinct (map key xs) \<Longrightarrow> select_by key k xs = Some x \<longleftrightarrow> x \<in> set xs \<and> key x = k"
  by (induction xs) (auto simp: select_by_Cons image_iff)

lemma select_by_filter:
  assumes "distinct (map key xs)"
  shows "select_by key k (filter P xs) =
    (case select_by key k xs of None \<Rightarrow> None | Some x \<Rightarrow> if P x then Some x else None)"
  using assms
proof (induction xs)
  case (Cons y xs)
  then have "select_by key (key y) xs = None" by (simp add: select_by_None)
  with Cons show ?case by (auto simp: select_by_Cons split: option.splits)
qed simp

lemma find_map: "List.find P (map f xs) = map_option f (List.find (\<lambda>x. P (f x)) xs)"
  by (induction xs) auto

lemma find_key:
  assumes "distinct (map key xs)"
  shows "List.find (\<lambda>x. key x = k \<and> P x) xs =
    (case select_by key k xs of None \<Rightarrow> None | Some x \<Rightarrow> if P x then Some x else None)"
  using assms
proof (induction xs)
  case (Cons y xs)
  then have "List.find (\<lambda>x. key x = key y \<and> P x) xs = None"
    by (simp add: find_None_iff image_iff) metis
  with Cons show ?case by (auto simp: select_by_Cons)
qed simp

text \<open>The rows a DELETE or UPDATE on the key touches.\<close>

lemma filter_key_eq:
  assumes "distinct (map key xs)"
  shows "filter (\<lambda>x. key x = k \<and> P x) xs =
    (case select_by key k xs of None \<Rightarrow> [] | Some x \<Rightarrow> if P x then [x] else [])"
  using assms
proof (induction xs)
  case (Cons y xs)
  then have "filter (\<lambda>x. key x = key y \<and> P x) xs = []"
    by (simp add: filter_empty_conv image_iff) metis
  with Cons show ?case by (auto simp: select_by_Cons)
qed simp

subsection \<open>Python strings\<close>

type_synonym byte = "8 word"
type_synonym bytes = "byte list"

text \<open>\<open>str.isspace\<close> of one code point below 256.\<close>

definition py_isspace :: "char \<Rightarrow> bool" where
  "py_isspace c =
     (let n = (of_char c :: nat)
      in (9 \<le> n \<and> n \<le> 13) \<or> (28 \<le> n \<and> n \<le> 32) \<or> n = 133 \<or> n = 160)"

definition py_strip :: "string \<Rightarrow> string" where
  "py_strip s = rev (dropWhile py_isspace (rev (dropWhile py_isspace s)))"

text \<open>\<open>str.split()\<close> without an argument: the maximal runs of non-space characters.\<close>

fun split_ws :: "string \<Rightarrow> string \<Rightarrow> string list" where
  "split_ws cur [] = (if cur = [] then [] else [rev cur])"
| "split_ws cur (c # cs) =
     (if py_isspace c
      then (if cur = [] then split_ws [] cs else rev cur # split_ws [] cs)
      else split_ws (c # cur) cs)"

definition py_split :: "string \<Rightarrow> string list" where
  "py_split s = split_ws [] s"

fun py_join :: "string \<Rightarrow> string list \<Rightarrow> string" where
  "py_join sep [] = []"
| "py_join sep [w] = w"
| "py_join sep (w # ws) = w @ sep @ py_join sep ws"

text \<open>\<open>str.lower\<close> on the Latin-1 range: A-Z and the capital letters from 192 to 222 but 215.\<close>

definition lower_char :: "char \<Rightarrow> char" where
  "lower_char c =
     (let n = (of_char c :: nat)
      in if (65 \<le> n \<and> n \<le> 90) \<or> (192 \<le> n \<and> n \<le> 222 \<and> n \<noteq> 215) then char_of (n + 32) else c)"

definition py_lower :: "string \<Rightarrow> string" where
  "py_lower s = map lower_char s"

text \<open>
  \<open>str.casefold\<close>: like \<open>lower\<close>, but the sharp s (223) becomes two letters and the micro sign
  (181) the Greek letter 956, outside Latin-1; so the result is a list of code points.
\<close>

definition py_casefold :: "string \<Rightarrow> nat list" where
  "py_casefold s =
     concat (map (\<lambda>c. let n = (of_char c :: nat) in
        if n = 223 then [115, 115] else if n = 181 then [956] else [of_char (lower_char c)]) s)"

definition py_startswith :: "string \<Rightarrow> string \<Rightarrow> bool" where
  "py_startswith s p \<longleftrightarrow> take (length p) s = p"

text \<open>\<open>not value\<close> for an optional string: \<open>None\<close> and the empty string are false.\<close>

fun truthy :: "string option \<Rightarrow> bool" where
  "truthy None = False"
| "truthy (Some s) = (s \<noteq> [])"

text \<open>\<open>str.encode()\<close>: UTF-8, two bytes for a code point from 128.\<close>

definition utf8_char :: "char \<Rightarrow> bytes" where
  "utf8_char c =
     (let n = (of_char c :: nat)
      in if n < 128 then [of_nat n] else [of_nat (192 + n div 64), of_nat (128 + n mod 64)])"

definition utf8_encode :: "string \<Rightarrow> bytes" where
  "utf8_encode s = concat (map utf8_char s)"

subsection \<open>Lemmas on strip, split and join\<close>

lemma py_strip_Nil [simp]: "py_strip [] = []"
  by (simp add: py_strip_def)

lemma set_py_strip: "set (py_strip s) \<subseteq> set s"
  by (auto simp: py_strip_def dest!: set_dropWhileD)

lemma dropWhile_id: "(\<forall>x \<in> set xs. \<not> P x) \<Longrightarrow> dropWhile P xs = xs"
  by (induction xs) auto

lemma dropWhile_idem_head: "xs = [] \<or> \<not> P (hd xs) \<Longrightarrow> dropWhile P xs = xs"
  by (cases xs) auto

lemma hd_dropWhile_sat: "dropWhile P xs \<noteq> [] \<Longrightarrow> \<not> P (hd (dropWhile P xs))"
  by (rule hd_dropWhile)

lemma py_strip_id: "(\<forall>c \<in> set s. \<not> py_isspace c) \<Longrightarrow> py_strip s = s"
  by (simp add: py_strip_def dropWhile_id)

text \<open>A stripped string is empty or starts and ends with a non-space character.\<close>

lemma last_py_strip: "py_strip s \<noteq> [] \<Longrightarrow> \<not> py_isspace (last (py_strip s))"
  by (simp add: py_strip_def last_rev hd_dropWhile)

lemma suffix_rev_dropWhile: "\<exists>zs. ys = rev (dropWhile P (rev ys)) @ zs"
proof
  show "ys = rev (dropWhile P (rev ys)) @ rev (takeWhile P (rev ys))"
    by (metis rev_append rev_rev_ident takeWhile_dropWhile_id)
qed

lemma hd_py_strip: "py_strip s \<noteq> [] \<Longrightarrow> \<not> py_isspace (hd (py_strip s))"
proof -
  assume ne: "py_strip s \<noteq> []"
  let ?ys = "dropWhile py_isspace s"
  obtain zs where ys: "?ys = py_strip s @ zs"
    using suffix_rev_dropWhile [of ?ys py_isspace] by (auto simp: py_strip_def)
  with ne have "?ys \<noteq> []" and "hd ?ys = hd (py_strip s)" by auto
  then show ?thesis using hd_dropWhile [of py_isspace s] by metis
qed

lemma py_strip_idem [simp]: "py_strip (py_strip s) = py_strip s"
proof (cases "py_strip s = []")
  case False
  then have "dropWhile py_isspace (py_strip s) = py_strip s"
    using hd_py_strip by (simp add: dropWhile_idem_head)
  moreover have "dropWhile py_isspace (rev (py_strip s)) = rev (py_strip s)"
    using False last_py_strip by (simp add: dropWhile_idem_head hd_rev)
  ultimately show ?thesis by (simp add: py_strip_def [of "py_strip s"])
qed simp

abbreviation word_ok :: "string \<Rightarrow> bool" where
  "word_ok w \<equiv> w \<noteq> [] \<and> (\<forall>c \<in> set w. \<not> py_isspace c)"

lemma split_ws_words:
  "(\<forall>c \<in> set cur. \<not> py_isspace c) \<Longrightarrow> \<forall>w \<in> set (split_ws cur s). word_ok w"
proof (induction s arbitrary: cur)
  case Nil
  then show ?case by simp
next
  case (Cons c s)
  have "\<forall>w \<in> set (split_ws [] s). word_ok w" by (rule Cons.IH) simp
  moreover have "\<not> py_isspace c \<Longrightarrow> \<forall>w \<in> set (split_ws (c # cur) s). word_ok w"
    using Cons.prems by (intro Cons.IH) simp
  ultimately show ?case using Cons.prems by simp
qed

lemma py_split_words: "w \<in> set (py_split s) \<Longrightarrow> word_ok w"
  unfolding py_split_def using split_ws_words [of "[]" s] by simp

lemma split_ws_word: "(\<forall>c \<in> set w. \<not> py_isspace c) \<Longrightarrow> split_ws cur (w @ s) = split_ws (rev w @ cur) s"
  by (induction w arbitrary: cur) auto

lemma isspace_space [simp]: "py_isspace (CHR '' '')"
  by (simp add: py_isspace_def)

text \<open>Round trip: a list of words joined with a space and split again.\<close>

lemma py_split_join: "\<forall>w \<in> set ws. word_ok w \<Longrightarrow> py_split (py_join '' '' ws) = ws"
proof (induction ws)
  case (Cons w ws)
  then have IH: "split_ws [] (py_join '' '' ws) = ws" and w: "w \<noteq> []" "\<forall>c \<in> set w. \<not> py_isspace c"
    by (simp_all add: py_split_def)
  show ?case
  proof (cases ws)
    case Nil
    then show ?thesis
      using w split_ws_word [of w "[]" "[]"] by (simp add: py_split_def)
  next
    case (Cons v vs)
    then have "py_split (py_join '' '' (w # ws)) = split_ws (rev w) ('' '' @ py_join '' '' ws)"
      using w(2) by (simp add: py_split_def split_ws_word)
    then show ?thesis using w IH by simp
  qed
qed (simp add: py_split_def)

subsection \<open>Instants\<close>

type_synonym datetime = int

definition us_per_second :: int where "us_per_second = 1000000"

text \<open>The last representable instant is the end of the year 9999 (day 3652058 after the first).\<close>

definition datetime_max :: datetime where
  "datetime_max = 3652059 * 86400 * us_per_second - 1"

definition valid_datetime :: "datetime \<Rightarrow> bool" where
  "valid_datetime t \<longleftrightarrow> 0 \<le> t \<and> t \<le> datetime_max"

text \<open>\<open>now + timedelta(seconds=n)\<close>: outside the years 1 to 9999 it raises OverflowError.\<close>

definition add_seconds :: "datetime \<Rightarrow> int \<Rightarrow> datetime result" where
  "add_seconds t n =
     (let u = t + n * us_per_second in if valid_datetime u then Inr u else Inl OverflowError)"

lemma add_seconds_Inr: "add_seconds t n = Inr u \<Longrightarrow> u = t + n * us_per_second \<and> valid_datetime u"
  by (auto simp: add_seconds_def Let_def split: if_splits)

lemma add_seconds_pos: "add_seconds t n = Inr u \<Longrightarrow> 0 < n \<Longrightarrow> t < u"
  by (auto dest!: add_seconds_Inr simp: us_per_second_def)

end
