(* ===== verification/Base64.thy ===== *)
theory Base64
  imports Prelude
begin

section \<open>Base64url as the program encodes bytes (\<open>passkey_models.py\<close>)\<close>

text \<open>
  \<open>bytes_to_b64url\<close> and \<open>b64url_to_bytes\<close> with the parts of Python's \<open>base64\<close> they use:
  the encoder, and the lenient decoder of \<open>binascii.a2b_base64\<close>, which skips characters
  outside the alphabet, stops at a complete padding and raises a \<open>ValueError\<close> on a partial
  quad. User handles and credential ids are stored and compared in this form.
\<close>

subsection \<open>The encoder\<close>

text \<open>The URL-safe alphabet: A-Z, a-z, 0-9, then \<open>-\<close> and \<open>_\<close>.\<close>

definition b64_char :: "nat \<Rightarrow> char" where
  "b64_char n =
     (if n < 26 then char_of (65 + n) else if n < 52 then char_of (71 + n)
      else if n < 62 then char_of (n - 4) else if n = 62 then CHR ''-'' else CHR ''_'')"

text \<open>The four 6-bit groups of three bytes.\<close>

definition sextet1 :: "byte \<Rightarrow> nat" where "sextet1 a = unat a div 4"
definition sextet2 :: "byte \<Rightarrow> byte \<Rightarrow> nat" where "sextet2 a b = unat a mod 4 * 16 + unat b div 16"
definition sextet3 :: "byte \<Rightarrow> byte \<Rightarrow> nat" where "sextet3 b c = unat b mod 16 * 4 + unat c div 64"
definition sextet4 :: "byte \<Rightarrow> nat" where "sextet4 c = unat c mod 64"

text \<open>\<open>urlsafe_b64encode\<close>: three bytes become four characters, the last group is padded.\<close>

fun urlsafe_b64encode :: "bytes \<Rightarrow> string" where
  "urlsafe_b64encode [] = []"
| "urlsafe_b64encode [a] =
     [b64_char (sextet1 a), b64_char (sextet2 a 0), CHR ''='', CHR ''='']"
| "urlsafe_b64encode [a, b] =
     [b64_char (sextet1 a), b64_char (sextet2 a b), b64_char (sextet3 b 0), CHR ''='']"
| "urlsafe_b64encode (a # b # c # rest) =
     b64_char (sextet1 a) # b64_char (sextet2 a b) # b64_char (sextet3 b c)
     # b64_char (sextet4 c) # urlsafe_b64encode rest"

definition rstrip_pad :: "string \<Rightarrow> string" where
  "rstrip_pad s = rev (dropWhile (\<lambda>c. c = CHR ''='') (rev s))"

definition bytes_to_b64url :: "bytes \<Rightarrow> string" where
  "bytes_to_b64url value = rstrip_pad (urlsafe_b64encode value)"

subsection \<open>The decoder\<close>

definition b64_val :: "char \<Rightarrow> nat option" where
  "b64_val c =
     (let n = (of_char c :: nat) in
      if 65 \<le> n \<and> n \<le> 90 then Some (n - 65)
      else if 97 \<le> n \<and> n \<le> 122 then Some (n - 71)
      else if 48 \<le> n \<and> n \<le> 57 then Some (n + 4)
      else if n = 45 \<or> n = 43 then Some 62
      else if n = 95 \<or> n = 47 then Some 63
      else None)"

definition prepend :: "byte \<Rightarrow> bytes result \<Rightarrow> bytes result" where
  "prepend b r = (case r of Inl e \<Rightarrow> Inl e | Inr bs \<Rightarrow> Inr (b # bs))"

text \<open>\<open>binascii.a2b_base64\<close>: position in the quad, left-over bits, padding characters seen.\<close>

fun a2b_base64 :: "nat \<Rightarrow> nat \<Rightarrow> nat \<Rightarrow> string \<Rightarrow> bytes result" where
  "a2b_base64 q l pads [] =
     (if q = 0 then Inr [] else Inl (ValueError ''Incorrect padding''))"
| "a2b_base64 q l pads (c # cs) =
     (if c = CHR ''='' then
        (if q \<ge> 2 then (if q + (pads + 1) \<ge> 4 then Inr [] else a2b_base64 q l (pads + 1) cs)
         else a2b_base64 q l pads cs)
      else case b64_val c of
        None \<Rightarrow> a2b_base64 q l pads cs
      | Some v \<Rightarrow>
          (if q = 0 then a2b_base64 1 v 0 cs
           else if q = 1 then prepend (of_nat (l * 4 + v div 16)) (a2b_base64 2 (v mod 16) 0 cs)
           else if q = 2 then prepend (of_nat (l * 16 + v div 4)) (a2b_base64 3 (v mod 4) 0 cs)
           else prepend (of_nat (l * 64 + v)) (a2b_base64 0 0 0 cs)))"

definition pad_len :: "string \<Rightarrow> nat" where
  "pad_len value = nat ((- int (length value)) mod 4)"

definition b64url_to_bytes :: "string \<Rightarrow> bytes result" where
  "b64url_to_bytes value =
     (let padded = value @ replicate (pad_len value) (CHR ''='')
      in if list_all (\<lambda>c. (of_char c :: nat) < 128) padded
         then a2b_base64 0 0 0 padded
         else Inl (ValueError ''ordinal not in range(128)''))"

subsection \<open>Round trip\<close>

lemma of_char_pad [simp]: "(of_char (CHR ''='') :: nat) = 61"
  by simp

lemma b64_char:
  assumes "n < 64"
  shows "b64_val (b64_char n) = Some n" and "b64_char n \<noteq> CHR ''=''"
    and "(of_char (b64_char n) :: nat) < 128"
proof -
  define k where "k = (if n < 26 then 65 + n else if n < 52 then 71 + n
     else if n < 62 then n - 4 else if n = 62 then 45 else 95)"
  have k: "k < 128" and oc: "(of_char (b64_char n) :: nat) = k"
    using assms by (auto simp: k_def b64_char_def)
  then show "(of_char (b64_char n) :: nat) < 128" by simp
  show "b64_val (b64_char n) = Some n"
    using assms by (auto simp: b64_val_def oc k_def Let_def)
  have "k \<noteq> 61" using assms by (auto simp: k_def)
  with oc show "b64_char n \<noteq> CHR ''=''" by (metis of_char_pad)
qed

lemma unat_byte_less: "unat (b :: byte) < 256"
  using unsigned_less [of b] by simp

lemma of_nat_unat_byte: "of_nat (unat (b :: byte)) = b"
  by simp

lemma div_mod_glue: "r < m \<Longrightarrow> (k * m + r) div m = k \<and> (k * m + r) mod m = (r :: nat)"
  by (simp add: div_mult_self3)

lemma sextet_less: "sextet1 a < 64" "sextet2 a b < 64" "sextet3 b c < 64" "sextet4 c < 64"
proof -
  have "unat b div 16 < 16" "unat a div 4 < 64" "unat c div 64 < 4"
    using unat_byte_less [of a] unat_byte_less [of b] unat_byte_less [of c]
    by (simp_all add: div_less_iff_less_mult)
  then show "sextet1 a < 64" "sextet2 a b < 64" "sextet3 b c < 64" "sextet4 c < 64"
    using mod_less_divisor [of 4 "unat a"] mod_less_divisor [of 16 "unat b"]
    unfolding sextet1_def sextet2_def sextet3_def sextet4_def
    by (simp_all del: mod_less_divisor)
qed

lemmas b64_sextet [simp] =
  b64_char [OF sextet_less(1)] b64_char [OF sextet_less(2)]
  b64_char [OF sextet_less(3)] b64_char [OF sextet_less(4)]

lemma sextet_recombine [simp]:
  "of_nat (sextet1 a * 4 + sextet2 a b div 16) = a"
  "of_nat (sextet2 a b mod 16 * 16 + sextet3 b c div 4) = b"
  "of_nat (sextet3 b c mod 4 * 64 + sextet4 c) = c"
proof -
  have less: "unat b div 16 < 16" "unat c div 64 < 4"
    using unat_byte_less [of b] unat_byte_less [of c] by (simp_all add: div_less_iff_less_mult)
  have "sextet1 a * 4 + sextet2 a b div 16 = unat a"
    using div_mod_glue [OF less(1)] by (simp add: sextet1_def sextet2_def)
  then show "of_nat (sextet1 a * 4 + sextet2 a b div 16) = a" by (metis of_nat_unat_byte)
  have "sextet2 a b mod 16 * 16 + sextet3 b c div 4 = unat b"
    using div_mod_glue [OF less(1)] div_mod_glue [OF less(2)] by (simp add: sextet2_def sextet3_def)
  then show "of_nat (sextet2 a b mod 16 * 16 + sextet3 b c div 4) = b"
    by (metis of_nat_unat_byte)
  have "sextet3 b c mod 4 * 64 + sextet4 c = unat c"
    using div_mod_glue [OF less(2)] by (simp add: sextet3_def sextet4_def)
  then show "of_nat (sextet3 b c mod 4 * 64 + sextet4 c) = c" by (metis of_nat_unat_byte)
qed

text \<open>Decoding an encoded string, padding included, gives the bytes back.\<close>

lemma a2b_urlsafe_b64encode: "a2b_base64 0 l p (urlsafe_b64encode bs) = Inr bs"
  by (induction bs arbitrary: l p rule: urlsafe_b64encode.induct)
     (simp_all add: prepend_def del: of_nat_add of_nat_mult)

lemma length_urlsafe_b64encode: "length (urlsafe_b64encode bs) mod 4 = 0"
  by (induction bs rule: urlsafe_b64encode.induct) simp_all

text \<open>What \<open>rstrip\<close> removes is exactly the padding that the decoder adds back.\<close>

lemma rstrip_pad_append:
  "rstrip_pad ys \<noteq> [] \<Longrightarrow> rstrip_pad (xs @ ys) = xs @ rstrip_pad ys"
  by (auto simp: rstrip_pad_def dropWhile_append dest!: dropWhile_eq_Nil_conv [THEN iffD2])

lemma urlsafe_b64encode_split:
  "\<exists>k \<le> 2. urlsafe_b64encode bs = bytes_to_b64url bs @ replicate k (CHR ''='')"
proof (induction bs rule: urlsafe_b64encode.induct)
  case 1
  show ?case by (rule exI [of _ 0]) (simp add: bytes_to_b64url_def rstrip_pad_def)
next
  case (2 a)
  show ?case
    by (rule exI [of _ 2]) (simp add: bytes_to_b64url_def rstrip_pad_def numeral_2_eq_2)
next
  case (3 a b)
  show ?case by (rule exI [of _ 1]) (simp add: bytes_to_b64url_def rstrip_pad_def)
next
  case (4 a b c rest)
  then obtain k where k: "k \<le> 2"
    and rest: "urlsafe_b64encode rest = bytes_to_b64url rest @ replicate k (CHR ''='')"
    by blast
  define g where "g = [b64_char (sextet1 a), b64_char (sextet2 a b),
     b64_char (sextet3 b c), b64_char (sextet4 c)]"
  have enc: "urlsafe_b64encode (a # b # c # rest) = g @ urlsafe_b64encode rest"
    by (simp add: g_def)
  have strip: "rstrip_pad (g @ urlsafe_b64encode rest) = g @ rstrip_pad (urlsafe_b64encode rest)"
  proof (cases "rstrip_pad (urlsafe_b64encode rest) = []")
    case True
    then have "\<forall>c \<in> set (urlsafe_b64encode rest). c = CHR ''=''"
      by (simp add: rstrip_pad_def)
    then have "dropWhile (\<lambda>c. c = CHR ''='') (rev (g @ urlsafe_b64encode rest)) = rev g"
      by (simp add: dropWhile_append g_def)
    with True show ?thesis by (simp add: rstrip_pad_def)
  qed (rule rstrip_pad_append)
  show ?case
    unfolding bytes_to_b64url_def enc strip
    using k rest by (intro exI [of _ k]) (simp add: bytes_to_b64url_def)
qed

lemma pad_len_b64url:
  "bytes_to_b64url bs @ replicate (pad_len (bytes_to_b64url bs)) (CHR ''='') = urlsafe_b64encode bs"
proof -
  obtain k where k: "k \<le> 2"
    and enc: "urlsafe_b64encode bs = bytes_to_b64url bs @ replicate k (CHR ''='')"
    using urlsafe_b64encode_split by blast
  define n where "n = length (bytes_to_b64url bs)"
  have "(n + k) mod 4 = 0"
    using length_urlsafe_b64encode [of bs] by (simp add: enc n_def)
  then have "(int n + int k) mod 4 = 0" by presburger
  then have "(- int n) mod 4 = int k" using k by presburger
  then have "pad_len (bytes_to_b64url bs) = k" by (simp add: pad_len_def n_def)
  with enc show ?thesis by simp
qed

lemma urlsafe_b64encode_ascii:
  "list_all (\<lambda>c. (of_char c :: nat) < 128) (urlsafe_b64encode bs)"
  by (induction bs rule: urlsafe_b64encode.induct) simp_all

lemma b64url_decode [simp, py_str_simps]: "b64url_to_bytes (bytes_to_b64url value) = Inr value"
  by (simp add: b64url_to_bytes_def pad_len_b64url a2b_urlsafe_b64encode urlsafe_b64encode_ascii Let_def)

lemma b64url_inj [simp]: "bytes_to_b64url a = bytes_to_b64url b \<longleftrightarrow> a = b"
  using b64url_decode [of a] b64url_decode [of b] by (metis sum.inject(2))

text \<open>
  C19: decoding what \<open>bytes_to_b64url\<close> produced gives the original bytes, for every byte string;
  so handles and credential ids can be compared in their encoded form.
\<close>

theorem b64url_roundtrip:
  "b64url_to_bytes (bytes_to_b64url value) = Inr value
   \<and> (bytes_to_b64url value = bytes_to_b64url other \<longleftrightarrow> value = other)"
  by simp

end
