(* ===== verification/PyTime.thy ===== *)
theory PyTime
  imports Prelude
begin

section \<open>UTC timestamps as SQLite TEXT (\<open>passkey_sqlite.py\<close>, \<open>enrollment.py\<close>)\<close>

text \<open>
  The SQLite stores write an instant with \<open>datetime.isoformat()\<close> and compare the column with
  the text of the current time (\<open>expires_at>?\<close>), so expiry rests on the order of strings.
  This theory models the proleptic Gregorian calendar and \<open>isoformat\<close> for UTC instants of
  the years 1 to 9999, the canonical part of \<open>fromisoformat\<close>, and proves that the text order
  is the order of time and that the text decodes to the instant.
\<close>

subsection \<open>The calendar\<close>

definition is_leap :: "nat \<Rightarrow> bool" where
  "is_leap y \<longleftrightarrow> y mod 4 = 0 \<and> (y mod 100 \<noteq> 0 \<or> y mod 400 = 0)"

definition year_len :: "nat \<Rightarrow> nat" where
  "year_len y = (if is_leap y then 366 else 365)"

text \<open>Days before the first of January of the year \<open>Suc p\<close>.\<close>

definition days_before :: "nat \<Rightarrow> nat" where
  "days_before p = 365 * p + p div 4 - p div 100 + p div 400"

definition month_lens :: "bool \<Rightarrow> nat list" where
  "month_lens leap = [31, if leap then 29 else 28, 31, 30, 31, 30, 31, 31, 30, 31, 30, 31]"

text \<open>Year and day of the year of a day number (day 0 is 0001-01-01), as \<open>_ord2ymd\<close> finds it.\<close>

definition year_day :: "nat \<Rightarrow> nat \<times> nat" where
  "year_day n =
     (let n400 = n div 146097; r = n mod 146097;
          n100 = min 3 (r div 36524); r2 = r - n100 * 36524;
          n4 = r2 div 1461; r3 = r2 mod 1461;
          n1 = min 3 (r3 div 365)
      in (400 * n400 + 100 * n100 + 4 * n4 + n1 + 1, r3 - n1 * 365))"

fun month_walk :: "nat list \<Rightarrow> nat \<Rightarrow> nat \<Rightarrow> nat \<times> nat" where
  "month_walk [] m d = (m, d + 1)"
| "month_walk (l # ls) m d = (if d < l then (m, d + 1) else month_walk ls (m + 1) (d - l))"

lemma leap_div: "y mod 400 = 0 \<Longrightarrow> y mod 100 = 0" "y mod 100 = 0 \<Longrightarrow> y mod 4 = 0" for y :: nat
  using dvd_trans [of 100 400 y] dvd_trans [of 4 100 y] by (simp_all add: mod_eq_0_iff_dvd)

lemma days_before_Suc: "days_before (Suc p) = days_before p + year_len (Suc p)"
proof -
  define A B C where "A = p div 4" and "B = p div 100" and "C = p div 400"
  have le: "B \<le> A" unfolding A_def B_def by (rule div_le_mono2) simp_all
  have step: "Suc p div k = (if Suc p mod k = 0 then Suc (p div k) else p div k)" for k
    by (rule div_Suc)
  show ?thesis
    using leap_div [of "Suc p"] le
    unfolding days_before_def year_len_def is_leap_def step A_def [symmetric] B_def [symmetric] C_def [symmetric]
    by (auto simp del: mod_Suc split: if_splits)
qed

lemma days_before_mono: "p \<le> q \<Longrightarrow> days_before p \<le> days_before q"
  by (rule lift_Suc_mono_le [of days_before]) (simp_all add: days_before_Suc)

lemma year_day_parts:
  fixes n :: nat
  shows "\<exists>a b c e d. n = 146097 * a + 36524 * b + 1461 * c + 365 * e + d \<and> b \<le> 3 \<and> c \<le> 24 \<and> e \<le> 3
     \<and> (d < 365 \<or> d = 365 \<and> e = 3 \<and> (c < 24 \<or> b = 3))
     \<and> year_day n = (400 * a + 100 * b + 4 * c + e + 1, d)"
proof -
  define a where "a = n div 146097"
  define r where "r = n mod 146097"
  define b where "b = min 3 (r div 36524)"
  define r2 where "r2 = r - b * 36524"
  define c where "c = r2 div 1461"
  define r3 where "r3 = r2 mod 1461"
  define e where "e = min 3 (r3 div 365)"
  define d where "d = r3 - e * 365"
  have r: "n = 146097 * a + r" "r < 146097" by (simp_all add: a_def r_def)
  have b: "r = 36524 * b + r2" "b \<le> 3" "r2 < 36524 \<or> b = 3 \<and> r2 \<le> 36524"
    using r(2) unfolding b_def r2_def by (auto simp: min_def)
  have c: "r2 = 1461 * c + r3" "r3 < 1461" by (simp_all add: c_def r3_def)
  have c24: "c \<le> 24" using b(3) c by linarith
  have e: "r3 = 365 * e + d" "e \<le> 3" "d < 365 \<or> d = 365 \<and> e = 3"
    using c(2) unfolding e_def d_def by (auto simp: min_def)
  have "c = 24 \<Longrightarrow> b \<noteq> 3 \<Longrightarrow> r3 < 1460" using b(3) c(1) by linarith
  then have "d = 365 \<Longrightarrow> c < 24 \<or> b = 3" using c24 e by fastforce
  moreover have "year_day n = (400 * a + 100 * b + 4 * c + e + 1, d)"
    unfolding year_day_def Let_def a_def r_def b_def r2_def c_def r3_def e_def d_def by simp
  moreover have "n = 146097 * a + 36524 * b + 1461 * c + 365 * e + d"
    using r(1) b(1) c(1) e(1) by simp
  ultimately show ?thesis using b(2) c24 e(2,3) by blast
qed

text \<open>The year found is the one that contains the day.\<close>

lemma year_day_correct:
  assumes "year_day n = (y, d)"
  shows "1 \<le> y" and "n = days_before (y - 1) + d" and "d < year_len y"
proof -
  obtain a b c e d' where n: "n = 146097 * a + 36524 * b + 1461 * c + 365 * e + d'"
    and bc: "b \<le> 3" "c \<le> 24" "e \<le> 3" "d' < 365 \<or> d' = 365 \<and> e = 3 \<and> (c < 24 \<or> b = 3)"
    and yd: "year_day n = (400 * a + 100 * b + 4 * c + e + 1, d')"
    using year_day_parts by blast
  let ?p = "400 * a + 100 * b + 4 * c + e"
  have y: "y = ?p + 1" and d: "d = d'" using assms yd by auto
  show "1 \<le> y" using y by simp
  have "?p div 4 = 100 * a + 25 * b + c" using bc by linarith
  moreover have "?p div 100 = 4 * a + b" using bc by linarith
  moreover have "?p div 400 = a" using bc by linarith
  ultimately have "days_before ?p = 146097 * a + 36524 * b + 1461 * c + 365 * e"
    by (simp add: days_before_def)
  then show "n = days_before (y - 1) + d" using n y d by simp
  have "is_leap y" if "e = 3" "c < 24 \<or> b = 3"
  proof -
    have "y = 4 * (100 * a + 25 * b + c + 1)" using y that(1) by simp
    moreover have "y mod 100 = (4 * c + 4) mod 100"
    proof -
      have "y = 4 * c + 4 + 100 * (4 * a + b)" using y that(1) by simp
      then show ?thesis by (metis mod_mult_self2)
    qed
    moreover have "b = 3 \<Longrightarrow> c = 24 \<Longrightarrow> y = 400 * (a + 1)" using y that(1) by simp
    ultimately show ?thesis using that(2) bc(2) unfolding is_leap_def
      by (cases "c = 24") auto
  qed
  then show "d < year_len y" using bc(4) d by (auto simp: year_len_def)
qed

lemma month_walk_ge: "m \<le> fst (month_walk ls m d)"
proof (induction ls arbitrary: m d)
  case (Cons l ls)
  show ?case using Cons.IH [of "m + 1" "d - l"] by simp
qed simp

lemma month_walk_le: "d < sum_list ls \<Longrightarrow> fst (month_walk ls m d) < m + length ls"
proof (induction ls arbitrary: m d)
  case (Cons l ls)
  then show ?case using Cons.IH [of "d - l" "m + 1"] by auto
qed simp

lemma month_walk_mono:
  "d < d' \<Longrightarrow> fst (month_walk ls m d) < fst (month_walk ls m d')
     \<or> fst (month_walk ls m d) = fst (month_walk ls m d') \<and> snd (month_walk ls m d) < snd (month_walk ls m d')"
proof (induction ls arbitrary: m d d')
  case (Cons l ls)
  show ?case
  proof (cases "d < l")
    case True
    then show ?thesis using Cons.prems month_walk_ge [of "m + 1" ls "d' - l"] by auto
  next
    case False
    then have "d - l < d' - l" using Cons.prems by simp
    from Cons.IH [OF this] False Cons.prems show ?thesis by auto
  qed
qed simp

lemma month_walk_inverse:
  "d < sum_list ls \<Longrightarrow> month_walk ls m d = (m', d') \<Longrightarrow>
     sum_list (take (m' - m) ls) + d' = d + 1 \<and> 1 \<le> d' \<and> d' \<le> ls ! (m' - m)"
proof (induction ls arbitrary: m d)
  case (Cons l ls)
  show ?case
  proof (cases "d < l")
    case True
    then show ?thesis using Cons.prems by auto
  next
    case False
    then have walk: "month_walk ls (m + 1) (d - l) = (m', d')" using Cons.prems by simp
    moreover have "d - l < sum_list ls" using False Cons.prems by simp
    ultimately have IH: "sum_list (take (m' - (m + 1)) ls) + d' = d - l + 1 \<and> 1 \<le> d' \<and> d' \<le> ls ! (m' - (m + 1))"
      using Cons.IH by blast
    have "m + 1 \<le> m'" using month_walk_ge [of "m + 1" ls "d - l"] walk by simp
    then obtain k where "m' - m = Suc k" "m' - (m + 1) = k"
      by (metis Suc_diff_Suc Suc_eq_plus1 Suc_le_lessD)
    then show ?thesis using IH False by auto
  qed
qed simp

lemma sum_month_lens: "sum_list (month_lens leap) = (if leap then 366 else 365)"
  by (simp add: month_lens_def)

subsection \<open>Decimal fields\<close>

fun dec :: "nat \<Rightarrow> nat \<Rightarrow> string" where
  "dec 0 n = []"
| "dec (Suc w) n = dec w (n div 10) @ [char_of (48 + n mod 10)]"

definition digits_val :: "string \<Rightarrow> nat option" where
  "digits_val s =
     (if s \<noteq> [] \<and> list_all (\<lambda>c. 48 \<le> (of_char c :: nat) \<and> (of_char c :: nat) \<le> 57) s
      then Some (foldl (\<lambda>v c. 10 * v + (of_char c - 48)) 0 s) else None)"

lemma length_dec [simp]: "length (dec w n) = w"
  by (induction w arbitrary: n) auto

lemma list_less_append:
  fixes xs ys :: "'a :: linorder list"
  shows "length xs = length ys \<Longrightarrow> xs @ us < ys @ vs \<longleftrightarrow> xs < ys \<or> xs = ys \<and> us < vs"
  by (induction xs ys rule: list_induct2) auto

lemma less_divmod: "a < b \<longleftrightarrow> a div k < b div k \<or> a div k = b div k \<and> a mod k < b mod k" for a b k :: nat
proof (cases "a div k = b div k")
  case True
  have "a = a div k * k + a mod k" "b = b div k * k + b mod k" by simp_all
  with True show ?thesis by (metis add_less_cancel_left less_irrefl)
next
  case False
  then show ?thesis by (metis div_le_mono leD le_less less_or_eq_imp_le linorder_neqE_nat)
qed

lemma eq_divmod: "a = b \<longleftrightarrow> a div k = b div k \<and> a mod k = b mod k" for a b k :: nat
  by (metis div_mult_mod_eq)

lemma of_char_digit [simp]: "(of_char (char_of (48 + n mod 10) :: char) :: nat) = 48 + n mod 10"
proof -
  have "48 + n mod 10 < 256" using mod_less_divisor [of 10 n] by linarith
  then show ?thesis by simp
qed

lemma dec_less_iff:
  "a < 10 ^ w \<Longrightarrow> b < 10 ^ w \<Longrightarrow> dec w a < dec w b \<longleftrightarrow> a < b"
  and dec_eq_iff: "a < 10 ^ w \<Longrightarrow> b < 10 ^ w \<Longrightarrow> dec w a = dec w b \<longleftrightarrow> a = b"
proof (induction w arbitrary: a b)
  case 0
  {
    case 1
    then show ?case by simp
  next
    case 2
    then show ?case by simp
  }
next
  case (Suc w)
  {
    case 1
    then have "a div 10 < 10 ^ w" "b div 10 < 10 ^ w" by (simp_all add: div_less_iff_less_mult mult.commute)
    then have "dec (Suc w) a < dec (Suc w) b \<longleftrightarrow>
        a div 10 < b div 10 \<or> a div 10 = b div 10 \<and> a mod 10 < b mod 10"
      using Suc by (simp add: list_less_append less_char_def)
    then show ?case using less_divmod [of a b 10] by simp
  next
    case 2
    then have "a div 10 < 10 ^ w" "b div 10 < 10 ^ w" by (simp_all add: div_less_iff_less_mult mult.commute)
    moreover have "(char_of (48 + a mod 10) :: char) = char_of (48 + b mod 10) \<longleftrightarrow> a mod 10 = b mod 10"
      by (metis add_left_cancel of_char_digit)
    ultimately have "dec (Suc w) a = dec (Suc w) b \<longleftrightarrow>
        a div 10 = b div 10 \<and> a mod 10 = b mod 10"
      using Suc by simp
    then show ?case using eq_divmod [of a b 10] by simp
  }
qed

lemma dec_digits: "list_all (\<lambda>c. 48 \<le> (of_char c :: nat) \<and> (of_char c :: nat) \<le> 57) (dec w n)"
proof (induction w arbitrary: n)
  case (Suc w)
  have "n mod 10 \<le> 9" using mod_less_divisor [of 10 n] by linarith
  with Suc show ?case by simp
qed simp

lemma foldl_dec: "foldl (\<lambda>v c. 10 * v + (of_char c - 48)) 0 (dec w n) = n mod 10 ^ w"
proof (induction w arbitrary: n)
  case (Suc w)
  have "10 * (n div 10 mod 10 ^ w) + n mod 10 = n mod (10 * 10 ^ w)"
    by (simp add: mod_mult2_eq)
  with Suc show ?case by simp
qed simp

lemma digits_val_dec: "0 < w \<Longrightarrow> n < 10 ^ w \<Longrightarrow> digits_val (dec w n) = Some n"
proof -
  assume w: "0 < w" "n < 10 ^ w"
  then have "dec w n \<noteq> []" by (cases w) auto
  then show ?thesis using w dec_digits [of w n] by (simp add: digits_val_def foldl_dec)
qed

subsection \<open>The text of an instant\<close>

definition us_per_day :: nat where "us_per_day = 86400000000"

definition date_text :: "nat \<Rightarrow> string" where
  "date_text n =
     (let (y, doy) = year_day n; (m, d) = month_walk (month_lens (is_leap y)) 1 doy
      in dec 4 y @ ''-'' @ dec 2 m @ ''-'' @ dec 2 d)"

definition time_text :: "nat \<Rightarrow> string" where
  "time_text u =
     dec 2 (u div 3600000000) @ '':'' @ dec 2 (u mod 3600000000 div 60000000) @ '':''
     @ dec 2 (u mod 60000000 div 1000000)
     @ (if u mod 1000000 = 0 then [] else ''.'' @ dec 6 (u mod 1000000)) @ ''+00:00''"

text \<open>\<open>isoformat\<close> of a UTC datetime: the microseconds are left out when they are zero.\<close>

definition isoformat :: "datetime \<Rightarrow> string" where
  "isoformat t =
     (let u = nat t in date_text (u div us_per_day) @ ''T'' @ time_text (u mod us_per_day))"

text \<open>
  \<open>datetime.fromisoformat\<close> on the canonical UTC form that \<open>isoformat\<close> writes. Python accepts
  more forms; the rows of the stores hold only this one.
\<close>

definition parse_date :: "string \<Rightarrow> nat option" where
  "parse_date s =
     (if length s \<noteq> 10 \<or> s ! 4 \<noteq> CHR ''-'' \<or> s ! 7 \<noteq> CHR ''-'' then None
      else Option.bind (digits_val (take 4 s)) (\<lambda>y.
           Option.bind (digits_val (take 2 (drop 5 s))) (\<lambda>m.
           Option.bind (digits_val (drop 8 s)) (\<lambda>d.
             if 1 \<le> y \<and> 1 \<le> m \<and> m \<le> 12 \<and> 1 \<le> d \<and> d \<le> month_lens (is_leap y) ! (m - 1)
             then Some (days_before (y - 1) + sum_list (take (m - 1) (month_lens (is_leap y))) + d - 1)
             else None))))"

definition parse_us :: "string \<Rightarrow> nat option" where
  "parse_us s =
     (if s = ''+00:00'' then Some 0
      else if length s = 13 \<and> s ! 0 = CHR ''.'' \<and> drop 7 s = ''+00:00'' then digits_val (take 6 (drop 1 s))
      else None)"

definition parse_time :: "string \<Rightarrow> nat option" where
  "parse_time s =
     (if length s < 8 \<or> s ! 2 \<noteq> CHR '':'' \<or> s ! 5 \<noteq> CHR '':'' then None
      else Option.bind (digits_val (take 2 s)) (\<lambda>h.
           Option.bind (digits_val (take 2 (drop 3 s))) (\<lambda>mi.
           Option.bind (digits_val (take 2 (drop 6 s))) (\<lambda>sec.
           Option.bind (parse_us (drop 8 s)) (\<lambda>us.
             if h < 24 \<and> mi < 60 \<and> sec < 60
             then Some (h * 3600000000 + mi * 60000000 + sec * 1000000 + us) else None)))))"

definition fromisoformat :: "string \<Rightarrow> datetime result" where
  "fromisoformat s =
     (if length s < 11 \<or> s ! 10 \<noteq> CHR ''T'' then Inl (ValueError ''Invalid isoformat string'')
      else case (parse_date (take 10 s), parse_time (drop 11 s)) of
        (Some d, Some u) \<Rightarrow> Inr (int (d * us_per_day + u))
      | _ \<Rightarrow> Inl (ValueError ''Invalid isoformat string''))"

subsection \<open>Order\<close>

lemma year_day_bound: "n < 3652059 \<Longrightarrow> year_day n = (y, d) \<Longrightarrow> y \<le> 9999"
proof (rule ccontr)
  assume n: "n < 3652059" and yd: "year_day n = (y, d)" and "\<not> y \<le> 9999"
  then have "days_before 9999 \<le> days_before (y - 1)" by (intro days_before_mono) simp
  moreover have "n = days_before (y - 1) + d" using year_day_correct(2) [OF yd] .
  moreover have "days_before 9999 = 3652059" by (simp add: days_before_def)
  ultimately show False using n by simp
qed

lemma year_day_mono:
  assumes "n < n'" and "year_day n = (y, d)" and "year_day n' = (y', d')"
  shows "y < y' \<or> y = y' \<and> d < d'"
proof -
  note c = year_day_correct [OF assms(2)] and c' = year_day_correct [OF assms(3)]
  have "y \<le> y'"
  proof (rule ccontr)
    assume "\<not> y \<le> y'"
    then have "days_before y' \<le> days_before (y - 1)" by (intro days_before_mono) simp
    moreover have "days_before y' = days_before (y' - 1) + year_len y'"
      using days_before_Suc [of "y' - 1"] c'(1) by simp
    ultimately show False using c c' assms(1) by simp
  qed
  then show ?thesis using c(2) c'(2) assms(1) by (cases "y = y'") auto
qed

lemma length_date_text: "length (date_text n) = 10"
  by (simp add: date_text_def split: prod.splits)

lemma month_bounds:
  assumes "year_day n = (y, doy)" and "month_walk (month_lens (is_leap y)) 1 doy = (m, d)"
  shows "1 \<le> m" "m \<le> 12" "1 \<le> d" "d \<le> month_lens (is_leap y) ! (m - 1)" "d \<le> 31"
    and "sum_list (take (m - 1) (month_lens (is_leap y))) + d = doy + 1"
proof -
  have doy: "doy < sum_list (month_lens (is_leap y))"
    using year_day_correct(3) [OF assms(1)] by (simp add: sum_month_lens year_len_def)
  show m: "1 \<le> m" using month_walk_ge [of 1 "month_lens (is_leap y)" doy] assms(2) by simp
  show m12: "m \<le> 12"
    using month_walk_le [OF doy, of 1] assms(2) by (simp add: month_lens_def)
  note inv = month_walk_inverse [OF doy assms(2)]
  then show "1 \<le> d" "d \<le> month_lens (is_leap y) ! (m - 1)"
    "sum_list (take (m - 1) (month_lens (is_leap y))) + d = doy + 1" by simp_all
  have "m - 1 < length (month_lens (is_leap y))" using m12 by (simp add: month_lens_def)
  then have "month_lens (is_leap y) ! (m - 1) \<in> set (month_lens (is_leap y))" by (rule nth_mem)
  then have "month_lens (is_leap y) ! (m - 1) \<le> 31" by (auto simp: month_lens_def split: if_splits)
  then show "d \<le> 31" using inv by simp
qed

lemma date_text_mono:
  assumes "n < n'" and "n' < 3652059"
  shows "date_text n < date_text n'"
proof -
  obtain y doy y' doy' where yd: "year_day n = (y, doy)" "year_day n' = (y', doy')" by force
  obtain m d m' d' where md: "month_walk (month_lens (is_leap y)) 1 doy = (m, d)"
    "month_walk (month_lens (is_leap y')) 1 doy' = (m', d')" by force
  have y: "y \<le> 9999" "y' \<le> 9999" using year_day_bound [OF _ yd(1)] year_day_bound [OF _ yd(2)] assms by auto
  note b = month_bounds [OF yd(1) md(1)] and b' = month_bounds [OF yd(2) md(2)]
  have less: "dec 4 y < dec 4 y' \<longleftrightarrow> y < y'" "dec 4 y = dec 4 y' \<longleftrightarrow> y = y'"
    "dec 2 m < dec 2 m' \<longleftrightarrow> m < m'" "dec 2 m = dec 2 m' \<longleftrightarrow> m = m'"
    "dec 2 d < dec 2 d' \<longleftrightarrow> d < d'"
    using y b(2,5) b'(2,5) by (simp_all add: dec_less_iff dec_eq_iff del: dec.simps)
  consider "y < y'" | "y = y'" "doy < doy'" using year_day_mono [OF assms(1) yd] by blast
  then have "y < y' \<or> y = y' \<and> (m < m' \<or> m = m' \<and> d < d')"
  proof cases
    case 2
    then show ?thesis using month_walk_mono [of doy doy' "month_lens (is_leap y)" 1] md by simp
  qed simp
  then show ?thesis
    by (auto simp: date_text_def yd md md [unfolded One_nat_def] list_less_append less
        simp del: dec.simps)
qed

lemma date_text_less_iff:
  "n < 3652059 \<Longrightarrow> n' < 3652059 \<Longrightarrow> date_text n < date_text n' \<longleftrightarrow> n < n'"
  by (metis date_text_mono less_asym' linorder_less_linear)

lemma date_text_eq_iff:
  "n < 3652059 \<Longrightarrow> n' < 3652059 \<Longrightarrow> date_text n = date_text n' \<longleftrightarrow> n = n'"
  by (metis date_text_mono less_irrefl linorder_less_linear)

lemma us_text_less_iff:
  assumes "a < 1000000" and "b < 1000000"
  shows "(if a = 0 then [] else ''.'' @ dec 6 a) @ ''+00:00'' < (if b = 0 then [] else ''.'' @ dec 6 b) @ ''+00:00''
     \<longleftrightarrow> a < (b :: nat)"
  using assms dec_less_iff [of a 6 b]
  by (auto simp: list_less_append less_char_def simp del: dec.simps)

lemma time_fields:
  fixes u v :: nat
  shows "u < v \<longleftrightarrow> u div 3600000000 < v div 3600000000 \<or> u div 3600000000 = v div 3600000000
     \<and> (u mod 3600000000 div 60000000 < v mod 3600000000 div 60000000
        \<or> u mod 3600000000 div 60000000 = v mod 3600000000 div 60000000
     \<and> (u mod 60000000 div 1000000 < v mod 60000000 div 1000000
        \<or> u mod 60000000 div 1000000 = v mod 60000000 div 1000000 \<and> u mod 1000000 < v mod 1000000))"
proof -
  have [simp]: "w mod 3600000000 mod 60000000 = w mod (60000000 :: nat)"
    "w mod 60000000 mod 1000000 = w mod (1000000 :: nat)" for w :: nat
    by (simp_all add: mod_mod_cancel)
  show ?thesis
    using less_divmod [of u v 3600000000]
      less_divmod [of "u mod 3600000000" "v mod 3600000000" 60000000]
      less_divmod [of "u mod 60000000" "v mod 60000000" 1000000]
    by simp
qed

lemma time_field_bounds:
  fixes u :: nat
  assumes "u < us_per_day"
  shows "u div 3600000000 < 24" "u mod 3600000000 div 60000000 < 60"
    "u mod 60000000 div 1000000 < 60" "u mod 1000000 < 1000000"
  using assms by (simp_all add: us_per_day_def div_less_iff_less_mult)

lemma time_text_less_iff:
  assumes "u < us_per_day" and "v < us_per_day"
  shows "time_text u < time_text v \<longleftrightarrow> u < v"
proof -
  note b = time_field_bounds [OF assms(1)] time_field_bounds [OF assms(2)]
  have less: "dec 2 i < dec 2 j \<longleftrightarrow> i < j" "dec 2 i = dec 2 j \<longleftrightarrow> i = j" if "i < 60" "j < 60" for i j
    using that by (simp_all add: dec_less_iff dec_eq_iff del: dec.simps)
  show ?thesis
    using b unfolding time_text_def time_fields [of u v]
    by (simp add: list_less_append less us_text_less_iff [simplified] del: dec.simps)
qed

lemma isoformat_less:
  assumes "valid_datetime s" and "valid_datetime t"
  shows "isoformat s < isoformat t \<longleftrightarrow> s < t"
proof -
  have days: "nat r div us_per_day < 3652059" "nat r mod us_per_day < us_per_day"
    if "valid_datetime r" for r
    using that by (auto simp: valid_datetime_def datetime_max_def us_per_second_def us_per_day_def
        div_less_iff_less_mult nat_less_iff)
  note d = days [OF assms(1)] days [OF assms(2)]
  have "isoformat s < isoformat t \<longleftrightarrow> nat s < nat t"
    using d less_divmod [of "nat s" "nat t" us_per_day]
    by (simp add: isoformat_def Let_def list_less_append length_date_text date_text_less_iff
        date_text_eq_iff time_text_less_iff)
  then show ?thesis using assms by (auto simp: valid_datetime_def)
qed

text \<open>C18: comparing the ISO texts of two instants, as the SQL conditions do, is comparing the instants.\<close>

theorem isoformat_less_iff:
  assumes "valid_datetime s" and "valid_datetime t"
  shows "isoformat s < isoformat t \<longleftrightarrow> s < t"
  using assms by (rule isoformat_less)

lemma isoformat_less_iff_witness: "isoformat 999999 < isoformat 1000000 \<longleftrightarrow> (999999::int) < 1000000"
  by (rule isoformat_less_iff) (simp_all add: valid_datetime_def datetime_max_def us_per_second_def)

subsection \<open>Round trip\<close>

lemma parse_date_text:
  assumes "n < 3652059"
  shows "parse_date (date_text n) = Some n"
proof -
  obtain y doy where yd: "year_day n = (y, doy)" by force
  obtain m d where md: "month_walk (month_lens (is_leap y)) 1 doy = (m, d)" by force
  have y: "y \<le> 9999" using year_day_bound [OF assms yd] .
  note b = month_bounds [OF yd md] and c = year_day_correct [OF yd]
  have shape: "date_text n = dec 4 y @ ''-'' @ dec 2 m @ ''-'' @ dec 2 d"
    by (simp add: date_text_def yd md md [unfolded One_nat_def] del: dec.simps)
  have pieces: "take 4 (date_text n) = dec 4 y" "take 2 (drop 5 (date_text n)) = dec 2 m"
    "drop 8 (date_text n) = dec 2 d" "date_text n ! 4 = CHR ''-''" "date_text n ! 7 = CHR ''-''"
    by (simp_all add: shape nth_append del: dec.simps)
  have vals: "digits_val (dec 4 y) = Some y" "digits_val (dec 2 m) = Some m" "digits_val (dec 2 d) = Some d"
    using y b(2,5) by (simp_all add: digits_val_dec del: dec.simps)
  have "days_before (y - 1) + sum_list (take (m - 1) (month_lens (is_leap y))) + d - 1 = n"
    using b(3,6) c(2) by simp
  then show ?thesis
    unfolding parse_date_def length_date_text pieces vals using b(1-4) c(1)
    by simp
qed

lemma parse_us_text:
  assumes "a < 1000000"
  shows "parse_us ((if a = 0 then [] else ''.'' @ dec 6 a) @ ''+00:00'') = Some a"
proof (cases "a = 0")
  case False
  have d7: "drop 7 (CHR ''.'' # dec 6 a @ ''+00:00'') = ''+00:00''" by (simp del: dec.simps)
  have t6: "take 6 (drop 1 (CHR ''.'' # dec 6 a @ ''+00:00'')) = dec 6 a" by (simp del: dec.simps)
  have "digits_val (dec 6 a) = Some a" by (rule digits_val_dec) (use assms in simp_all)
  then show ?thesis using False d7 t6 by (simp add: parse_us_def del: dec.simps)
qed (simp add: parse_us_def)

lemma parse_time_text:
  assumes "u < us_per_day"
  shows "parse_time (time_text u) = Some u"
proof -
  note b = time_field_bounds [OF assms]
  define h where "h = u div 3600000000"
  define mi where "mi = u mod 3600000000 div 60000000"
  define sec where "sec = u mod 60000000 div 1000000"
  define us where "us = u mod 1000000"
  define tl where "tl = (if us = 0 then [] else ''.'' @ dec 6 us) @ ''+00:00''"
  have less: "h < 24" "mi < 60" "sec < 60" "us < 1000000"
    using b by (simp_all add: h_def mi_def sec_def us_def)
  have shape: "time_text u = dec 2 h @ '':'' @ dec 2 mi @ '':'' @ dec 2 sec @ tl"
    by (simp add: time_text_def h_def mi_def sec_def us_def tl_def del: dec.simps)
  have pieces: "take 2 (time_text u) = dec 2 h" "take 2 (drop 3 (time_text u)) = dec 2 mi"
    "take 2 (drop 6 (time_text u)) = dec 2 sec" "drop 8 (time_text u) = tl"
    "time_text u ! 2 = CHR '':''" "time_text u ! 5 = CHR '':''" "\<not> length (time_text u) < 8"
    by (simp_all add: shape nth_append del: dec.simps)
  have vals: "digits_val (dec 2 h) = Some h" "digits_val (dec 2 mi) = Some mi"
    "digits_val (dec 2 sec) = Some sec" "parse_us tl = Some us"
    using less parse_us_text [OF less(4)] by (simp_all add: digits_val_dec tl_def del: dec.simps)
  have m: "w mod 3600000000 mod 60000000 = w mod (60000000 :: nat)"
    "w mod 60000000 mod 1000000 = w mod (1000000 :: nat)" for w :: nat
    by (simp_all add: mod_mod_cancel)
  have "h * 3600000000 + (mi * 60000000 + (sec * 1000000 + us)) = u"
    unfolding h_def mi_def sec_def us_def
    using div_mult_mod_eq [of u 3600000000] div_mult_mod_eq [of "u mod 3600000000" 60000000]
      div_mult_mod_eq [of "u mod 60000000" 1000000]
    by (simp add: m)
  then show ?thesis
    unfolding parse_time_def pieces vals using less pieces(7) by simp
qed

lemma fromisoformat_text [py_str_simps]:
  assumes "valid_datetime t"
  shows "fromisoformat (isoformat t) = Inr t"
proof -
  define n where "n = nat t div us_per_day"
  define u where "u = nat t mod us_per_day"
  have n: "n < 3652059"
    using assms by (auto simp: n_def valid_datetime_def datetime_max_def us_per_second_def
        us_per_day_def div_less_iff_less_mult nat_less_iff)
  have u: "u < us_per_day" by (simp add: u_def us_per_day_def)
  have shape: "isoformat t = date_text n @ ''T'' @ time_text u"
    by (simp add: isoformat_def n_def u_def Let_def)
  have pieces: "take 10 (isoformat t) = date_text n" "drop 11 (isoformat t) = time_text u"
    "isoformat t ! 10 = CHR ''T''" "\<not> length (isoformat t) < 11"
    by (simp_all add: shape length_date_text nth_append)
  have "int (n * us_per_day + u) = t"
    using assms unfolding n_def u_def by (simp add: valid_datetime_def)
  then show ?thesis
    unfolding fromisoformat_def pieces parse_date_text [OF n] parse_time_text [OF u]
    using pieces(4) by simp
qed

lemma isoformat_le:
  "valid_datetime s \<Longrightarrow> valid_datetime t \<Longrightarrow> isoformat s \<le> isoformat t \<longleftrightarrow> s \<le> t"
  using isoformat_less [of t s] by (simp add: linorder_not_less [symmetric])

lemma isoformat_inj:
  "valid_datetime s \<Longrightarrow> valid_datetime t \<Longrightarrow> isoformat s = isoformat t \<longleftrightarrow> s = t"
  using isoformat_le [of s t] isoformat_le [of t s] by (metis order_antisym_conv order_refl)

text \<open>The text of an instant decodes to the instant.\<close>

theorem fromisoformat_isoformat:
  assumes "valid_datetime t"
  shows "fromisoformat (isoformat t) = Inr t"
  using assms by (rule fromisoformat_text)

lemma fromisoformat_isoformat_witness:
  "fromisoformat (isoformat 63870000000000001) = Inr 63870000000000001"
  by (rule fromisoformat_isoformat) (simp add: valid_datetime_def datetime_max_def us_per_second_def)

end
