(* ===== verification/Sha256Vectors.thy ===== *)
theory Sha256Vectors
  imports Sha256
begin

section \<open>A test vector for SHA-256\<close>

text \<open>
  The digest of \<open>abc\<close> from FIPS 180-4, evaluated by the kernel in four steps: the message schedule,
  the two halves of the compression, and the digest.
\<close>

definition abc_block :: "u32 list" where
  "abc_block = be_words (sha_pad [97, 98, 99])"

definition abc_words :: "u32 list" where
  "abc_words =
    [1633837952, 0, 0, 0, 0, 0, 0, 0, 0, 0, 0, 0, 0, 0, 0, 24, 1633837952, 983040, 2108187653,
     1610613702, 1050508152, 25426944, 316456923, 3806512014, 3357629466, 3073800610, 3854317833,
     845560923, 2636160359, 3968280267, 1881225380, 3552024379, 2482346367, 996719219, 2952069057,
     4043988066, 176896406, 1924104970, 2483675966, 610538786, 2672279444, 4037431130, 1042573945,
     657669027, 206005234, 2215296807, 2049510749, 106709978, 4215179723, 3430291419, 3118885940,
     2845390439, 2226839261, 3256115900, 344409900, 2987358873, 4015503821, 3957764664, 2682456414,
     2025622859, 2755645205, 1720397816, 4004225740, 313650667]"

definition abc_half :: sha_state where
  "abc_half = \<lparr>ha = 1941126133, hb = 3935906338, hc = 2684750640, hd' = 909411017, he = 3126399250, hf = 17410874, hg = 2917635127, hh = 1628611511\<rparr>"

definition abc_full :: sha_state where
  "abc_full = \<lparr>ha = 1349398616, hb = 3550093669, hc = 80891244, hd' = 3093179625, he = 1593118500, hf = 4212265488, hg = 2492278198, hh = 2518632596\<rparr>"

lemma abc_pad: "length (sha_pad [97, 98, 99]) = 64" "take 16 abc_block = abc_block"
  by code_simp+

lemma abc_schedule: "rev (schedule 48 (rev abc_block)) = abc_words"
  by code_simp

lemma abc_rounds:
  "foldl sha_round sha_init (take 32 (zip sha_k abc_words)) = abc_half"
  "foldl sha_round abc_half (drop 32 (zip sha_k abc_words)) = abc_full"
  by code_simp+

lemma abc_compress: "foldl sha_round sha_init (zip sha_k abc_words) = abc_full"
  using abc_rounds by (metis append_take_drop_id foldl_append)

lemma sha256_abc: "sha256_hex [97, 98, 99] = ''ba7816bf8f01cfea414140de5dae2223b00361a396177a9cb410ff61f20015ad''"
proof -
  have state: "sha_blocks 1 abc_block sha_init = sha_block sha_init abc_block"
    by (simp add: abc_pad)
  have "sha_block sha_init abc_block =
      \<lparr>ha = ha sha_init + ha abc_full, hb = hb sha_init + hb abc_full, hc = hc sha_init + hc abc_full,
       hd' = hd' sha_init + hd' abc_full, he = he sha_init + he abc_full, hf = hf sha_init + hf abc_full,
       hg = hg sha_init + hg abc_full, hh = hh sha_init + hh abc_full\<rparr>" (is "_ = ?s")
    by (simp add: sha_block_def abc_schedule abc_compress)
  then have "sha256 [97, 98, 99] = concat (map be_bytes [ha ?s, hb ?s, hc ?s, hd' ?s, he ?s, hf ?s, hg ?s, hh ?s])"
    using state by (simp add: sha256_def abc_pad(1) abc_block_def Let_def)
  moreover have "hexlify (concat (map be_bytes [ha ?s, hb ?s, hc ?s, hd' ?s, he ?s, hf ?s, hg ?s, hh ?s])) =
      ''ba7816bf8f01cfea414140de5dae2223b00361a396177a9cb410ff61f20015ad''"
    by code_simp
  ultimately show ?thesis by (simp add: sha256_hex_def)
qed

end
