(* ===== verification/PasskeyModels.thy ===== *)
theory PasskeyModels
  imports Base64 PyTime
begin

section \<open>Passkey data (\<open>passkey_models.py\<close>)\<close>

text \<open>
  The dataclasses the stores and the service exchange: users, credentials, registration
  contexts with the check of \<open>__post_init__\<close>, challenges and results. A constructor that can
  raise is a \<open>mk_...\<close> function into a result.
\<close>

datatype challenge_kind = Registration | Authentication

datatype registration_kind = SelfRegistration | Invitation | AdditionalCredential | Recovery

datatype capability_purpose = PurposeInvitation | PurposeAccountRecovery

fun kind_text :: "registration_kind \<Rightarrow> string" where
  "kind_text SelfRegistration = ''self_registration''"
| "kind_text Invitation = ''invitation''"
| "kind_text AdditionalCredential = ''additional_credential''"
| "kind_text Recovery = ''recovery''"

fun challenge_kind_text :: "challenge_kind \<Rightarrow> string" where
  "challenge_kind_text Registration = ''registration''"
| "challenge_kind_text Authentication = ''authentication''"

text \<open>
  The kinds are finite and can be enumerated, so that a statement about all of them is computed. Their
  texts are different: a TEXT column that holds one determines the kind, and the rows of the model
  hold the kind itself.
\<close>

instantiation registration_kind :: enum
begin

definition enum_registration_kind :: "registration_kind list" where
  "enum_registration_kind = [SelfRegistration, Invitation, AdditionalCredential, Recovery]"

definition enum_all_registration_kind :: "(registration_kind \<Rightarrow> bool) \<Rightarrow> bool" where
  "enum_all_registration_kind P \<longleftrightarrow> list_all P [SelfRegistration, Invitation, AdditionalCredential, Recovery]"

definition enum_ex_registration_kind :: "(registration_kind \<Rightarrow> bool) \<Rightarrow> bool" where
  "enum_ex_registration_kind P \<longleftrightarrow> list_ex P [SelfRegistration, Invitation, AdditionalCredential, Recovery]"

instance
proof
  have all: "(UNIV :: registration_kind set) = {SelfRegistration, Invitation, AdditionalCredential, Recovery}"
    using registration_kind.exhaust by auto
  then show "(UNIV :: registration_kind set) = set enum_class.enum"
    by (simp add: enum_registration_kind_def)
  show "distinct (enum_class.enum :: registration_kind list)" by (simp add: enum_registration_kind_def)
  fix P :: "registration_kind \<Rightarrow> bool"
  show "enum_class.enum_all P = Ball UNIV P" by (simp only: all) (simp add: enum_all_registration_kind_def)
  show "enum_class.enum_ex P = Bex UNIV P" by (simp only: all) (simp add: enum_ex_registration_kind_def)
qed

end

instantiation challenge_kind :: enum
begin

definition enum_challenge_kind :: "challenge_kind list" where
  "enum_challenge_kind = [Registration, Authentication]"

definition enum_all_challenge_kind :: "(challenge_kind \<Rightarrow> bool) \<Rightarrow> bool" where
  "enum_all_challenge_kind P \<longleftrightarrow> list_all P [Registration, Authentication]"

definition enum_ex_challenge_kind :: "(challenge_kind \<Rightarrow> bool) \<Rightarrow> bool" where
  "enum_ex_challenge_kind P \<longleftrightarrow> list_ex P [Registration, Authentication]"

instance
proof
  have all: "(UNIV :: challenge_kind set) = {Registration, Authentication}"
    using challenge_kind.exhaust by auto
  then show "(UNIV :: challenge_kind set) = set enum_class.enum" by (simp add: enum_challenge_kind_def)
  show "distinct (enum_class.enum :: challenge_kind list)" by (simp add: enum_challenge_kind_def)
  fix P :: "challenge_kind \<Rightarrow> bool"
  show "enum_class.enum_all P = Ball UNIV P" by (simp only: all) (simp add: enum_all_challenge_kind_def)
  show "enum_class.enum_ex P = Bex UNIV P" by (simp only: all) (simp add: enum_ex_challenge_kind_def)
qed

end

lemma kind_text_eq_iff: "kind_text k = kind_text k' \<longleftrightarrow> k = k'"
proof -
  have "\<forall>k k'. kind_text k = kind_text k' \<longrightarrow> k = k'" by code_simp
  then show ?thesis by blast
qed

lemma challenge_kind_text_eq_iff: "challenge_kind_text k = challenge_kind_text k' \<longleftrightarrow> k = k'"
proof -
  have "\<forall>k k'. challenge_kind_text k = challenge_kind_text k' \<longrightarrow> k = k'" by code_simp
  then show ?thesis by blast
qed

record passkey_user =
  pu_user_id :: string
  pu_user_handle :: bytes
  pu_name :: string
  pu_display_name :: "string option"

record passkey_credential =
  pc_credential_id :: bytes
  pc_user_id :: string
  pc_public_key :: bytes
  pc_sign_count :: int
  pc_transports :: "string list"
  pc_device_type :: "string option"
  pc_backed_up :: "bool option"
  pc_label :: "string option"
  pc_created_at :: datetime

record registration_context =
  rc_kind :: registration_kind
  rc_user :: passkey_user
  rc_capability_id :: "string option"

definition user_handle_b64url :: "passkey_user \<Rightarrow> string" where
  "user_handle_b64url u = bytes_to_b64url (pu_user_handle u)"

definition id_b64url :: "passkey_credential \<Rightarrow> string" where
  "id_b64url c = bytes_to_b64url (pc_credential_id c)"

text \<open>\<open>RegistrationContext.__post_init__\<close>.\<close>

definition mk_registration_context ::
  "registration_kind \<Rightarrow> passkey_user \<Rightarrow> string option \<Rightarrow> registration_context result" where
  "mk_registration_context kind user cap =
     (if kind \<in> {Invitation, Recovery} \<and> \<not> truthy cap
      then Inl (ValueError (kind_text kind @ '' registration requires a capability''))
      else if kind \<in> {SelfRegistration, AdditionalCredential} \<and> truthy cap
      then Inl (ValueError (kind_text kind @ '' registration cannot use a capability''))
      else Inr \<lparr>rc_kind = kind, rc_user = user, rc_capability_id = cap\<rparr>)"

definition registration_context_from_capability ::
  "registration_kind \<Rightarrow> passkey_user \<Rightarrow> string \<Rightarrow> string \<Rightarrow> capability_purpose \<Rightarrow> registration_context result" where
  "registration_context_from_capability kind user cap subject purpose =
     (let expected = (if kind = Invitation then PurposeInvitation else PurposeAccountRecovery)
      in if subject \<noteq> pu_user_id user \<or> purpose \<noteq> expected
         then Inl (ValueError ''capability does not match registration subject or purpose'')
         else mk_registration_context kind user (Some cap))"

record challenge_record =
  ch_challenge :: bytes
  ch_kind :: challenge_kind
  ch_key :: string
  ch_expires_at :: datetime
  ch_user :: "passkey_user option"
  ch_registration_kind :: "registration_kind option"
  ch_capability_id :: "string option"

text \<open>The property \<open>ChallengeRecord.registration_context\<close>: it can raise through the constructor.\<close>

definition registration_context_of :: "challenge_record \<Rightarrow> registration_context option result" where
  "registration_context_of r =
     (case (ch_user r, ch_registration_kind r) of
        (Some u, Some k) \<Rightarrow> map_sum id Some (mk_registration_context k u (ch_capability_id r))
      | _ \<Rightarrow> Inr None)"

record authentication_result =
  ar_user :: passkey_user
  ar_credential :: passkey_credential

record verified_registration =
  vr_user :: passkey_user
  vr_credential :: passkey_credential
  vr_context :: "registration_context option"

text \<open>
  The record that both challenge stores build in \<open>save\<close>: a registration context fixes the
  user and is only allowed on a registration challenge of that user.
\<close>

definition challenge_record_for ::
  "datetime \<Rightarrow> string \<Rightarrow> challenge_kind \<Rightarrow> bytes \<Rightarrow> int \<Rightarrow> passkey_user option
   \<Rightarrow> registration_context option \<Rightarrow> challenge_record result" where
  "challenge_record_for now key kind challenge ttl user ctx =
     (if ctx \<noteq> None \<and> (kind \<noteq> Registration \<or> user \<notin> {None, map_option rc_user ctx})
      then Inl (ValueError ''registration context does not match challenge'')
      else case add_seconds now ttl of
        Inl e \<Rightarrow> Inl e
      | Inr expires \<Rightarrow>
          Inr \<lparr>ch_challenge = challenge, ch_kind = kind, ch_key = key, ch_expires_at = expires,
               ch_user = (if ctx \<noteq> None then map_option rc_user ctx else user),
               ch_registration_kind = map_option rc_kind ctx,
               ch_capability_id = Option.bind ctx rc_capability_id\<rparr>)"

subsection \<open>Properties of the data\<close>

definition context_ok :: "registration_context \<Rightarrow> bool" where
  "context_ok c \<longleftrightarrow> (rc_kind c \<in> {Invitation, Recovery} \<longleftrightarrow> truthy (rc_capability_id c))"

lemma mk_registration_context_iff:
  "mk_registration_context kind user cap = Inr c \<longleftrightarrow>
     c = \<lparr>rc_kind = kind, rc_user = user, rc_capability_id = cap\<rparr>
     \<and> (kind \<in> {Invitation, Recovery} \<longleftrightarrow> truthy cap)"
  by (cases kind) (auto simp: mk_registration_context_def)

lemma mk_registration_context_ok: "mk_registration_context kind user cap = Inr c \<Longrightarrow> context_ok c"
  by (auto simp: mk_registration_context_iff context_ok_def)

lemma context_ok_rebuild:
  "context_ok c \<Longrightarrow> mk_registration_context (rc_kind c) (rc_user c) (rc_capability_id c) = Inr c"
  by (simp add: mk_registration_context_iff context_ok_def)

text \<open>
  A context built from a capability names the capability's subject as its user, and its
  kind agrees with the capability's purpose.
\<close>

theorem capability_context_bound:
  assumes "registration_context_from_capability kind user cap subject purpose = Inr c"
    and "kind \<in> {Invitation, Recovery}"
  shows "pu_user_id (rc_user c) = subject \<and> rc_user c = user \<and> rc_capability_id c = Some cap
    \<and> cap \<noteq> [] \<and> rc_kind c = kind \<and> (purpose = PurposeInvitation \<longleftrightarrow> kind = Invitation)"
proof -
  from assms have "subject = pu_user_id user"
    and "purpose = (if kind = Invitation then PurposeInvitation else PurposeAccountRecovery)"
    and "mk_registration_context kind user (Some cap) = Inr c"
    by (auto simp: registration_context_from_capability_def Let_def split: if_split_asm)
  with assms(2) show ?thesis
    by (cases kind) (simp_all add: mk_registration_context_iff)
qed

lemma capability_context_bound_witness:
  "let u = \<lparr>pu_user_id = ''u1'', pu_user_handle = [1], pu_name = ''ann'', pu_display_name = None\<rparr>;
       c = \<lparr>rc_kind = Invitation, rc_user = u, rc_capability_id = Some ''cap''\<rparr>
   in registration_context_from_capability Invitation u ''cap'' ''u1'' PurposeInvitation = Inr c
      \<and> pu_user_id (rc_user c) = ''u1''"
proof -
  let ?u = "\<lparr>pu_user_id = ''u1'', pu_user_handle = [1], pu_name = ''ann'', pu_display_name = None\<rparr>"
  let ?c = "\<lparr>rc_kind = Invitation, rc_user = ?u, rc_capability_id = Some ''cap''\<rparr>"
  have made: "registration_context_from_capability Invitation ?u ''cap'' ''u1'' PurposeInvitation = Inr ?c"
    by (simp add: registration_context_from_capability_def mk_registration_context_def)
  show ?thesis using made capability_context_bound [OF made] unfolding Let_def by simp
qed

lemma challenge_record_for_Inr:
  assumes "challenge_record_for now key kind challenge ttl user ctx = Inr r"
  shows "ch_challenge r = challenge" "ch_kind r = kind" "ch_key r = key"
    "ch_expires_at r = now + ttl * us_per_second" "valid_datetime (ch_expires_at r)"
    "ctx \<noteq> None \<Longrightarrow> kind = Registration \<and> ch_user r = map_option rc_user ctx"
    "ctx = None \<Longrightarrow> ch_user r = user \<and> ch_registration_kind r = None"
  using assms
  by (auto simp: challenge_record_for_def dest!: add_seconds_Inr split: if_splits sum.splits)

lemma challenge_record_for_nonpos:
  "challenge_record_for now key kind challenge ttl user ctx = Inr r \<Longrightarrow> ttl \<le> 0 \<Longrightarrow> ch_expires_at r \<le> now"
  by (simp add: challenge_record_for_Inr us_per_second_def)

text \<open>The context that was saved is the context that the record gives back.\<close>

lemma challenge_context_roundtrip:
  assumes "challenge_record_for now key kind challenge ttl user (Some c) = Inr r" and "context_ok c"
  shows "registration_context_of r = Inr (Some c)"
proof -
  have "ch_user r = Some (rc_user c)" "ch_registration_kind r = Some (rc_kind c)"
    "ch_capability_id r = rc_capability_id c"
    using assms(1) by (auto simp: challenge_record_for_def split: if_splits sum.splits)
  then show ?thesis using context_ok_rebuild [OF assms(2)] by (simp add: registration_context_of_def)
qed

end
