(* ===== verification/Url.thy ===== *)
theory Url
  imports Prelude
begin

section \<open>URLs (\<open>urllib.parse.urlsplit\<close>)\<close>

text \<open>
  The parser that the program's checks of origins, endpoints and return paths rest on, as in
  CPython 3.12: scheme, authority, path, query and fragment, with the host, port and user
  information of the authority, and \<open>ipaddress\<close>'s reading of a bracketed host. On the code
  points below 256 the NFKC check of the authority never fires, so it is left out.
\<close>

subsection \<open>String searches\<close>

text \<open>\<open>str.partition\<close> and \<open>str.rpartition\<close> at one character: before, whether it was found, after.\<close>

definition partition_char :: "char \<Rightarrow> string \<Rightarrow> string \<times> bool \<times> string" where
  "partition_char c s =
     (let b = takeWhile (\<lambda>x. x \<noteq> c) s
      in if c \<in> set s then (b, True, drop (Suc (length b)) s) else (s, False, []))"

definition rpartition_char :: "char \<Rightarrow> string \<Rightarrow> string \<times> bool \<times> string" where
  "rpartition_char c s =
     (let a = rev (takeWhile (\<lambda>x. x \<noteq> c) (rev s))
      in if c \<in> set s then (take (length s - Suc (length a)) s, True, a) else ([], False, s))"

fun split_char :: "char \<Rightarrow> string \<Rightarrow> string list" where
  "split_char c [] = [[]]"
| "split_char c (x # xs) =
     (if x = c then [] # split_char c xs
      else (case split_char c xs of p # ps \<Rightarrow> (x # p) # ps | [] \<Rightarrow> [[x]]))"

definition ascii_alpha :: "char \<Rightarrow> bool" where
  "ascii_alpha c = (let n = (of_char c :: nat) in (65 \<le> n \<and> n \<le> 90) \<or> (97 \<le> n \<and> n \<le> 122))"

definition ascii_digit :: "char \<Rightarrow> bool" where
  "ascii_digit c = (let n = (of_char c :: nat) in 48 \<le> n \<and> n \<le> 57)"

definition hex_digit_char :: "char \<Rightarrow> bool" where
  "hex_digit_char c = (ascii_digit c \<or> (let n = (of_char c :: nat) in (65 \<le> n \<and> n \<le> 70) \<or> (97 \<le> n \<and> n \<le> 102)))"

definition decimal :: "string \<Rightarrow> nat" where
  "decimal s = foldl (\<lambda>n c. n * 10 + (of_char c - 48)) 0 s"

definition py_contains :: "string \<Rightarrow> string \<Rightarrow> bool" where
  "py_contains s w = (\<exists>i \<in> set [0..<Suc (length s)]. py_startswith (drop i s) w)"

definition py_endswith :: "string \<Rightarrow> string \<Rightarrow> bool" where
  "py_endswith s w = (length w \<le> length s \<and> drop (length s - length w) s = w)"

subsection \<open>Bracketed hosts\<close>

definition ipv4_octet :: "string \<Rightarrow> bool" where
  "ipv4_octet s \<longleftrightarrow> s \<noteq> [] \<and> list_all ascii_digit s \<and> length s \<le> 3
     \<and> (s = ''0'' \<or> hd s \<noteq> CHR ''0'') \<and> decimal s \<le> 255"

definition ipv4_ok :: "string \<Rightarrow> bool" where
  "ipv4_ok s \<longleftrightarrow> length (split_char (CHR ''.'') s) = 4 \<and> list_all ipv4_octet (split_char (CHR ''.'') s)"

definition hextet_ok :: "string \<Rightarrow> bool" where
  "hextet_ok s \<longleftrightarrow> s \<noteq> [] \<and> length s \<le> 4 \<and> list_all hex_digit_char s"

text \<open>\<open>IPv6Address._ip_int_from_string\<close>: the groups, at most one of them skipped by \<open>::\<close>.\<close>

definition ipv6_groups_ok :: "string list \<Rightarrow> bool" where
  "ipv6_groups_ok parts =
     (let n = length parts;
          skips = filter (\<lambda>i. parts ! i = []) [1..<n - 1]
      in if n > 9 \<or> length skips > 1 then False
         else (case skips of
             [i] \<Rightarrow>
               (let hi = (if hd parts = [] then i - 1 else i);
                    lo = (if last parts = [] then n - i - 2 else n - i - 1)
                in (hd parts = [] \<longrightarrow> hi = 0) \<and> (last parts = [] \<longrightarrow> lo = 0) \<and> hi + lo < 8
                   \<and> list_all hextet_ok (take hi parts) \<and> list_all hextet_ok (drop (n - lo) parts))
           | _ \<Rightarrow> n = 8 \<and> list_all hextet_ok parts))"

definition ipv6_ok :: "string \<Rightarrow> bool" where
  "ipv6_ok s =
     (case partition_char (CHR ''%'') s of (addr, scoped, zone) \<Rightarrow>
       if scoped \<and> (zone = [] \<or> CHR ''%'' \<in> set zone) then False
       else (let parts = split_char (CHR '':'') addr
         in if CHR ''/'' \<in> set s \<or> length parts < 3 then False
            else if CHR ''.'' \<in> set (last parts)
            then ipv4_ok (last parts) \<and> ipv6_groups_ok (butlast parts @ [''0'', ''0''])
            else ipv6_groups_ok parts))"

text \<open>\<open>_check_bracketed_host\<close>: an IPvFuture literal, or an IPv6 address.\<close>

definition bracketed_host_ok :: "string \<Rightarrow> bool" where
  "bracketed_host_ok h =
     (if py_startswith h ''v'' then
        (case partition_char (CHR ''.'') (tl h) of (ver, dot, rest) \<Rightarrow>
           dot \<and> ver \<noteq> [] \<and> list_all hex_digit_char ver \<and> rest \<noteq> [] \<and> CHR 0x0A \<notin> set rest)
      else \<not> ipv4_ok h \<and> ipv6_ok h)"

definition bracketed_netloc_ok :: "string \<Rightarrow> bool" where
  "bracketed_netloc_ok netloc =
     (case rpartition_char (CHR ''@'') netloc of (_, _, hostport) \<Rightarrow>
      case partition_char (CHR ''['') hostport of (pre, opened, bracketed) \<Rightarrow>
        if opened then
          (case partition_char (CHR '']'') bracketed of (h, _, port) \<Rightarrow>
             pre = [] \<and> (port = [] \<or> hd port = CHR '':'') \<and> bracketed_host_ok h)
        else (case partition_char (CHR '':'') hostport of (h, _, _) \<Rightarrow> bracketed_host_ok h))"

subsection \<open>\<open>urlsplit\<close>\<close>

record split_url =
  su_scheme :: string
  su_netloc :: string
  su_path :: string
  su_query :: string
  su_fragment :: string

definition c0_or_space :: "char \<Rightarrow> bool" where
  "c0_or_space c = ((of_char c :: nat) \<le> 32)"

definition scheme_char :: "char \<Rightarrow> bool" where
  "scheme_char c = (ascii_alpha c \<or> ascii_digit c \<or> c \<in> {CHR ''+'', CHR ''-'', CHR ''.''})"

definition netloc_char :: "char \<Rightarrow> bool" where
  "netloc_char c = (c \<noteq> CHR ''/'' \<and> c \<noteq> CHR ''?'' \<and> c \<noteq> CHR ''#'')"

definition clean_url :: "string \<Rightarrow> string" where
  "clean_url url =
     filter (\<lambda>c. c \<noteq> CHR 0x09 \<and> c \<noteq> CHR 0x0A \<and> c \<noteq> CHR 0x0D) (dropWhile c0_or_space url)"

definition split_scheme :: "string \<Rightarrow> string \<times> string" where
  "split_scheme url =
     (case partition_char (CHR '':'') url of (s, found, rest) \<Rightarrow>
        if found \<and> s \<noteq> [] \<and> ascii_alpha (hd s) \<and> list_all scheme_char s
        then (py_lower s, rest) else ([], url))"

definition urlsplit :: "string \<Rightarrow> split_url result" where
  "urlsplit url0 =
     (case split_scheme (clean_url url0) of (scheme, url1) \<Rightarrow>
      let has_netloc = py_startswith url1 ''//'';
          netloc = (if has_netloc then takeWhile netloc_char (drop 2 url1) else []);
          url2 = (if has_netloc then dropWhile netloc_char (drop 2 url1) else url1)
      in if (CHR ''['' \<in> set netloc) \<noteq> (CHR '']'' \<in> set netloc)
         then Inl (ValueError ''Invalid IPv6 URL'')
         else if CHR ''['' \<in> set netloc \<and> \<not> bracketed_netloc_ok netloc
         then Inl (ValueError ''Invalid IPv6 URL'')
         else (case partition_char (CHR ''#'') url2 of (url3, _, fragment) \<Rightarrow>
               case partition_char (CHR ''?'') url3 of (path, _, query) \<Rightarrow>
                 Inr \<lparr>su_scheme = scheme, su_netloc = netloc, su_path = path, su_query = query,
                      su_fragment = fragment\<rparr>))"

subsection \<open>The authority\<close>

definition userinfo :: "split_url \<Rightarrow> string option \<times> string option" where
  "userinfo u =
     (case rpartition_char (CHR ''@'') (su_netloc u) of (info, have, _) \<Rightarrow>
        if have then
          (case partition_char (CHR '':'') info of (name, have_pw, pw) \<Rightarrow>
             (Some name, if have_pw then Some pw else None))
        else (None, None))"

definition username :: "split_url \<Rightarrow> string option" where "username u = fst (userinfo u)"
definition password :: "split_url \<Rightarrow> string option" where "password u = snd (userinfo u)"

definition hostinfo :: "split_url \<Rightarrow> string \<times> string option" where
  "hostinfo u =
     (case rpartition_char (CHR ''@'') (su_netloc u) of (_, _, info) \<Rightarrow>
      case partition_char (CHR ''['') info of (_, opened, bracketed) \<Rightarrow>
      case (if opened then
              (case partition_char (CHR '']'') bracketed of (h, _, rest) \<Rightarrow>
               case partition_char (CHR '':'') rest of (_, _, port) \<Rightarrow> (h, port))
            else (case partition_char (CHR '':'') info of (h, _, port) \<Rightarrow> (h, port))) of
        (h, port) \<Rightarrow> (h, if port = [] then None else Some port))"

definition hostname :: "split_url \<Rightarrow> string option" where
  "hostname u =
     (let h = fst (hostinfo u) in
      if h = [] then None
      else (case partition_char (CHR ''%'') h of (name, percent, zone) \<Rightarrow>
        Some (py_lower name @ (if percent then ''%'' else []) @ zone)))"

definition url_port :: "split_url \<Rightarrow> nat option result" where
  "url_port u =
     (case snd (hostinfo u) of
        None \<Rightarrow> Inr None
      | Some p \<Rightarrow>
          (if p = [] \<or> \<not> list_all ascii_digit p
           then Inl (ValueError ''Port could not be cast to integer value'')
           else if decimal p > 65535 then Inl (ValueError ''Port out of range 0-65535'')
           else Inr (Some (decimal p))))"

fun nat_text :: "nat \<Rightarrow> string" where
  "nat_text n = (if n < 10 then [char_of (48 + n)] else nat_text (n div 10) @ [char_of (48 + n mod 10)])"

declare nat_text.simps [simp del]

subsection \<open>Lemmas\<close>

lemma partition_char_absent: "c \<notin> set s \<Longrightarrow> partition_char c s = (s, False, [])"
  by (simp add: partition_char_def)

lemma partition_char_found:
  "c \<notin> set b \<Longrightarrow> partition_char c (b @ c # a) = (b, True, a)"
proof -
  assume "c \<notin> set b"
  then have "takeWhile (\<lambda>x. x \<noteq> c) (b @ c # a) = b" by (induction b) auto
  then show "partition_char c (b @ c # a) = (b, True, a)" by (simp add: partition_char_def)
qed

lemma rpartition_char_absent: "c \<notin> set s \<Longrightarrow> rpartition_char c s = ([], False, s)"
  by (simp add: rpartition_char_def)

lemma urlsplit_netloc_chars:
  assumes "urlsplit s = Inr u"
  shows "\<forall>c \<in> set (su_netloc u). netloc_char c"
proof -
  have "\<forall>c \<in> set (takeWhile netloc_char xs). netloc_char c" for xs by (auto dest: set_takeWhileD)
  then show ?thesis
    using assms by (auto simp: urlsplit_def Let_def split: prod.splits if_split_asm)
qed

end
