(* ===== verification/PasskeyConfig.thy ===== *)
theory PasskeyConfig
  imports Url
begin

section \<open>The relying party configuration (\<open>PasskeyConfig\<close> in \<open>passkey_models.py\<close>)\<close>

text \<open>
  \<open>_normalize_origin\<close> and the constructor of \<open>PasskeyConfig\<close>, with every rejection: what a
  configuration that exists guarantees to the WebAuthn verification that reads it.
\<close>

definition loopback :: "string set" where
  "loopback = {''localhost'', ''127.0.0.1'', ''::1''}"

abbreviation origin_scheme_error :: exn where
  "origin_scheme_error \<equiv>
     ValueError ''origin must use https://; http is only allowed for localhost''"

definition default_port :: "string \<Rightarrow> nat" where
  "default_port scheme = (if scheme = ''http'' then 80 else 443)"

definition origin_text :: "string \<Rightarrow> string \<Rightarrow> nat option \<Rightarrow> string" where
  "origin_text scheme host port =
     (let port_suffix = (case port of None \<Rightarrow> []
            | Some p \<Rightarrow> if p = default_port scheme then [] else '':'' @ nat_text p);
          host_for_url = (if CHR '':'' \<in> set host then ''['' @ host @ '']'' else host)
      in scheme @ ''://'' @ host_for_url @ port_suffix)"

definition normalize_origin :: "string \<Rightarrow> string result" where
  "normalize_origin origin =
     (if py_strip origin = [] then Inl (ValueError ''origin must be a non-empty string'')
      else if origin \<noteq> py_strip origin
      then Inl (ValueError ''origin must not have surrounding whitespace'')
      else if (\<exists>c \<in> set origin. (of_char c :: nat) < 32) \<or> CHR 0x5C \<in> set origin
      then Inl (ValueError ''origin contains invalid control characters'')
      else res_bind (urlsplit origin) (\<lambda>parsed.
        let scheme = py_lower (su_scheme parsed) in
        if scheme \<notin> {''http'', ''https''} then Inl origin_scheme_error
        else (case url_port parsed of
          Inl _ \<Rightarrow> Inl (ValueError ''origin contains an invalid port or host'')
        | Inr port \<Rightarrow>
            (if username parsed \<noteq> None \<or> password parsed \<noteq> None \<or> \<not> truthy (hostname parsed)
             then Inl (ValueError ''origin must not contain userinfo and must have a host'')
             else if su_path parsed \<noteq> [] \<or> su_query parsed \<noteq> [] \<or> su_fragment parsed \<noteq> []
             then Inl (ValueError ''origin must not contain a path, query, or fragment'')
             else if \<exists>c \<in> set (the (hostname parsed)). c \<in> set ''*%/?#@''
             then Inl (ValueError ''origin host must be an exact hostname'')
             else if su_netloc parsed \<noteq> [] \<and> last (su_netloc parsed) = CHR '':''
             then Inl (ValueError ''origin must not contain an empty port'')
             else (let host = py_lower (the (hostname parsed)) in
               if scheme = ''http'' \<and> host \<notin> loopback then Inl origin_scheme_error
               else Inr (origin_text scheme host port))))))"

record passkey_config =
  pk_rp_id :: string
  pk_rp_name :: string
  pk_origins :: "string list"
  pk_timeout_ms :: int
  pk_challenge_ttl :: int
  pk_user_verification :: string

definition require_user_verification :: "passkey_config \<Rightarrow> bool" where
  "require_user_verification c \<longleftrightarrow> pk_user_verification c = ''required''"

definition non_empty_trimmed :: "string \<Rightarrow> string \<Rightarrow> unit result" where
  "non_empty_trimmed name value =
     (if py_strip value = [] then Inl (ValueError (name @ '' must be a non-empty string''))
      else if value \<noteq> py_strip value then Inl (ValueError (name @ '' must not have surrounding whitespace''))
      else Inr ())"

text \<open>The host of a configured origin must be the relying party id or end with a dot and the id.\<close>

definition origin_matches :: "string \<Rightarrow> string \<Rightarrow> bool" where
  "origin_matches rp_id host \<longleftrightarrow> host = rp_id \<or> py_endswith host (''.'' @ rp_id)"

fun check_origins :: "string \<Rightarrow> string list \<Rightarrow> unit result" where
  "check_origins rp_id [] = Inr ()"
| "check_origins rp_id (o1 # os) =
     res_bind (urlsplit o1) (\<lambda>u.
       let host = (case hostname u of None \<Rightarrow> [] | Some h \<Rightarrow> h) in
       if origin_matches rp_id host then check_origins rp_id os
       else Inl (ValueError ''rp_id must equal or be a suffix of every origin hostname''))"

definition mk_passkey_config ::
  "string \<Rightarrow> string \<Rightarrow> string option \<Rightarrow> int \<Rightarrow> int \<Rightarrow> string \<Rightarrow> string list option \<Rightarrow> passkey_config result" where
  "mk_passkey_config rp_id rp_name origin timeout_ms ttl uv origins =
     res_bind (non_empty_trimmed ''rp_id'' rp_id) (\<lambda>_.
     res_bind (non_empty_trimmed ''rp_name'' rp_name) (\<lambda>_.
     if py_contains rp_id ''://'' \<or> CHR ''/'' \<in> set rp_id \<or> CHR '':'' \<in> set rp_id \<or> py_lower rp_id \<noteq> rp_id
     then Inl (ValueError ''rp_id must be a lowercase hostname only'')
     else if origin \<noteq> None \<and> origins \<noteq> None
     then Inl (ValueError ''origin and origins cannot both be configured'')
     else (let configured = (case origin of Some o1 \<Rightarrow> [o1]
             | None \<Rightarrow> (case origins of Some os \<Rightarrow> os | None \<Rightarrow> [])) in
       if configured = [] then Inl (ValueError ''one or more origins are required'')
       else res_bind (map_result normalize_origin configured) (\<lambda>normalized.
         if \<not> distinct normalized then Inl (ValueError ''origins must be unique'')
         else res_bind (check_origins rp_id normalized) (\<lambda>_.
           if timeout_ms \<le> 0 \<or> ttl \<le> 0
           then Inl (ValueError ''timeout_ms and challenge_ttl_seconds must be positive'')
           else if uv \<notin> {''required'', ''preferred'', ''discouraged''}
           then Inl (ValueError ''invalid user_verification'')
           else Inr \<lparr>pk_rp_id = rp_id, pk_rp_name = rp_name, pk_origins = normalized,
                     pk_timeout_ms = timeout_ms, pk_challenge_ttl = ttl, pk_user_verification = uv\<rparr>)))))"

subsection \<open>Canonical origins\<close>

text \<open>A secure origin: https, or http to the local machine.\<close>

definition secure_origin :: "string \<Rightarrow> bool" where
  "secure_origin r \<longleftrightarrow>
     (\<exists>scheme host port. r = origin_text scheme host port \<and> host \<noteq> []
        \<and> (scheme = ''https'' \<or> (scheme = ''http'' \<and> host \<in> loopback)))"

lemma py_lower_empty [simp]: "py_lower s = [] \<longleftrightarrow> s = []"
  by (simp add: py_lower_def)

lemma normalize_origin_Inr:
  assumes "normalize_origin s = Inr r"
  obtains u port where "urlsplit s = Inr u" "url_port u = Inr port" "truthy (hostname u)"
    "py_lower (su_scheme u) \<in> {''http'', ''https''}"
    "py_lower (su_scheme u) = ''http'' \<Longrightarrow> py_lower (the (hostname u)) \<in> loopback"
    "r = origin_text (py_lower (su_scheme u)) (py_lower (the (hostname u))) port"
    "username u = None" "password u = None" "su_path u = []" "su_query u = []" "su_fragment u = []"
proof -
  from assms [unfolded normalize_origin_def guards] obtain u port where
    "urlsplit s = Inr u" "url_port u = Inr port" "py_lower (su_scheme u) \<in> {''http'', ''https''}"
    "\<not> (username u \<noteq> None \<or> password u \<noteq> None \<or> \<not> truthy (hostname u))"
    "\<not> (su_path u \<noteq> [] \<or> su_query u \<noteq> [] \<or> su_fragment u \<noteq> [])"
    "\<not> (py_lower (su_scheme u) = ''http'' \<and> py_lower (the (hostname u)) \<notin> loopback)"
    "Inr (origin_text (py_lower (su_scheme u)) (py_lower (the (hostname u))) port) = (Inr r :: string result)"
    by (metis (no_types, lifting))
  then show thesis using that by (simp only: de_Morgan_disj de_Morgan_conj not_not sum.inject) blast
qed

lemma normalize_origin_secure: "normalize_origin s = Inr r \<Longrightarrow> secure_origin r"
proof (erule normalize_origin_Inr)
  fix u port
  assume host: "truthy (hostname u)" and scheme: "py_lower (su_scheme u) \<in> {''http'', ''https''}"
    and loop: "py_lower (su_scheme u) = ''http'' \<Longrightarrow> py_lower (the (hostname u)) \<in> loopback"
    and r: "r = origin_text (py_lower (su_scheme u)) (py_lower (the (hostname u))) port"
  have "py_lower (the (hostname u)) \<noteq> []" using host by (cases "hostname u") auto
  with scheme loop r show "secure_origin r" unfolding secure_origin_def by blast
qed

lemma map_result_Inr: "map_result f xs = Inr ys \<Longrightarrow> y \<in> set ys \<Longrightarrow> \<exists>x \<in> set xs. f x = Inr y"
  by (induction xs arbitrary: ys) (auto simp: res_bind_Inr)

lemma map_result_length: "map_result f xs = Inr ys \<Longrightarrow> length ys = length xs"
  by (induction xs arbitrary: ys) (auto simp: res_bind_Inr)

lemma check_origins_Inr:
  "check_origins rp_id os = Inr () \<Longrightarrow> x \<in> set os \<Longrightarrow>
   \<exists>u. urlsplit x = Inr u \<and> origin_matches rp_id (case hostname u of None \<Rightarrow> [] | Some h \<Rightarrow> h)"
  by (induction os) (auto simp: res_bind_Inr Let_def split: if_split_asm)

text \<open>
  A configuration that can be constructed has at least one origin, all distinct and secure
  (https, or http to the local machine), each on a host that is the relying party id or a
  subdomain of it; its id is a lower-case host name and its time-outs are positive.
\<close>

theorem passkey_config_sound:
  assumes "mk_passkey_config rp_id rp_name origin timeout_ms ttl uv origins = Inr c"
  shows "pk_origins c \<noteq> [] \<and> distinct (pk_origins c) \<and> (\<forall>r \<in> set (pk_origins c). secure_origin r
      \<and> (\<exists>u. urlsplit r = Inr u \<and> origin_matches (pk_rp_id c) (case hostname u of None \<Rightarrow> [] | Some h \<Rightarrow> h)))
    \<and> pk_rp_id c = rp_id \<and> rp_id \<noteq> [] \<and> py_lower rp_id = rp_id \<and> CHR ''/'' \<notin> set rp_id \<and> CHR '':'' \<notin> set rp_id
    \<and> 0 < pk_timeout_ms c \<and> 0 < pk_challenge_ttl c
    \<and> pk_user_verification c \<in> {''required'', ''preferred'', ''discouraged''}"
proof -
  define configured where "configured = (case origin of Some o1 \<Rightarrow> [o1]
      | None \<Rightarrow> (case origins of Some os \<Rightarrow> os | None \<Rightarrow> []))"
  from assms have conf: "configured \<noteq> []" "map_result normalize_origin configured = Inr (pk_origins c)"
    and rest: "distinct (pk_origins c)" "check_origins rp_id (pk_origins c) = Inr ()"
      "pk_rp_id c = rp_id" "py_strip rp_id \<noteq> []" "py_lower rp_id = rp_id"
      "CHR ''/'' \<notin> set rp_id" "CHR '':'' \<notin> set rp_id" "0 < pk_timeout_ms c" "0 < pk_challenge_ttl c"
      "pk_user_verification c \<in> {''required'', ''preferred'', ''discouraged''}"
    unfolding mk_passkey_config_def non_empty_trimmed_def configured_def [symmetric] guards
    by auto
  have "pk_origins c \<noteq> []" using map_result_length [OF conf(2)] conf(1) by auto
  moreover have "secure_origin r" if "r \<in> set (pk_origins c)" for r
    using map_result_Inr [OF conf(2) that] normalize_origin_secure by blast
  moreover have "rp_id \<noteq> []" using rest(4) by auto
  ultimately show ?thesis using rest check_origins_Inr [OF rest(2)] by blast
qed

lemmas config_eval_defs = normalize_origin_def urlsplit_def split_scheme_def clean_url_def c0_or_space_def
  scheme_char_def ascii_alpha_def ascii_digit_def partition_char_def rpartition_char_def netloc_char_def
  url_port_def hostinfo_def hostname_def username_def password_def userinfo_def decimal_def origin_text_def
  default_port_def origin_matches_def py_endswith_def

lemma passkey_config_sound_witness:
  "\<exists>c. mk_passkey_config ''a.io'' ''Example'' None 60000 300 ''required'' (Some [''https://W.a.io:443'']) = Inr c
    \<and> pk_origins c = [''https://w.a.io''] \<and> 0 < pk_challenge_ttl c"
proof -
  let ?c = "\<lparr>pk_rp_id = ''a.io'', pk_rp_name = ''Example'', pk_origins = [''https://w.a.io''],
    pk_timeout_ms = 60000, pk_challenge_ttl = 300, pk_user_verification = ''required''\<rparr>"
  have made: "mk_passkey_config ''a.io'' ''Example'' None 60000 300 ''required''
      (Some [''https://W.a.io:443'']) = Inr ?c"
    by (simp add: mk_passkey_config_def non_empty_trimmed_def py_strip_def py_isspace_def py_contains_def
        py_startswith_def py_lower_def lower_char_def config_eval_defs char_of_def bit_Suc_0_iff)
  show ?thesis using made passkey_config_sound [OF made] by auto
qed

subsection \<open>Canonical origins are fixed points\<close>

definition plain_char :: "char \<Rightarrow> bool" where
  "plain_char c \<longleftrightarrow> 32 \<le> (of_char c :: nat) \<and> c \<notin> set ''*%/?#@:[]'' \<and> c \<noteq> CHR 0x5C"

definition plain_host :: "string \<Rightarrow> bool" where
  "plain_host h \<longleftrightarrow> h \<noteq> [] \<and> py_lower h = h \<and> \<not> py_isspace (last h) \<and> (\<forall>c \<in> set h. plain_char c)"

lemma plain_char_facts:
  assumes "plain_char c"
  shows "netloc_char c" "c \<noteq> CHR '':''" "c \<noteq> CHR ''@''" "c \<noteq> CHR ''[''" "c \<noteq> CHR '']''" "c \<noteq> CHR ''%''"
    "32 \<le> (of_char c :: nat)" "c \<noteq> CHR 0x5C" "c \<notin> set ''*%/?#@''"
  using assms by (auto simp: plain_char_def netloc_char_def)

lemma py_strip_ends: "s \<noteq> [] \<Longrightarrow> \<not> py_isspace (hd s) \<Longrightarrow> \<not> py_isspace (last s) \<Longrightarrow> py_strip s = s"
  by (simp add: py_strip_def dropWhile_idem_head hd_rev)

lemma nat_text_digits: "list_all ascii_digit (nat_text n) \<and> nat_text n \<noteq> [] \<and> decimal (nat_text n) = n"
proof (induction n rule: nat_text.induct)
  case (1 n)
  have dig: "ascii_digit (char_of (48 + d))" "(of_char (char_of (48 + d) :: char) :: nat) - 48 = d"
    if "d < 10" for d :: nat
    using that by (auto simp: ascii_digit_def Let_def)
  show ?case
  proof (cases "n < 10")
    case True
    then show ?thesis using dig [of n] by (subst (1 2 3) nat_text.simps) (simp add: decimal_def)
  next
    case False
    then have IH: "list_all ascii_digit (nat_text (n div 10))" "decimal (nat_text (n div 10)) = n div 10"
      using 1 by simp_all
    have digits: "nat_text n = nat_text (n div 10) @ [char_of (48 + n mod 10)]"
      using False by (subst nat_text.simps) simp
    show ?thesis using IH dig [of "n mod 10"] by (simp add: digits) (simp add: decimal_def)
  qed
qed

lemma digit_facts:
  assumes "ascii_digit c"
  shows "netloc_char c" "c \<noteq> CHR '':''" "c \<noteq> CHR ''@''" "c \<noteq> CHR ''[''" "c \<noteq> CHR '']''" "\<not> py_isspace c"
    "32 \<le> (of_char c :: nat)" "c \<noteq> CHR 0x5C" "c \<noteq> CHR 0x09" "c \<noteq> CHR 0x0A" "c \<noteq> CHR 0x0D"
  using assms by (auto simp: ascii_digit_def netloc_char_def py_isspace_def Let_def)

text \<open>The port as \<open>origin_text\<close> writes it, and the authority with it.\<close>

definition port_suffix :: "string \<Rightarrow> nat option \<Rightarrow> string" where
  "port_suffix scheme port = (case port of None \<Rightarrow> []
      | Some p \<Rightarrow> if p = default_port scheme then [] else '':'' @ nat_text p)"

lemma plain_host_chars:
  assumes "plain_host h"
  shows "h \<noteq> []" "py_lower h = h" "CHR '':'' \<notin> set h" "CHR ''['' \<notin> set h" "CHR ''@'' \<notin> set h"
    "CHR ''%'' \<notin> set h" "CHR '']'' \<notin> set h" "\<not> (\<exists>c \<in> set h. c \<in> set ''*%/?#@'')"
proof -
  have hc: "\<And>c. c \<in> set h \<Longrightarrow> plain_char c" using assms by (auto simp: plain_host_def)
  show "h \<noteq> []" "py_lower h = h" using assms by (auto simp: plain_host_def)
  show "CHR '':'' \<notin> set h" "CHR ''['' \<notin> set h" "CHR ''@'' \<notin> set h" "CHR ''%'' \<notin> set h" "CHR '']'' \<notin> set h"
    using plain_char_facts [OF hc] by blast+
  show "\<not> (\<exists>c \<in> set h. c \<in> set ''*%/?#@'')" using plain_char_facts(9) [OF hc] by blast
qed

lemma origin_netloc:
  "plain_host h \<Longrightarrow> origin_text scheme h port = scheme @ ''://'' @ h @ port_suffix scheme port"
  using plain_host_chars(3) by (simp add: origin_text_def port_suffix_def Let_def)

definition netloc_ok :: "char \<Rightarrow> bool" where
  "netloc_ok c \<longleftrightarrow> netloc_char c \<and> c \<noteq> CHR ''@'' \<and> c \<noteq> CHR ''['' \<and> c \<noteq> CHR '']'' \<and> 32 \<le> (of_char c :: nat)
     \<and> c \<noteq> CHR 0x5C"

lemma netloc_chars:
  assumes "plain_host h" and "c \<in> set (h @ port_suffix scheme port)"
  shows "netloc_ok c"
proof -
  have "c \<in> set (port_suffix scheme port) \<Longrightarrow> c = CHR '':'' \<or> ascii_digit c"
    using nat_text_digits by (auto simp: port_suffix_def list_all_iff split: option.splits if_splits)
  then consider "plain_char c" | "c = CHR '':''" | "ascii_digit c"
    using assms by (auto simp: plain_host_def)
  then show ?thesis
  proof cases
    case 1 then show ?thesis using plain_char_facts [OF 1] unfolding netloc_ok_def by blast
  next
    case 2 then show ?thesis by (simp add: netloc_ok_def netloc_char_def)
  next
    case 3 then show ?thesis using digit_facts [OF 3] unfolding netloc_ok_def by blast
  qed
qed

lemma netloc_ends:
  assumes "plain_host h"
  shows "h @ port_suffix scheme port \<noteq> []" "\<not> py_isspace (last (h @ port_suffix scheme port))"
    "last (h @ port_suffix scheme port) \<noteq> CHR '':''"
proof -
  have h: "h \<noteq> []" "\<not> py_isspace (last h)" using assms by (auto simp: plain_host_def)
  then show "h @ port_suffix scheme port \<noteq> []" by simp
  have "ascii_digit (last (nat_text p))" "nat_text p \<noteq> []" for p
    using nat_text_digits [of p] by (simp_all add: list_all_iff)
  then have "port_suffix scheme port \<noteq> [] \<Longrightarrow> ascii_digit (last (port_suffix scheme port))"
    by (auto simp: port_suffix_def split: option.splits if_splits)
  moreover have "last h \<noteq> CHR '':''" using plain_host_chars(3) [OF assms] h(1) last_in_set by metis
  ultimately show "\<not> py_isspace (last (h @ port_suffix scheme port))" "last (h @ port_suffix scheme port) \<noteq> CHR '':''"
    using h digit_facts by (auto simp: last_append)
qed

lemma clean_url_id:
  assumes "s = [] \<or> \<not> c0_or_space (hd s)" and "\<forall>c \<in> set s. 32 \<le> (of_char c :: nat)"
  shows "clean_url s = s"
proof -
  have "dropWhile c0_or_space s = s" using assms(1) by (cases s) auto
  moreover have "\<forall>c \<in> set s. c \<noteq> CHR 0x09 \<and> c \<noteq> CHR 0x0A \<and> c \<noteq> CHR 0x0D"
  proof
    fix c assume "c \<in> set s"
    with assms(2) have "32 \<le> (of_char c :: nat)" by blast
    then show "c \<noteq> CHR 0x09 \<and> c \<noteq> CHR 0x0A \<and> c \<noteq> CHR 0x0D" by auto
  qed
  ultimately show ?thesis by (simp add: clean_url_def filter_id_conv)
qed

abbreviation origin_url :: "string \<Rightarrow> string \<Rightarrow> split_url" where
  "origin_url scheme net \<equiv> \<lparr>su_scheme = scheme, su_netloc = net, su_path = [], su_query = [], su_fragment = []\<rparr>"

lemma origin_chars:
  assumes "scheme \<in> {''http'', ''https''}" and "c \<in> set (scheme @ ''://'' @ net)"
  shows "32 \<le> (of_char c :: nat) \<and> c \<noteq> CHR 0x5C \<or> c \<in> set net"
proof -
  have "\<forall>c \<in> set ''http://''. 32 \<le> (of_char c :: nat) \<and> c \<noteq> CHR 0x5C"
      "\<forall>c \<in> set ''https://''. 32 \<le> (of_char c :: nat) \<and> c \<noteq> CHR 0x5C"
    by simp_all
  then show ?thesis using assms by auto
qed

lemma urlsplit_origin:
  assumes schemes: "scheme \<in> {''http'', ''https''}" and net: "\<forall>c \<in> set net. netloc_ok c"
  shows "urlsplit (scheme @ ''://'' @ net) = Inr (origin_url scheme net)"
proof -
  let ?r = "scheme @ ''://'' @ net"
  have "\<not> c0_or_space (hd ?r)" using schemes by (auto simp: c0_or_space_def)
  moreover have "\<forall>c \<in> set ?r. 32 \<le> (of_char c :: nat)"
    using origin_chars [OF schemes] net unfolding netloc_ok_def by blast
  ultimately have clean: "clean_url ?r = ?r" by (intro clean_url_id) simp_all
  have "partition_char (CHR '':'') (scheme @ CHR '':'' # ''//'' @ net) = (scheme, True, ''//'' @ net)"
    using schemes by (intro partition_char_found) auto
  then have sch: "split_scheme ?r = (scheme, ''//'' @ net)"
    using schemes by (auto simp: split_scheme_def scheme_char_def ascii_alpha_def py_lower_def lower_char_def)
  have take: "takeWhile netloc_char net = net" "dropWhile netloc_char net = []"
    using net by (simp_all add: takeWhile_eq_all_conv dropWhile_eq_Nil_conv netloc_ok_def)
  have no: "CHR ''['' \<notin> set net" "CHR '']'' \<notin> set net" using net by (auto simp: netloc_ok_def)
  show ?thesis unfolding urlsplit_def clean sch Let_def
    by (simp add: py_startswith_def take no partition_char_def)
qed

lemma origin_hostinfo:
  assumes "plain_host h"
  shows "hostinfo (origin_url scheme (h @ port_suffix scheme port)) =
    (h, if port_suffix scheme port = [] then None else Some (tl (port_suffix scheme port)))"
proof -
  let ?net = "h @ port_suffix scheme port"
  note h = plain_host_chars [OF assms]
  have noat: "CHR ''@'' \<notin> set ?net" "CHR ''['' \<notin> set ?net"
    using netloc_chars [OF assms, of _ scheme port] unfolding netloc_ok_def by blast+
  show ?thesis
  proof (cases "port_suffix scheme port = []")
    case True
    then show ?thesis using noat h by (simp add: hostinfo_def rpartition_char_absent partition_char_absent)
  next
    case False
    then obtain p where p: "port_suffix scheme port = CHR '':'' # nat_text p"
      by (auto simp: port_suffix_def split: option.splits if_splits)
    then have "partition_char (CHR '':'') ?net = (h, True, nat_text p)"
      using partition_char_found [OF h(3)] by simp
    then show ?thesis using noat p nat_text_digits [of p]
      by (simp add: hostinfo_def rpartition_char_absent partition_char_absent)
  qed
qed

text \<open>
  Normalizing is stable: the canonical text of a secure origin with a plain host name is
  accepted and returned unchanged, so a configuration can be rebuilt from its own origins.
\<close>

theorem canonical_origin_fixed:
  assumes host: "plain_host h" and port: "port = None \<or> (\<exists>p. port = Some p \<and> p \<le> 65535)"
    and scheme: "scheme = ''https'' \<or> (scheme = ''http'' \<and> h \<in> loopback)"
  shows "normalize_origin (origin_text scheme h port) = Inr (origin_text scheme h port)"
proof -
  let ?sfx = "port_suffix scheme port" let ?net = "h @ ?sfx" let ?r = "scheme @ ''://'' @ ?net"
  let ?port = "case port of None \<Rightarrow> None | Some p \<Rightarrow> if p = default_port scheme then None else Some p"
  note h = plain_host_chars [OF host] and ends = netloc_ends [OF host, of scheme port]
    and canon = origin_netloc [OF host, of scheme]
  define u where "u = origin_url scheme ?net"
  have fields: "su_scheme u = scheme" "su_path u = []" "su_query u = []" "su_fragment u = []" "su_netloc u = ?net"
    by (simp_all add: u_def)
  note info = origin_hostinfo [OF host, of scheme port, folded u_def]
  have schemes: "scheme \<in> {''http'', ''https''}" using scheme by auto
  have net: "\<forall>c \<in> set ?net. netloc_ok c" using netloc_chars [OF host] by blast
  have strip: "py_strip ?r = ?r" "?r \<noteq> []"
    using schemes ends by (auto intro!: py_strip_ends simp: py_isspace_def [of "CHR ''h''"])
  have low: "\<not> ((\<exists>c \<in> set ?r. (of_char c :: nat) < 32) \<or> CHR 0x5C \<in> set ?r)"
    using origin_chars [OF schemes] net unfolding netloc_ok_def linorder_not_le [symmetric] by blast
  have "CHR ''@'' \<notin> set ?net" using net unfolding netloc_ok_def by blast
  then have user: "username u = None" "password u = None"
    by (simp_all add: username_def password_def userinfo_def fields rpartition_char_absent)
  have hostu: "hostname u = Some h" using h by (simp add: hostname_def info partition_char_absent)
  have portu: "url_port u = Inr ?port"
    using port nat_text_digits by (auto simp: url_port_def info port_suffix_def split: option.splits)
  have same: "port_suffix scheme ?port = ?sfx"
    by (auto simp: port_suffix_def split: option.split)
  have lower: "py_lower scheme = scheme" using schemes by (auto simp: py_lower_def lower_char_def)
  show ?thesis
    unfolding canon normalize_origin_def strip(1) if_not_P [OF low] urlsplit_origin [OF schemes net, folded u_def]
      res_bind_simps Let_def fields lower portu sum.case user hostu option.sel h(2) same if_not_P [OF h(8)]
    using strip(2) schemes scheme ends h(1) by auto
qed

lemma canonical_origin_fixed_witness:
  "normalize_origin ''https://example.com:8443'' = Inr ''https://example.com:8443''"
proof -
  have "origin_text ''https'' ''example.com'' (Some 8443) = ''https://example.com:8443''"
    by (simp add: origin_text_def default_port_def nat_text.simps char_of_def bit_Suc_0_iff)
  then show ?thesis
    using canonical_origin_fixed [of "''example.com''" "Some 8443" "''https''"]
    by (simp add: plain_host_def plain_char_def py_lower_def lower_char_def py_isspace_def)
qed

end
