(* ===== verification/SqliteConn.thy ===== *)
theory SqliteConn
  imports Prelude
begin

section \<open>The SQLite connection discipline (\<open>_SQLiteBase\<close> in \<open>passkey_sqlite.py\<close>)\<close>

text \<open>
  Every SQLite store runs its statements inside the context manager \<open>_connection\<close>: in
  \<open>operation\<close> mode it opens and commits a transaction of its own, in \<open>external\<close> mode it runs
  inside the caller's transaction under a savepoint. A connection is the committed database,
  the database as the connection sees it, whether a transaction is open, and the
  \<open>foreign_keys\<close> pragma; the database is a parameter \<open>'db\<close>. The statements of one block are
  a state passing operation on it. SQLite serialises writers with its own locks, so a block
  that runs is one step; waiting for a lock (and its time-out) is not modelled.
\<close>

datatype tx_mode = Operation | External

record 'db conn =
  committed :: 'db
  current :: 'db
  in_tx :: bool
  fk_on :: bool

abbreviation no_tx :: "exn" where
  "no_tx \<equiv> RuntimeError ''external transaction mode requires an active caller transaction''"

abbreviation no_fk :: "exn" where
  "no_fk \<equiv> RuntimeError ''external transaction mode requires PRAGMA foreign_keys=ON''"

text \<open>The statements BEGIN, COMMIT and ROLLBACK of a connection.\<close>

definition conn_begin :: "('db conn, unit) op" where
  "conn_begin c =
     (if in_tx c
      then (Inl (OperationalError ''cannot start a transaction within a transaction''), c)
      else (Inr (), c\<lparr>in_tx := True\<rparr>))"

definition conn_commit :: "'db conn \<Rightarrow> 'db conn" where
  "conn_commit c = c\<lparr>committed := current c, in_tx := False\<rparr>"

definition conn_rollback :: "'db conn \<Rightarrow> 'db conn" where
  "conn_rollback c = (if in_tx c then c\<lparr>current := committed c, in_tx := False\<rparr> else c)"

text \<open>
  \<open>_connection(mutation)\<close> around a block. Without \<open>mutation\<close> the block only reads. In external
  mode an exception rolls back to the savepoint and releases it; in operation mode any
  exception, that of BEGIN included, calls \<open>conn.rollback()\<close>.
\<close>

definition connection :: "tx_mode \<Rightarrow> bool \<Rightarrow> ('db, 'a) op \<Rightarrow> ('db conn, 'a) op" where
  "connection mode mutation body c =
     (if \<not> mutation then (fst (body (current c)), c)
      else case mode of
        External \<Rightarrow>
          (if \<not> in_tx c then (Inl no_tx, c)
           else if \<not> fk_on c then (Inl no_fk, c)
           else (case body (current c) of
               (Inr a, db) \<Rightarrow> (Inr a, c\<lparr>current := db\<rparr>)
             | (Inl e, _) \<Rightarrow> (Inl e, c)))
      | Operation \<Rightarrow>
          (case conn_begin c of
             (Inl e, c') \<Rightarrow> (Inl e, conn_rollback c')
           | (Inr _, c') \<Rightarrow>
               (case body (current c') of
                  (Inr a, db) \<Rightarrow> (Inr a, conn_commit (c'\<lparr>current := db\<rparr>))
                | (Inl e, db) \<Rightarrow> (Inl e, conn_rollback (c'\<lparr>current := db\<rparr>)))))"

text \<open>
  A store on a path opens a connection for each call, sets its pragmas and closes it: what
  remains is the committed database.
\<close>

definition fresh_conn :: "'db \<Rightarrow> 'db conn" where
  "fresh_conn db = \<lparr>committed = db, current = db, in_tx = False, fk_on = True\<rparr>"

definition path_call :: "bool \<Rightarrow> ('db, 'a) op \<Rightarrow> ('db, 'a) op" where
  "path_call mutation body db =
     map_prod id committed (connection Operation mutation body (fresh_conn db))"

text \<open>
  \<open>_SQLiteBase.__init__\<close>: the mode, the kind of database and the schema are checked before a
  store exists. The schema inspection is a parameter: its state and its diagnostics.
\<close>

datatype 'db database = PathDb string 'db | ConnDb "'db conn"

record 'db sqlite_store =
  ss_mode :: tx_mode
  ss_database :: "'db database"

fun parse_mode :: "string \<Rightarrow> tx_mode option" where
  "parse_mode m = (if m = ''operation'' then Some Operation
     else if m = ''external'' then Some External else None)"

definition checked_db :: "'db database \<Rightarrow> 'db" where
  "checked_db d = (case d of PathDb _ db \<Rightarrow> db | ConnDb c \<Rightarrow> current c)"

definition schema_detail :: "string \<Rightarrow> string list \<Rightarrow> string" where
  "schema_detail state diagnostics =
     (let detail = py_join ''; '' diagnostics
      in if state = ''legacy'' then ''legacy schema requires migration''
         else if detail = [] then ''schema state is '' @ state else detail)"

definition sqlite_base_init ::
  "('db \<Rightarrow> string \<times> string list) \<Rightarrow> 'db database \<Rightarrow> string \<Rightarrow> 'db sqlite_store result" where
  "sqlite_base_init inspect database mode_text =
     (case parse_mode mode_text of
        None \<Rightarrow> Inl (ValueError ''invalid transaction_mode'')
      | Some mode \<Rightarrow>
          (let external = (case database of ConnDb c \<Rightarrow> Some c | PathDb _ _ \<Rightarrow> None)
           in if (case database of PathDb p _ \<Rightarrow> p = '':memory:'' | ConnDb _ \<Rightarrow> False)
              then Inl (ValueError ''path-mode :memory: is unsupported; provide a connection'')
              else if mode = External \<and> external = None
              then Inl (RuntimeError ''external transaction mode requires a caller-owned sqlite connection'')
              else if mode = External \<and> (case external of Some c \<Rightarrow> \<not> in_tx c | None \<Rightarrow> False)
              then Inl no_tx
              else if mode = External \<and> (case external of Some c \<Rightarrow> \<not> fk_on c | None \<Rightarrow> False)
              then Inl no_fk
              else (case inspect (checked_db database) of (state, diagnostics) \<Rightarrow>
                if state = ''current'' then Inr \<lparr>ss_mode = mode, ss_database = database\<rparr>
                else Inl (RuntimeError (''my-auth schema is not current: '' @ schema_detail state diagnostics)))))"

subsection \<open>Atomicity\<close>

text \<open>On a path a call is all or nothing.\<close>

lemma path_call_mutation [store_simps]:
  "path_call True body db =
     (case body db of (Inr a, db') \<Rightarrow> (Inr a, db') | (Inl e, _) \<Rightarrow> (Inl e, db))"
  by (simp add: path_call_def connection_def fresh_conn_def conn_begin_def conn_commit_def
      conn_rollback_def split: prod.split sum.split)

lemma path_call_read [store_simps]: "path_call False body db = (fst (body db), db)"
  by (simp add: path_call_def connection_def fresh_conn_def)

lemma path_call_Inr: "path_call True body db = (Inr a, db') \<longleftrightarrow> body db = (Inr a, db')"
  by (auto simp: path_call_mutation split: prod.split sum.split)

lemma path_call_Inl: "path_call True body db = (Inl e, db') \<longleftrightarrow> fst (body db) = Inl e \<and> db' = db"
  by (auto simp: path_call_mutation split: prod.split sum.split)

lemma snd_path_call:
  "snd (path_call True body db) = (if is_ok (fst (body db)) then snd (body db) else db)"
  by (auto simp: path_call_mutation split: prod.split sum.split)

lemma fst_path_call [simp]: "fst (path_call m body db) = fst (body db)"
  by (cases m) (auto simp: path_call_mutation path_call_read split: prod.split sum.split)

lemma path_call_inv:
  assumes "P db" and "\<And>a db'. body db = (Inr a, db') \<Longrightarrow> P db'"
  shows "P (snd (path_call m body db))"
  using assms
  by (cases m; cases "body db"; cases "fst (body db)") (auto simp: path_call_mutation path_call_read)

text \<open>
  C14: a mutating block never leaves a part of its writes behind. In external mode the caller's
  transaction stays open and, on an exception, unchanged; what is committed does not change. In
  operation mode a connection without a transaction has none afterwards, and what it has
  committed is the block's result on success and the old database on an exception.
\<close>

theorem connection_atomic:
  assumes "connection mode True body c = (r, c')"
    and "mode = Operation \<longrightarrow> \<not> in_tx c \<and> current c = committed c"
  shows "(case mode of
            External \<Rightarrow> committed c' = committed c \<and> in_tx c' = in_tx c
              \<and> current c' = (if is_ok r then snd (body (current c)) else current c)
          | Operation \<Rightarrow> \<not> in_tx c' \<and> current c' = committed c'
              \<and> committed c' = (if is_ok r then snd (body (committed c)) else committed c))"
  using assms
  by (auto simp: connection_def conn_begin_def conn_commit_def conn_rollback_def
      split: tx_mode.splits if_splits prod.splits sum.splits)

lemma connection_atomic_witness:
  "let c = \<lparr>committed = (5::int), current = 7, in_tx = True, fk_on = True\<rparr>;
       body = (\<lambda>db. (Inl (IntegrityError ''x'') :: unit result, db + 1))
   in connection External True body c = (Inl (IntegrityError ''x''), c) \<and> current c = 7"
proof -
  let ?c = "\<lparr>committed = (5::int), current = 7, in_tx = True, fk_on = True\<rparr>"
  let ?body = "\<lambda>db. (Inl (IntegrityError ''x'') :: unit result, db + (1::int))"
  have run: "connection External True ?body ?c = (Inl (IntegrityError ''x''), ?c)"
    by (simp add: connection_def)
  show ?thesis using run connection_atomic [OF run] unfolding Let_def by simp
qed

text \<open>
  C17: in operation mode on a caller's connection that is inside a transaction, a mutating call
  fails at BEGIN and its error path rolls the caller's own transaction back: the caller's
  uncommitted writes are gone and the transaction is closed.
\<close>

theorem operation_mode_discards_caller_transaction:
  assumes "in_tx c"
  shows "connection Operation True body c =
    (Inl (OperationalError ''cannot start a transaction within a transaction''),
     c\<lparr>current := committed c, in_tx := False\<rparr>)"
  using assms by (simp add: connection_def conn_begin_def conn_rollback_def)

lemma operation_mode_discards_caller_transaction_witness:
  "let c = \<lparr>committed = (5::int), current = 7, in_tx = True, fk_on = True\<rparr>
   in current (snd (connection Operation True (\<lambda>db. (Inr (), db + 1)) c)) = 5"
  unfolding Let_def by (subst operation_mode_discards_caller_transaction) simp_all

text \<open>A store object only exists over a current schema, and in external mode only on a
  caller's connection with an open transaction and foreign keys on.\<close>

theorem sqlite_base_init_checks:
  assumes "sqlite_base_init inspect database mode_text = Inr st"
  shows "fst (inspect (checked_db database)) = ''current'' \<and> ss_database st = database
    \<and> parse_mode mode_text = Some (ss_mode st)
    \<and> (ss_mode st = External \<longrightarrow> (\<exists>c. database = ConnDb c \<and> in_tx c \<and> fk_on c))
    \<and> (\<forall>db. database \<noteq> PathDb '':memory:'' db)"
  using assms
  by (auto simp: sqlite_base_init_def Let_def split: option.splits if_split_asm database.splits
      prod.splits simp del: parse_mode.simps)

lemma sqlite_base_init_checks_witness:
  "\<exists>st. sqlite_base_init (\<lambda>_. (''current'', [])) (PathDb ''auth.db'' (0::int)) ''operation'' = Inr st
     \<and> ss_mode st = Operation"
proof -
  let ?st = "\<lparr>ss_mode = Operation, ss_database = PathDb ''auth.db'' (0::int)\<rparr>"
  have made: "sqlite_base_init (\<lambda>_. (''current'', [])) (PathDb ''auth.db'' (0::int)) ''operation'' = Inr ?st"
    by (simp add: sqlite_base_init_def)
  show ?thesis using made sqlite_base_init_checks [OF made] by auto
qed

end
