(* ===== verification/ChallengeStores.thy ===== *)
theory ChallengeStores
  imports PasskeyModels SqliteConn
begin

section \<open>Challenge stores (\<open>passkey_memory.py\<close>, \<open>passkey_sqlite.py\<close>)\<close>

text \<open>
  The two implementations of the \<open>ChallengeStore\<close> protocol: a dictionary keyed by flow key and
  kind, and the table \<open>passkey_challenges\<close>. The clock's value is an argument of each
  operation. The interface is the locale \<open>challenge_store\<close>: what \<open>pop\<close> returns is told by the
  observer \<open>live\<close>, the challenge still valid at an instant, and the client's lemmas (a run of
  calls behaves as on a plain map, each saved challenge is popped at most once) are proved in
  it once and interpreted on both stores.
\<close>

subsection \<open>\<open>MemoryChallengeStore\<close>\<close>

type_synonym challenge_dict = "(string \<times> challenge_kind, challenge_record) dict"

abbreviation challenge_missing :: "challenge_kind \<Rightarrow> exn" where
  "challenge_missing kind \<equiv>
     ChallengeNotFound (''missing or expired '' @ challenge_kind_text kind @ '' challenge'')"

definition mem_save_challenge ::
  "datetime \<Rightarrow> string \<Rightarrow> challenge_kind \<Rightarrow> bytes \<Rightarrow> int \<Rightarrow> passkey_user option
   \<Rightarrow> registration_context option \<Rightarrow> (challenge_dict, challenge_record) op" where
  "mem_save_challenge now key kind challenge ttl user ctx d =
     (case challenge_record_for now key kind challenge ttl user ctx of
        Inl e \<Rightarrow> (Inl e, d)
      | Inr r \<Rightarrow> (Inr r, AList.update (key, kind) r d))"

definition mem_pop_challenge ::
  "datetime \<Rightarrow> string \<Rightarrow> challenge_kind \<Rightarrow> (challenge_dict, challenge_record) op" where
  "mem_pop_challenge now key kind d =
     (let d' = AList.delete (key, kind) d in
      case map_of d (key, kind) of
        None \<Rightarrow> (Inl (challenge_missing kind), d')
      | Some r \<Rightarrow> (if ch_expires_at r \<le> now then (Inl (challenge_missing kind), d') else (Inr r, d')))"

definition mem_cleanup_challenges :: "datetime \<Rightarrow> (challenge_dict, nat) op" where
  "mem_cleanup_challenges now d =
     (Inr (length (filter (\<lambda>(k, r). ch_expires_at r \<le> now) d)),
      filter (\<lambda>(k, r). \<not> ch_expires_at r \<le> now) d)"

definition mem_live :: "challenge_dict \<Rightarrow> datetime \<Rightarrow> string \<Rightarrow> challenge_kind \<Rightarrow> challenge_record option" where
  "mem_live d t key kind =
     (case map_of d (key, kind) of
        None \<Rightarrow> None | Some r \<Rightarrow> if t < ch_expires_at r then Some r else None)"

subsection \<open>\<open>SQLiteChallengeStore\<close>\<close>

text \<open>A row of \<open>passkey_challenges\<close>; the literals of the two kinds are kept as their datatypes.\<close>

record challenge_row =
  chr_key :: string
  chr_kind :: challenge_kind
  chr_challenge :: bytes
  chr_expires_at :: string
  chr_user_id :: "string option"
  chr_user_handle :: "string option"
  chr_user_name :: "string option"
  chr_user_display_name :: "string option"
  chr_registration_kind :: "registration_kind option"
  chr_capability_id :: "string option"

definition sqlite_challenge_values :: "challenge_record \<Rightarrow> challenge_row" where
  "sqlite_challenge_values r =
     \<lparr>chr_key = ch_key r, chr_kind = ch_kind r, chr_challenge = ch_challenge r,
      chr_expires_at = isoformat (ch_expires_at r),
      chr_user_id = map_option pu_user_id (ch_user r),
      chr_user_handle = map_option (\<lambda>u. bytes_to_b64url (pu_user_handle u)) (ch_user r),
      chr_user_name = map_option pu_name (ch_user r),
      chr_user_display_name = Option.bind (ch_user r) pu_display_name,
      chr_registration_kind = ch_registration_kind r, chr_capability_id = ch_capability_id r\<rparr>"

text \<open>
  \<open>_sqlite_challenge\<close>: the columns of a user are read when \<open>user_id\<close> is not NULL. A NULL handle in
  such a row makes the decoder raise, and a NULL name, which the record can not hold, is an error of
  the model; no code here writes either.
\<close>

definition sqlite_challenge :: "challenge_row \<Rightarrow> challenge_record result" where
  "sqlite_challenge w =
     (let user =
        (case chr_user_id w of
           None \<Rightarrow> Inr None
         | Some uid \<Rightarrow>
             (case (chr_user_handle w, chr_user_name w) of
                (Some h, Some n) \<Rightarrow>
                  map_sum id (\<lambda>hb. Some \<lparr>pu_user_id = uid, pu_user_handle = hb, pu_name = n,
                    pu_display_name = chr_user_display_name w\<rparr>) (b64url_to_bytes h)
              | _ \<Rightarrow> Inl (TypeError ''NULL user column'')))
      in case user of
           Inl e \<Rightarrow> Inl e
         | Inr u \<Rightarrow>
             map_sum id (\<lambda>t. \<lparr>ch_challenge = chr_challenge w, ch_kind = chr_kind w, ch_key = chr_key w,
               ch_expires_at = t, ch_user = u, ch_registration_kind = chr_registration_kind w,
               ch_capability_id = chr_capability_id w\<rparr>) (fromisoformat (chr_expires_at w)))"

type_synonym challenge_table = "challenge_row list"

definition row_key :: "challenge_row \<Rightarrow> string \<times> challenge_kind" where
  "row_key w = (chr_key w, chr_kind w)"

text \<open>\<open>INSERT ... ON CONFLICT(key,kind) DO UPDATE\<close>: the row of that key is overwritten.\<close>

fun upsert_challenge :: "challenge_row \<Rightarrow> challenge_table \<Rightarrow> challenge_table" where
  "upsert_challenge w [] = [w]"
| "upsert_challenge w (v # vs) =
     (if row_key v = row_key w then w # vs else v # upsert_challenge w vs)"

definition sql_save_challenge ::
  "datetime \<Rightarrow> string \<Rightarrow> challenge_kind \<Rightarrow> bytes \<Rightarrow> int \<Rightarrow> passkey_user option
   \<Rightarrow> registration_context option \<Rightarrow> (challenge_table, challenge_record) op" where
  "sql_save_challenge now key kind challenge ttl user ctx tbl =
     (case challenge_record_for now key kind challenge ttl user ctx of
        Inl e \<Rightarrow> (Inl e, tbl)
      | Inr r \<Rightarrow>
          path_call True (\<lambda>tb. (Inr r, upsert_challenge (sqlite_challenge_values r) tb)) tbl)"

text \<open>\<open>DELETE ... WHERE key=? AND kind=? AND expires_at>? RETURNING\<close>, then the decoder.\<close>

definition pop_row :: "string \<Rightarrow> string \<times> challenge_kind \<Rightarrow> challenge_row \<Rightarrow> bool" where
  "pop_row now_text k w \<longleftrightarrow> row_key w = k \<and> now_text < chr_expires_at w"

definition sql_pop_challenge ::
  "datetime \<Rightarrow> string \<Rightarrow> challenge_kind \<Rightarrow> (challenge_table, challenge_record) op" where
  "sql_pop_challenge now key kind =
     path_call True (\<lambda>tbl.
       (case filter (pop_row (isoformat now) (key, kind)) tbl of
          [] \<Rightarrow> (Inl (challenge_missing kind), tbl)
        | w # _ \<Rightarrow>
            (sqlite_challenge w, filter (\<lambda>v. \<not> pop_row (isoformat now) (key, kind) v) tbl)))"

definition sql_cleanup_challenges :: "datetime \<Rightarrow> (challenge_table, nat) op" where
  "sql_cleanup_challenges now =
     path_call True (\<lambda>tbl.
       (Inr (length (filter (\<lambda>w. chr_expires_at w \<le> isoformat now) tbl)),
        filter (\<lambda>w. \<not> chr_expires_at w \<le> isoformat now) tbl))"

definition sql_live :: "challenge_table \<Rightarrow> datetime \<Rightarrow> string \<Rightarrow> challenge_kind \<Rightarrow> challenge_record option" where
  "sql_live tbl t key kind =
     (case filter (\<lambda>w. row_key w = (key, kind)) tbl of
        [] \<Rightarrow> None
      | w # _ \<Rightarrow>
          (case sqlite_challenge w of
             Inl _ \<Rightarrow> None
           | Inr r \<Rightarrow> if t < ch_expires_at r then Some r else None))"

text \<open>Only what \<open>save\<close> writes is in the table, one row per key.\<close>

definition challenge_table_ok :: "challenge_table \<Rightarrow> bool" where
  "challenge_table_ok tbl \<longleftrightarrow>
     distinct (map row_key tbl)
     \<and> (\<forall>w \<in> set tbl. \<exists>r. valid_datetime (ch_expires_at r) \<and> w = sqlite_challenge_values r)"

subsection \<open>Calls, runs and the abstract store\<close>

datatype challenge_call =
    SaveCall string challenge_kind bytes int "passkey_user option" "registration_context option"
  | PopCall string challenge_kind
  | CleanupCall

type_synonym challenge_reply = "challenge_record option result"

text \<open>The specification: a plain map, one challenge per key, a pop removes it.\<close>

type_synonym challenge_spec = "string \<times> challenge_kind \<Rightarrow> challenge_record option"

fun spec_call :: "datetime \<Rightarrow> challenge_call \<Rightarrow> challenge_spec \<Rightarrow> challenge_reply \<times> challenge_spec" where
  "spec_call now (SaveCall key kind challenge ttl user ctx) m =
     (case challenge_record_for now key kind challenge ttl user ctx of
        Inl e \<Rightarrow> (Inl e, m)
      | Inr r \<Rightarrow> (Inr (Some r), m((key, kind) \<mapsto> r)))"
| "spec_call now (PopCall key kind) m =
     ((case m (key, kind) of
         None \<Rightarrow> Inl (challenge_missing kind)
       | Some r \<Rightarrow> if now < ch_expires_at r then Inr (Some r) else Inl (challenge_missing kind)),
      m((key, kind) := None))"
| "spec_call now CleanupCall m = (Inr None, m)"

fun run_calls :: "(datetime \<Rightarrow> challenge_call \<Rightarrow> 's \<Rightarrow> challenge_reply \<times> 's)
    \<Rightarrow> (datetime \<times> challenge_call) list \<Rightarrow> 's \<Rightarrow> challenge_reply list \<times> 's" where
  "run_calls f [] s = ([], s)"
| "run_calls f ((now, c) # cs) s =
     (case f now c s of (r, s') \<Rightarrow> case run_calls f cs s' of (rs, s'') \<Rightarrow> (r # rs, s''))"

text \<open>The clock does not run backwards and stays in the years of \<open>datetime\<close>.\<close>

definition clock_ok :: "(datetime \<times> challenge_call) list \<Rightarrow> bool" where
  "clock_ok cs \<longleftrightarrow> sorted (map fst cs) \<and> (\<forall>(t, c) \<in> set cs. valid_datetime t)"

fun saves_of :: "string \<times> challenge_kind \<Rightarrow> (datetime \<times> challenge_call) \<times> challenge_reply \<Rightarrow> bool" where
  "saves_of k ((_, SaveCall key kind _ _ _ _), Inr _) = (k = (key, kind))"
| "saves_of k _ = False"

fun pops_of :: "string \<times> challenge_kind \<Rightarrow> (datetime \<times> challenge_call) \<times> challenge_reply \<Rightarrow> bool" where
  "pops_of k ((_, PopCall key kind), Inr _) = (k = (key, kind))"
| "pops_of k _ = False"

lemma clock_ok_Cons: "clock_ok ((t, c) # cs) \<longleftrightarrow>
    valid_datetime t \<and> (\<forall>x \<in> set cs. t \<le> fst x) \<and> clock_ok cs"
  by (auto simp: clock_ok_def)

lemma run_calls_Cons [simp]:
  "fst (run_calls f ((t, c) # cs) s) = fst (f t c s) # fst (run_calls f cs (snd (f t c s)))"
  by (simp add: case_prod_beta)

declare run_calls.simps(2) [simp del]

text \<open>On the map each successful pop uses up a successful save.\<close>

lemma spec_pops_le_saves:
  "length (filter (pops_of k) (zip cs (fst (run_calls spec_call cs m))))
     \<le> length (filter (saves_of k) (zip cs (fst (run_calls spec_call cs m)))) + (if m k = None then 0 else 1)"
proof (induction cs arbitrary: m)
  case Nil
  then show ?case by simp
next
  case (Cons tc cs)
  obtain t c where tc: "tc = (t, c)" by force
  obtain r m' where step: "spec_call t c m = (r, m')" by force
  let ?n = "\<lambda>f. length (filter (f k) (zip cs (fst (run_calls spec_call cs m'))))"
  have IH: "?n pops_of \<le> ?n saves_of + (if m' k = None then 0 else 1)" by (rule Cons.IH)
  have head: "(if pops_of k ((t, c), r) then 1 else 0) + (if m' k = None then 0 else 1)
      \<le> (if saves_of k ((t, c), r) then 1 else 0) + (if m k = None then 0 else (1 :: nat))"
    using step by (cases c) (auto split: sum.splits option.splits if_splits)
  show ?case
    using IH head by (auto simp: tc step split: if_split_asm)
qed

subsection \<open>The interface\<close>

locale challenge_store =
  fixes save :: "datetime \<Rightarrow> string \<Rightarrow> challenge_kind \<Rightarrow> bytes \<Rightarrow> int \<Rightarrow> passkey_user option
      \<Rightarrow> registration_context option \<Rightarrow> ('s, challenge_record) op"
    and pop :: "datetime \<Rightarrow> string \<Rightarrow> challenge_kind \<Rightarrow> ('s, challenge_record) op"
    and cleanup :: "datetime \<Rightarrow> ('s, nat) op"
    and live :: "'s \<Rightarrow> datetime \<Rightarrow> string \<Rightarrow> challenge_kind \<Rightarrow> challenge_record option"
    and inv :: "'s \<Rightarrow> bool"
  assumes save_inv: "inv s \<Longrightarrow> inv (snd (save now key kind c ttl u ctx s))"
    and pop_inv: "inv s \<Longrightarrow> inv (snd (pop now key kind s))"
    and cleanup_inv: "inv s \<Longrightarrow> inv (snd (cleanup now s))"
    and live_expires: "live s t key kind = Some r \<Longrightarrow> t < ch_expires_at r"
    and save_result: "inv s \<Longrightarrow>
      fst (save now key kind c ttl u ctx s) = challenge_record_for now key kind c ttl u ctx"
    and save_error: "challenge_record_for now key kind c ttl u ctx = Inl e \<Longrightarrow>
      snd (save now key kind c ttl u ctx s) = s"
    and save_live: "inv s \<Longrightarrow> challenge_record_for now key kind c ttl u ctx = Inr r \<Longrightarrow>
      live (snd (save now key kind c ttl u ctx s)) t key' kind' =
        (if (key', kind') = (key, kind) then (if t < ch_expires_at r then Some r else None)
         else live s t key' kind')"
    and pop_result: "inv s \<Longrightarrow> valid_datetime now \<Longrightarrow>
      fst (pop now key kind s) =
        (case live s now key kind of None \<Rightarrow> Inl (challenge_missing kind) | Some r \<Rightarrow> Inr r)"
    and pop_live: "inv s \<Longrightarrow> valid_datetime now \<Longrightarrow> now \<le> t \<Longrightarrow>
      live (snd (pop now key kind s)) t key' kind' =
        (if (key', kind') = (key, kind) then None else live s t key' kind')"
    and cleanup_ok: "is_ok (fst (cleanup now s))"
    and cleanup_live: "inv s \<Longrightarrow> valid_datetime now \<Longrightarrow> now \<le> t \<Longrightarrow>
      live (snd (cleanup now s)) t key kind = live s t key kind"
begin

fun store_call :: "datetime \<Rightarrow> challenge_call \<Rightarrow> 's \<Rightarrow> challenge_reply \<times> 's" where
  "store_call now (SaveCall key kind c ttl u ctx) s =
     map_prod (map_sum id Some) id (save now key kind c ttl u ctx s)"
| "store_call now (PopCall key kind) s = map_prod (map_sum id Some) id (pop now key kind s)"
| "store_call now CleanupCall s = map_prod (map_sum id (\<lambda>_. None)) id (cleanup now s)"

text \<open>From \<open>now\<close> on the store and the map show the same challenges.\<close>

definition agrees :: "datetime \<Rightarrow> challenge_spec \<Rightarrow> 's \<Rightarrow> bool" where
  "agrees now m s \<longleftrightarrow> inv s \<and> (\<forall>t key kind. now \<le> t \<longrightarrow>
     live s t key kind =
       (case m (key, kind) of None \<Rightarrow> None | Some r \<Rightarrow> if t < ch_expires_at r then Some r else None))"

lemma agrees_later: "agrees now m s \<Longrightarrow> now \<le> now' \<Longrightarrow> agrees now' m s"
  by (auto simp: agrees_def)

lemma pop_after_pop:
  "inv s \<Longrightarrow> valid_datetime now \<Longrightarrow> now \<le> now' \<Longrightarrow> valid_datetime now' \<Longrightarrow>
   fst (pop now' key kind (snd (pop now key kind s))) = Inl (challenge_missing kind)"
  by (simp add: pop_result pop_inv pop_live)

lemma call_refines:
  assumes "agrees now m s" and "valid_datetime now"
  shows "fst (store_call now c s) = fst (spec_call now c m)
    \<and> agrees now (snd (spec_call now c m)) (snd (store_call now c s))"
proof -
  from assms have inv: "inv s" and
    live: "\<And>t key kind. now \<le> t \<Longrightarrow> live s t key kind =
       (case m (key, kind) of None \<Rightarrow> None | Some r \<Rightarrow> if t < ch_expires_at r then Some r else None)"
    by (auto simp: agrees_def)
  show ?thesis
  proof (cases c)
    case (SaveCall key kind ch ttl u ctx)
    show ?thesis
    proof (cases "challenge_record_for now key kind ch ttl u ctx")
      case (Inl e)
      with assms SaveCall show ?thesis
        by (simp add: save_result [OF inv] save_error)
    next
      case (Inr r)
      with inv live SaveCall show ?thesis
        by (auto simp: save_result agrees_def save_inv save_live [OF inv Inr])
    qed
  next
    case (PopCall key kind)
    with inv live assms(2) show ?thesis
      by (auto simp: pop_result agrees_def pop_inv pop_live split: option.split)
  next
    case CleanupCall
    have "fst (store_call now CleanupCall s) = Inr None"
      using cleanup_ok [of now s] by (cases "cleanup now s"; cases "fst (cleanup now s)") auto
    with inv live assms(2) CleanupCall show ?thesis
      by (simp add: agrees_def cleanup_inv cleanup_live)
  qed
qed

lemma run_refines:
  "agrees now m s \<Longrightarrow> clock_ok cs \<Longrightarrow> \<forall>x \<in> set cs. now \<le> fst x \<Longrightarrow>
   fst (run_calls store_call cs s) = fst (run_calls spec_call cs m)"
proof (induction cs arbitrary: now m s)
  case Nil
  then show ?case by simp
next
  case (Cons tc cs)
  obtain t c where tc: "tc = (t, c)" by force
  from Cons.prems have t: "valid_datetime t" "now \<le> t" "clock_ok cs" "\<forall>x \<in> set cs. t \<le> fst x"
    by (auto simp: tc clock_ok_Cons)
  note step = call_refines [OF agrees_later [OF Cons.prems(1) t(2)] t(1), of c]
  have "fst (run_calls store_call cs (snd (store_call t c s))) =
      fst (run_calls spec_call cs (snd (spec_call t c m)))"
    using Cons.IH step t(3,4) by blast
  with step show ?case by (simp add: tc)
qed

end

subsection \<open>The memory store implements the interface\<close>

interpretation mem: challenge_store mem_save_challenge mem_pop_challenge mem_cleanup_challenges
  mem_live dict_ok
proof (unfold_locales, goal_cases)
  case (11 s now t key kind)
  then show ?case
    by (auto simp: mem_live_def mem_cleanup_challenges_def map_of_filter_item split: option.splits)
qed (auto simp: mem_save_challenge_def mem_pop_challenge_def mem_cleanup_challenges_def mem_live_def
    Let_def dict_simps split: sum.splits option.splits if_splits)

subsection \<open>The table implements the interface\<close>

lemma sqlite_challenge_values [simp]:
  "valid_datetime (ch_expires_at r) \<Longrightarrow> sqlite_challenge (sqlite_challenge_values r) = Inr r"
  by (cases "ch_user r") (auto simp: sqlite_challenge_def sqlite_challenge_values_def fromisoformat_text)

lemma row_key_values [simp]: "row_key (sqlite_challenge_values r) = (ch_key r, ch_kind r)"
  by (simp add: row_key_def sqlite_challenge_values_def)

lemma set_upsert_challenge:
  "distinct (map row_key tbl) \<Longrightarrow>
   x \<in> set (upsert_challenge w tbl) \<longleftrightarrow> x = w \<or> (x \<in> set tbl \<and> row_key x \<noteq> row_key w)"
  by (induction tbl) (auto simp: image_iff)

lemma keys_upsert_challenge:
  "row_key ` set (upsert_challenge w tbl) = insert (row_key w) (row_key ` set tbl)"
  by (induction tbl) auto

lemma distinct_upsert_challenge:
  "distinct (map row_key tbl) \<Longrightarrow> distinct (map row_key (upsert_challenge w tbl))"
  by (induction tbl) (auto simp: keys_upsert_challenge)

text \<open>The row of a key, as a lookup in the table.\<close>

definition row_of :: "challenge_table \<Rightarrow> string \<times> challenge_kind \<Rightarrow> challenge_row option" where
  "row_of tbl k = map_of (map (\<lambda>w. (row_key w, w)) tbl) k"

lemma row_of_Some: "distinct (map row_key tbl) \<Longrightarrow> row_of tbl k = Some w \<longleftrightarrow> w \<in> set tbl \<and> row_key w = k"
  unfolding row_of_def
  by (induction tbl) (auto simp: image_iff)

lemma row_of_None: "row_of tbl k = None \<longleftrightarrow> k \<notin> row_key ` set tbl"
  by (force simp: row_of_def map_of_eq_None_iff)

lemma filter_row_key:
  "distinct (map row_key tbl) \<Longrightarrow>
   filter (\<lambda>w. row_key w = k \<and> P w) tbl =
     (case row_of tbl k of None \<Rightarrow> [] | Some w \<Rightarrow> if P w then [w] else [])"
proof (induction tbl)
  case (Cons v tbl)
  then have "row_key v \<notin> row_key ` set tbl" by auto
  then have "filter (\<lambda>w. row_key w = row_key v \<and> P w) tbl = []"
    by (simp add: filter_empty_conv image_iff) metis
  with Cons show ?case by (auto simp: row_of_def)
qed (simp add: row_of_def)

lemma row_of_upsert:
  "row_of (upsert_challenge w tbl) k = (if k = row_key w then Some w else row_of tbl k)"
  by (induction tbl) (auto simp: row_of_def)

lemma row_of_filter:
  "distinct (map row_key tbl) \<Longrightarrow>
   row_of (filter P tbl) k = (case row_of tbl k of None \<Rightarrow> None | Some w \<Rightarrow> if P w then Some w else None)"
proof (induction tbl)
  case (Cons v tbl)
  then have "row_of tbl (row_key v) = None" by (simp add: row_of_None)
  with Cons show ?case by (auto simp: row_of_def split: option.splits)
qed (simp add: row_of_def)

lemma table_distinct: "challenge_table_ok tbl \<Longrightarrow> distinct (map row_key tbl)"
  by (simp add: challenge_table_ok_def)

lemma challenge_table_ok_filter: "challenge_table_ok tbl \<Longrightarrow> challenge_table_ok (filter P tbl)"
  by (auto simp: challenge_table_ok_def distinct_map_filter)

text \<open>The record of a key, decoded: on a table that only \<open>save\<close> wrote it behaves as a dictionary.\<close>

definition rec_of :: "challenge_table \<Rightarrow> string \<times> challenge_kind \<Rightarrow> challenge_record option" where
  "rec_of tbl k =
     (case row_of tbl k of
        None \<Rightarrow> None
      | Some w \<Rightarrow> (case sqlite_challenge w of Inl _ \<Rightarrow> None | Inr r \<Rightarrow> Some r))"

lemma row_of_cases:
  assumes "challenge_table_ok tbl"
  shows "row_of tbl k = map_option sqlite_challenge_values (rec_of tbl k)"
    and "rec_of tbl k = Some r \<Longrightarrow> valid_datetime (ch_expires_at r) \<and> k = (ch_key r, ch_kind r)"
proof -
  have *: "\<exists>r. w = sqlite_challenge_values r \<and> valid_datetime (ch_expires_at r) \<and> k = (ch_key r, ch_kind r)"
    if "row_of tbl k = Some w" for w
  proof -
    from that assms have "w \<in> set tbl" "row_key w = k" by (simp_all add: row_of_Some table_distinct)
    with assms show ?thesis unfolding challenge_table_ok_def by fastforce
  qed
  show "row_of tbl k = map_option sqlite_challenge_values (rec_of tbl k)"
    using * by (cases "row_of tbl k") (auto simp: rec_of_def)
  show "rec_of tbl k = Some r \<Longrightarrow> valid_datetime (ch_expires_at r) \<and> k = (ch_key r, ch_kind r)"
    using * by (cases "row_of tbl k") (auto simp: rec_of_def)
qed

lemma sql_live_rec:
  assumes "challenge_table_ok tbl"
  shows "sql_live tbl t key kind =
    (case rec_of tbl (key, kind) of None \<Rightarrow> None | Some r \<Rightarrow> if t < ch_expires_at r then Some r else None)"
  using filter_row_key [OF table_distinct [OF assms], of "(key, kind)" "\<lambda>_. True"]
  by (simp add: sql_live_def rec_of_def split: option.split sum.split)

lemma rec_of_upsert:
  "valid_datetime (ch_expires_at r) \<Longrightarrow>
   rec_of (upsert_challenge (sqlite_challenge_values r) tbl) k =
     (if k = (ch_key r, ch_kind r) then Some r else rec_of tbl k)"
  by (simp add: rec_of_def row_of_upsert)

lemma rec_of_filter:
  assumes "challenge_table_ok tbl"
  shows "rec_of (filter P tbl) k =
    (case rec_of tbl k of None \<Rightarrow> None | Some r \<Rightarrow> if P (sqlite_challenge_values r) then Some r else None)"
proof (cases "rec_of tbl k")
  case None
  then have "row_of tbl k = None" using row_of_cases(1) [OF assms, of k] by simp
  then show ?thesis
    using None row_of_filter [OF table_distinct [OF assms]] by (simp add: rec_of_def)
next
  case (Some r)
  note row = row_of_cases(1) [OF assms, of k] row_of_cases(2) [OF assms Some]
  have "row_of (filter P tbl) k =
      (if P (sqlite_challenge_values r) then Some (sqlite_challenge_values r) else None)"
    using row Some row_of_filter [OF table_distinct [OF assms]] by simp
  with Some row show ?thesis by (simp add: rec_of_def [of "filter P tbl"])
qed

lemma sql_save_run:
  "challenge_record_for now key kind c ttl u ctx = Inr r \<Longrightarrow>
   sql_save_challenge now key kind c ttl u ctx tbl =
     (Inr r, upsert_challenge (sqlite_challenge_values r) tbl)"
  by (simp add: sql_save_challenge_def path_call_mutation)

lemma sql_save_fst:
  "fst (sql_save_challenge now key kind c ttl u ctx tbl) = challenge_record_for now key kind c ttl u ctx"
  by (simp add: sql_save_challenge_def split: sum.split)

lemma upsert_ok:
  assumes "challenge_table_ok tbl" and "valid_datetime (ch_expires_at r)"
  shows "challenge_table_ok (upsert_challenge (sqlite_challenge_values r) tbl)"
  using assms unfolding challenge_table_ok_def
  by (metis distinct_upsert_challenge set_upsert_challenge)

lemma sql_save_ok:
  assumes "challenge_table_ok tbl"
  shows "challenge_table_ok (snd (sql_save_challenge now key kind c ttl u ctx tbl))"
proof (cases "challenge_record_for now key kind c ttl u ctx")
  case (Inl e)
  with assms show ?thesis by (simp add: sql_save_challenge_def)
next
  case (Inr r)
  with assms challenge_record_for_Inr(5) [OF Inr] show ?thesis by (simp add: sql_save_run upsert_ok)
qed

text \<open>What the DELETE of \<open>pop\<close> finds: the texts of instants compare as the instants.\<close>

lemma expires_text:
  assumes "valid_datetime now" and "valid_datetime (ch_expires_at r)"
  shows "isoformat now < chr_expires_at (sqlite_challenge_values r) \<longleftrightarrow> now < ch_expires_at r"
    and "chr_expires_at (sqlite_challenge_values r) \<le> isoformat now \<longleftrightarrow> ch_expires_at r \<le> now"
  using assms by (simp_all add: sqlite_challenge_values_def isoformat_less isoformat_le)

lemma pop_row_values:
  assumes "valid_datetime now" and "valid_datetime (ch_expires_at r)"
  shows "pop_row (isoformat now) k (sqlite_challenge_values r) \<longleftrightarrow>
    k = (ch_key r, ch_kind r) \<and> now < ch_expires_at r"
  using assms by (auto simp: pop_row_def expires_text)

lemma pop_rows:
  assumes "challenge_table_ok tbl" and "valid_datetime now"
  shows "filter (pop_row (isoformat now) (key, kind)) tbl =
    (case sql_live tbl now key kind of None \<Rightarrow> [] | Some r \<Rightarrow> [sqlite_challenge_values r])"
proof -
  note row = row_of_cases [OF assms(1), of "(key, kind)"]
  have "filter (pop_row (isoformat now) (key, kind)) tbl =
    (case row_of tbl (key, kind) of None \<Rightarrow> [] | Some w \<Rightarrow> if isoformat now < chr_expires_at w then [w] else [])"
    using filter_row_key [OF table_distinct [OF assms(1)]] by (simp add: pop_row_def [abs_def])
  with row assms show ?thesis
    by (cases "rec_of tbl (key, kind)") (simp_all add: sql_live_rec expires_text)
qed

lemma sql_pop_run:
  assumes "challenge_table_ok tbl" and "valid_datetime now"
  shows "sql_pop_challenge now key kind tbl =
    (case sql_live tbl now key kind of
       None \<Rightarrow> (Inl (challenge_missing kind), tbl)
     | Some r \<Rightarrow> (Inr r, filter (\<lambda>v. \<not> pop_row (isoformat now) (key, kind) v) tbl))"
proof (cases "sql_live tbl now key kind")
  case None
  with assms show ?thesis by (simp add: sql_pop_challenge_def path_call_mutation pop_rows)
next
  case (Some r)
  with assms(1) have "valid_datetime (ch_expires_at r)"
    using row_of_cases(2) [OF assms(1)] by (auto simp: sql_live_rec split: option.splits if_splits)
  with Some assms show ?thesis by (simp add: sql_pop_challenge_def path_call_mutation pop_rows)
qed

lemma sql_pop_live:
  assumes "challenge_table_ok tbl" and "valid_datetime now" and "now \<le> t"
  shows "sql_live (snd (sql_pop_challenge now key kind tbl)) t key' kind' =
    (if (key', kind') = (key, kind) then None else sql_live tbl t key' kind')"
proof (cases "sql_live tbl now key kind")
  case None
  with assms have "sql_live tbl t key kind = None"
    by (auto simp: sql_live_rec split: option.splits if_splits)
  with None assms show ?thesis by (auto simp: sql_pop_run)
next
  case (Some r)
  show ?thesis
  proof (cases "rec_of tbl (key', kind')")
    case None
    with Some assms show ?thesis
      by (simp add: sql_pop_run sql_live_rec challenge_table_ok_filter rec_of_filter)
  next
    case (Some r')
    have "sql_live (filter (\<lambda>v. \<not> pop_row (isoformat now) (key, kind) v) tbl) t key' kind' =
        (if (key', kind') = (key, kind) then None else sql_live tbl t key' kind')"
      using assms Some row_of_cases(2) [OF assms(1) Some]
      by (auto simp: sql_live_rec challenge_table_ok_filter rec_of_filter pop_row_values)
    with \<open>sql_live tbl now key kind = Some r\<close> assms show ?thesis by (simp add: sql_pop_run)
  qed
qed

lemma snd_sql_cleanup:
  "snd (sql_cleanup_challenges now tbl) = filter (\<lambda>w. \<not> chr_expires_at w \<le> isoformat now) tbl"
  unfolding sql_cleanup_challenges_def path_call_mutation by simp

lemma sql_cleanup_live:
  assumes "challenge_table_ok tbl" and "valid_datetime now" and "now \<le> t"
  shows "sql_live (snd (sql_cleanup_challenges now tbl)) t key kind = sql_live tbl t key kind"
proof (cases "rec_of tbl (key, kind)")
  case None
  with assms(1) show ?thesis
    unfolding snd_sql_cleanup by (simp only: sql_live_rec challenge_table_ok_filter rec_of_filter option.case)
next
  case (Some r)
  then have "chr_expires_at (sqlite_challenge_values r) \<le> isoformat now \<longleftrightarrow> ch_expires_at r \<le> now"
    using row_of_cases(2) [OF assms(1) Some] assms(2) by (simp add: expires_text)
  with Some assms(1) have "rec_of (filter (\<lambda>w. \<not> chr_expires_at w \<le> isoformat now) tbl) (key, kind) =
      (if ch_expires_at r \<le> now then None else Some r)"
    by (simp only: rec_of_filter option.case if_not_P if_P not_not) auto
  with Some assms show ?thesis
    unfolding snd_sql_cleanup by (simp add: sql_live_rec challenge_table_ok_filter)
qed

interpretation sql: challenge_store sql_save_challenge sql_pop_challenge sql_cleanup_challenges
  sql_live challenge_table_ok
proof (unfold_locales, goal_cases)
  case (1 s now key kind c ttl u ctx)
  then show ?case by (rule sql_save_ok)
next
  case (2 s now key kind)
  show ?case
    unfolding sql_pop_challenge_def
    by (rule path_call_inv [where P = challenge_table_ok])
      (use 2 in \<open>auto split: list.split_asm simp: challenge_table_ok_filter\<close>)
next
  case (3 s now)
  then show ?case by (simp add: snd_sql_cleanup challenge_table_ok_filter)
next
  case (4 s t key kind r)
  then show ?case by (auto simp: sql_live_def split: list.splits sum.splits if_splits)
next
  case (5 s now key kind c ttl u ctx)
  show ?case by (rule sql_save_fst)
next
  case (6 now key kind c ttl u ctx e s)
  then show ?case by (simp add: sql_save_challenge_def)
next
  case (7 s now key kind c ttl u ctx r t key' kind')
  then have "valid_datetime (ch_expires_at r)" "ch_key r = key" "ch_kind r = kind"
    using challenge_record_for_Inr(2,3,5) [OF 7(2)] by auto
  with 7 show ?case by (auto simp: sql_save_run sql_live_rec upsert_ok rec_of_upsert)
next
  case (8 s now key kind)
  then show ?case by (simp add: sql_pop_run split: option.split)
next
  case (9 s now t key kind key' kind')
  then show ?case by (rule sql_pop_live)
next
  case (10 now s)
  then show ?case by (simp add: sql_cleanup_challenges_def)
next
  case (11 s now t key kind)
  then show ?case by (rule sql_cleanup_live)
qed

subsection \<open>Properties of both stores\<close>

lemma agrees_init: "mem.agrees now (\<lambda>_. None) []" "sql.agrees now (\<lambda>_. None) []"
  by (auto simp: mem.agrees_def sql.agrees_def mem_live_def sql_live_def challenge_table_ok_def)

lemma stores_run_spec:
  assumes "clock_ok cs"
  shows "fst (run_calls mem.store_call cs []) = fst (run_calls spec_call cs (\<lambda>_. None))"
    and "fst (run_calls sql.store_call cs []) = fst (run_calls spec_call cs (\<lambda>_. None))"
proof -
  define now where "now = (case cs of [] \<Rightarrow> 0 | x # _ \<Rightarrow> fst x)"
  have le: "\<forall>x \<in> set cs. now \<le> fst x"
    using assms by (cases cs) (auto simp: now_def clock_ok_def)
  show "fst (run_calls mem.store_call cs []) = fst (run_calls spec_call cs (\<lambda>_. None))"
    by (rule mem.run_refines [OF agrees_init(1) assms le])
  show "fst (run_calls sql.store_call cs []) = fst (run_calls spec_call cs (\<lambda>_. None))"
    by (rule sql.run_refines [OF agrees_init(2) assms le])
qed


definition demo_calls :: "(datetime \<times> challenge_call) list" where
  "demo_calls =
     [(0, SaveCall ''flow'' Registration [1, 2] 300 None None), (5, PopCall ''flow'' Authentication),
      (9, PopCall ''flow'' Registration), (9, PopCall ''flow'' Registration), (20, CleanupCall)]"

lemma demo_calls_clock: "clock_ok demo_calls"
  by (simp add: clock_ok_def demo_calls_def valid_datetime_def datetime_max_def us_per_second_def)


text \<open>
  In every such sequence of calls each successful pop of a key uses up a successful save of
  that key, so no challenge is ever handed out twice, by either store.
\<close>

theorem challenge_popped_at_most_once:
  assumes "clock_ok cs"
  shows "length (filter (pops_of k) (zip cs (fst (run_calls mem.store_call cs []))))
      \<le> length (filter (saves_of k) (zip cs (fst (run_calls mem.store_call cs []))))
    \<and> length (filter (pops_of k) (zip cs (fst (run_calls sql.store_call cs []))))
      \<le> length (filter (saves_of k) (zip cs (fst (run_calls sql.store_call cs []))))"
  using spec_pops_le_saves [of k cs "\<lambda>_. None"] by (simp add: stores_run_spec [OF assms])

lemma challenge_popped_at_most_once_witness:
  "length (filter (pops_of (''flow'', Registration)) (zip demo_calls (fst (run_calls mem.store_call demo_calls []))))
     \<le> length (filter (saves_of (''flow'', Registration)) (zip demo_calls (fst (run_calls mem.store_call demo_calls []))))"
  using challenge_popped_at_most_once [OF demo_calls_clock] by blast

text \<open>
  What \<open>pop\<close> returns after \<open>save\<close> under the same key is the saved record, with its user and
  registration context, as long as it has not expired; a second pop finds nothing.
\<close>

theorem challenge_save_pop_roundtrip:
  assumes "challenge_table_ok tbl" and "valid_datetime now"
    and "fst (sql_save_challenge t0 key kind c ttl u ctx tbl) = Inr r" and "now < ch_expires_at r"
  shows "fst (sql_pop_challenge now key kind (snd (sql_save_challenge t0 key kind c ttl u ctx tbl))) = Inr r
    \<and> fst (sql_pop_challenge now key kind
        (snd (sql_pop_challenge now key kind (snd (sql_save_challenge t0 key kind c ttl u ctx tbl)))))
      = Inl (challenge_missing kind)"
proof -
  let ?s = "snd (sql_save_challenge t0 key kind c ttl u ctx tbl)"
  have ok: "challenge_table_ok ?s" using assms(1) by (rule sql.save_inv)
  have "challenge_record_for t0 key kind c ttl u ctx = Inr r"
    using assms(1,3) by (simp add: sql.save_result)
  then have "sql_live ?s now key kind = Some r" using assms by (simp add: sql.save_live)
  then have "fst (sql_pop_challenge now key kind ?s) = Inr r" using ok assms(2) by (simp add: sql.pop_result)
  with sql.pop_after_pop [OF ok assms(2) order_refl assms(2)] show ?thesis by simp
qed

lemma challenge_save_pop_roundtrip_witness:
  "\<exists>r. ch_challenge r = [7] \<and>
     fst (sql_pop_challenge 1000000 ''flow'' Authentication
       (snd (sql_save_challenge 0 ''flow'' Authentication [7] 300 None None []))) = Inr r"
proof -
  let ?r = "\<lparr>ch_challenge = [7], ch_kind = Authentication, ch_key = ''flow'', ch_expires_at = 300000000,
     ch_user = None, ch_registration_kind = None, ch_capability_id = None\<rparr>"
  have made: "fst (sql_save_challenge 0 ''flow'' Authentication [7] 300 None None []) = Inr ?r"
    by (simp add: sql_save_fst challenge_record_for_def add_seconds_def valid_datetime_def
        datetime_max_def us_per_second_def)
  have "fst (sql_pop_challenge 1000000 ''flow'' Authentication
       (snd (sql_save_challenge 0 ''flow'' Authentication [7] 300 None None []))) = Inr ?r"
    using challenge_save_pop_roundtrip [OF _ _ made, of 1000000]
    by (simp add: challenge_table_ok_def valid_datetime_def datetime_max_def us_per_second_def)
  then show ?thesis by force
qed

end
