(* ===== verification/CredentialStores.thy ===== *)
theory CredentialStores
  imports PasskeyModels
begin

section \<open>The credential store contract (\<open>CredentialStore\<close> in \<open>passkey_models.py\<close>)\<close>

text \<open>
  The protocol that both credential stores implement, as an abstract machine on three maps
  (users by id, user ids by handle, credentials by id) and as the locale
  \<open>credential_store\<close>: an implementation gives an abstraction function and shows that each
  operation is the abstract one, up to the message of an exception. What the service relies on
  (a credential never changes hands, the signature counter never falls, a guarded deletion
  keeps one credential) is proved here on the abstract machine and carried to the stores by the
  refinement.
\<close>

record cred_spec =
  sp_users :: "string \<Rightarrow> passkey_user option"
  sp_handles :: "bytes \<Rightarrow> string option"
  sp_creds :: "bytes \<Rightarrow> passkey_credential option"

definition spec_empty :: cred_spec where
  "spec_empty = \<lparr>sp_users = (\<lambda>_. None), sp_handles = (\<lambda>_. None), sp_creds = (\<lambda>_. None)\<rparr>"

definition owned :: "cred_spec \<Rightarrow> string \<Rightarrow> bytes set" where
  "owned st uid = {cid. \<exists>c. sp_creds st cid = Some c \<and> pc_user_id c = uid}"

definition spec_list :: "cred_spec \<Rightarrow> string \<Rightarrow> passkey_credential set" where
  "spec_list st uid = {c. \<exists>cid. sp_creds st cid = Some c \<and> pc_user_id c = uid}"

definition spec_by_handle :: "cred_spec \<Rightarrow> bytes \<Rightarrow> passkey_user option" where
  "spec_by_handle st h = Option.bind (sp_handles st h) (sp_users st)"

definition spec_save :: "verified_registration \<Rightarrow> (cred_spec, unit) op" where
  "spec_save vr st =
     (let u = vr_user vr; c = vr_credential vr in
      if pc_user_id c \<noteq> pu_user_id u then (Inl (PasskeyCredentialConflict []), st)
      else if sp_users st (pu_user_id u) \<notin> {None, Some u}
           \<or> sp_handles st (pu_user_handle u) \<notin> {None, Some (pu_user_id u)}
      then (Inl (PasskeyUserConflict []), st)
      else (case sp_creds st (pc_credential_id c) of
          Some ex \<Rightarrow>
            (if pc_user_id ex \<noteq> pc_user_id c \<or> pc_public_key ex \<noteq> pc_public_key c
             then (Inl (PasskeyCredentialConflict []), st) else (Inr (), st))
        | None \<Rightarrow>
            (Inr (), \<lparr>sp_users = (sp_users st)(pu_user_id u \<mapsto> u),
               sp_handles = (sp_handles st)(pu_user_handle u \<mapsto> pu_user_id u),
               sp_creds = (sp_creds st)(pc_credential_id c \<mapsto> c)\<rparr>)))"

definition spec_cas :: "bytes \<Rightarrow> int \<Rightarrow> int \<Rightarrow> string option \<Rightarrow> bool option
    \<Rightarrow> (cred_spec, passkey_credential) op" where
  "spec_cas cid expected new_count device backed st =
     (case sp_creds st cid of
        None \<Rightarrow> (Inl (CredentialNotFound []), st)
      | Some c \<Rightarrow>
          (if (expected \<noteq> 0 \<and> pc_sign_count c \<noteq> expected) \<or> new_count < pc_sign_count c
           then (Inl (CredentialCounterConflict []), st)
           else (let c' = c\<lparr>pc_sign_count := max (pc_sign_count c) new_count,
                   pc_device_type := device, pc_backed_up := backed\<rparr>
                 in (Inr c', st\<lparr>sp_creds := (sp_creds st)(cid \<mapsto> c')\<rparr>))))"

definition spec_label :: "bytes \<Rightarrow> string \<Rightarrow> string option
    \<Rightarrow> (cred_spec, passkey_credential option) op" where
  "spec_label cid uid label st =
     (case sp_creds st cid of
        None \<Rightarrow> (Inr None, st)
      | Some c \<Rightarrow>
          (if pc_user_id c \<noteq> uid then (Inr None, st)
           else (let c' = c\<lparr>pc_label := label\<rparr>
                 in (Inr (Some c'), st\<lparr>sp_creds := (sp_creds st)(cid \<mapsto> c')\<rparr>))))"

definition spec_delete :: "bytes \<Rightarrow> string option \<Rightarrow> bool \<Rightarrow> (cred_spec, bool) op" where
  "spec_delete cid uid require_remaining st =
     (case sp_creds st cid of
        None \<Rightarrow> (Inr False, st)
      | Some c \<Rightarrow>
          (if uid \<notin> {None, Some (pc_user_id c)} then (Inr False, st)
           else if require_remaining \<and> card (owned st (pc_user_id c)) \<le> 1 then (Inr False, st)
           else (Inr True, st\<lparr>sp_creds := (sp_creds st)(cid := None)\<rparr>)))"

text \<open>Users and their handles belong together, every credential has its own id and an owner.\<close>

definition spec_wf :: "cred_spec \<Rightarrow> bool" where
  "spec_wf st \<longleftrightarrow>
     finite (dom (sp_creds st))
     \<and> (\<forall>uid u. sp_users st uid = Some u \<longrightarrow>
          pu_user_id u = uid \<and> sp_handles st (pu_user_handle u) = Some uid)
     \<and> (\<forall>h uid. sp_handles st h = Some uid \<longrightarrow> (\<exists>u. sp_users st uid = Some u \<and> pu_user_handle u = h))
     \<and> (\<forall>cid c. sp_creds st cid = Some c \<longrightarrow>
          pc_credential_id c = cid \<and> sp_users st (pc_user_id c) \<noteq> None)"

subsection \<open>Calls and runs\<close>

datatype cred_call =
    SaveReg verified_registration
  | GetUser string
  | GetByHandle bytes
  | ListFor string
  | GetCred bytes
  | CasCred bytes int int "string option" "bool option"
  | LabelCred bytes string "string option"
  | DeleteCred bytes "string option" bool

datatype cred_reply =
    RDone | RUser "passkey_user option" | RCreds "passkey_credential set"
  | RCred "passkey_credential option" | RBool bool

fun spec_cred_call :: "cred_call \<Rightarrow> (cred_spec, cred_reply) op" where
  "spec_cred_call (SaveReg vr) st = map_prod (map_sum id (\<lambda>_. RDone)) id (spec_save vr st)"
| "spec_cred_call (GetUser uid) st = (Inr (RUser (sp_users st uid)), st)"
| "spec_cred_call (GetByHandle h) st = (Inr (RUser (spec_by_handle st h)), st)"
| "spec_cred_call (ListFor uid) st = (Inr (RCreds (spec_list st uid)), st)"
| "spec_cred_call (GetCred cid) st = (Inr (RCred (sp_creds st cid)), st)"
| "spec_cred_call (CasCred cid ex new_count dt bu) st =
     map_prod (map_sum id (\<lambda>c. RCred (Some c))) id (spec_cas cid ex new_count dt bu st)"
| "spec_cred_call (LabelCred cid uid label) st =
     map_prod (map_sum id RCred) id (spec_label cid uid label st)"
| "spec_cred_call (DeleteCred cid uid rr) st =
     map_prod (map_sum id RBool) id (spec_delete cid uid rr st)"

fun run_cred :: "(cred_call \<Rightarrow> ('s, cred_reply) op) \<Rightarrow> cred_call list \<Rightarrow> 's \<Rightarrow> cred_reply result list \<times> 's" where
  "run_cred f [] s = ([], s)"
| "run_cred f (c # cs) s =
     (case f c s of (r, s') \<Rightarrow> case run_cred f cs s' of (rs, s'') \<Rightarrow> (r # rs, s''))"

lemma run_cred_Cons [simp]:
  "fst (run_cred f (c # cs) s) = fst (f c s) # fst (run_cred f cs (snd (f c s)))"
  "snd (run_cred f (c # cs) s) = snd (run_cred f cs (snd (f c s)))"
  by (simp_all add: case_prod_beta)

declare run_cred.simps(2) [simp del]

subsection \<open>What the abstract machine keeps\<close>

lemmas spec_cred_defs = spec_save_def spec_cas_def spec_label_def spec_delete_def Let_def

lemma spec_wf_empty [simp]: "spec_wf spec_empty"
  by (simp add: spec_wf_def spec_empty_def)

lemma spec_wfD:
  assumes "spec_wf st"
  shows "finite (dom (sp_creds st))"
    and "sp_users st uid = Some u \<Longrightarrow> pu_user_id u = uid"
    and "sp_users st uid = Some u \<Longrightarrow> sp_handles st (pu_user_handle u) = Some uid"
    and "sp_handles st h = Some uid \<Longrightarrow> \<exists>u. sp_users st uid = Some u \<and> pu_user_handle u = h"
    and "sp_creds st cid = Some c \<Longrightarrow> pc_credential_id c = cid"
    and "sp_creds st cid = Some c \<Longrightarrow> \<exists>u. sp_users st (pc_user_id c) = Some u"
  using assms by (auto simp: spec_wf_def)

lemma spec_wf_put:
  assumes "spec_wf st" and "sp_creds st cid = Some c"
    and "pc_credential_id c' = pc_credential_id c" and "pc_user_id c' = pc_user_id c"
  shows "spec_wf (st\<lparr>sp_creds := (sp_creds st)(cid \<mapsto> c')\<rparr>)"
proof -
  have "finite (dom ((sp_creds st)(cid \<mapsto> c')))" using assms(1) by (simp add: spec_wf_def)
  with assms show ?thesis by (simp add: spec_wf_def)
qed

lemma spec_wf_add:
  assumes wf: "spec_wf st" and new: "sp_creds st (pc_credential_id c) = None"
    and owner: "pc_user_id c = pu_user_id u"
    and user: "sp_users st (pu_user_id u) \<in> {None, Some u}"
    and handle: "sp_handles st (pu_user_handle u) \<in> {None, Some (pu_user_id u)}"
  shows "spec_wf \<lparr>sp_users = (sp_users st)(pu_user_id u \<mapsto> u),
     sp_handles = (sp_handles st)(pu_user_handle u \<mapsto> pu_user_id u),
     sp_creds = (sp_creds st)(pc_credential_id c \<mapsto> c)\<rparr>" (is "spec_wf ?st")
proof -
  have fin: "finite (dom (sp_creds ?st))" using spec_wfD(1) [OF wf] by simp
  have users: "pu_user_id v = uid \<and> sp_handles ?st (pu_user_handle v) = Some uid"
    if "sp_users ?st uid = Some v" for uid v
    using that user handle spec_wfD(2,3) [OF wf, of uid v] by (auto split: if_split_asm)
  have handles: "\<exists>v. sp_users ?st uid = Some v \<and> pu_user_handle v = h"
    if "sp_handles ?st h = Some uid" for h uid
    using that user spec_wfD(4) [OF wf, of h uid] by (auto split: if_split_asm)
  have creds: "pc_credential_id d = cid \<and> sp_users ?st (pc_user_id d) \<noteq> None"
    if "sp_creds ?st cid = Some d" for cid d
    using that owner spec_wfD(5,6) [OF wf, of cid d] by (auto split: if_split_asm)
  show ?thesis unfolding spec_wf_def using fin users handles creds by blast
qed

lemma spec_save_wf: "spec_wf st \<Longrightarrow> spec_wf (snd (spec_save vr st))"
  by (simp add: spec_save_def Let_def spec_wf_add split: option.split)

lemma spec_cas_wf: "spec_wf st \<Longrightarrow> spec_wf (snd (spec_cas cid ex n dt bu st))"
  by (simp add: spec_cas_def Let_def spec_wf_put split: option.split)

lemma spec_label_wf: "spec_wf st \<Longrightarrow> spec_wf (snd (spec_label cid uid l st))"
  by (simp add: spec_label_def Let_def spec_wf_put split: option.split)

lemma spec_wf_remove: "spec_wf st \<Longrightarrow> spec_wf (st\<lparr>sp_creds := (sp_creds st)(cid := None)\<rparr>)"
proof -
  assume wf: "spec_wf st"
  then have "finite (dom ((sp_creds st)(cid := None)))" by (simp add: spec_wf_def)
  with wf show ?thesis by (simp add: spec_wf_def)
qed

lemma spec_delete_wf: "spec_wf st \<Longrightarrow> spec_wf (snd (spec_delete cid uid rr st))"
  by (simp add: spec_delete_def spec_wf_remove split: option.split)

lemma spec_call_wf: "spec_wf st \<Longrightarrow> spec_wf (snd (spec_cred_call c st))"
  by (cases c) (simp_all add: spec_save_wf spec_cas_wf spec_label_wf spec_delete_wf)

text \<open>An exception changes nothing.\<close>

lemma spec_call_error: "fst (spec_cred_call c st) = Inl e \<Longrightarrow> snd (spec_cred_call c st) = st"
  by (cases c) (auto simp: spec_cred_defs split: option.splits if_splits)

text \<open>Users stay; a credential that stays keeps its owner, key and age, and its counter does not fall.\<close>

definition cred_advances :: "passkey_credential \<Rightarrow> passkey_credential \<Rightarrow> bool" where
  "cred_advances c c' \<longleftrightarrow>
     pc_credential_id c' = pc_credential_id c \<and> pc_user_id c' = pc_user_id c
     \<and> pc_public_key c' = pc_public_key c \<and> pc_created_at c' = pc_created_at c
     \<and> pc_transports c' = pc_transports c \<and> pc_sign_count c \<le> pc_sign_count c'"

lemma cred_advances_refl [simp]: "cred_advances c c"
  by (simp add: cred_advances_def)

lemma cred_advances_trans: "cred_advances a b \<Longrightarrow> cred_advances b c \<Longrightarrow> cred_advances a c"
  by (auto simp: cred_advances_def)

lemma spec_call_users:
  "sp_users st uid = Some u \<Longrightarrow> sp_users (snd (spec_cred_call c st)) uid = Some u"
  by (cases c) (auto simp: spec_cred_defs split: option.splits if_splits)

lemma spec_call_advances:
  "sp_creds st cid = Some c \<Longrightarrow> sp_creds (snd (spec_cred_call call st)) cid = Some c' \<Longrightarrow> cred_advances c c'"
  by (cases call) (auto simp: spec_cred_defs cred_advances_def split: option.splits if_splits)

text \<open>Only a deletion makes a credential go away.\<close>

fun is_delete :: "cred_call \<Rightarrow> bool" where
  "is_delete (DeleteCred _ _ _) = True"
| "is_delete _ = False"

lemma spec_call_keeps:
  "\<not> is_delete call \<Longrightarrow> sp_creds st cid = Some c \<Longrightarrow>
   \<exists>c'. sp_creds (snd (spec_cred_call call st)) cid = Some c' \<and> cred_advances c c'"
  by (cases call) (auto simp: spec_cred_defs cred_advances_def split: option.splits)

lemma spec_run_keeps:
  assumes "\<forall>call \<in> set calls. \<not> is_delete call" and "sp_creds st cid = Some c"
  shows "\<exists>c'. sp_creds (snd (run_cred spec_cred_call calls st)) cid = Some c' \<and> cred_advances c c'"
  using assms
proof (induction calls arbitrary: st c)
  case Nil
  then show ?case by simp
next
  case (Cons call calls)
  obtain d where "sp_creds (snd (spec_cred_call call st)) cid = Some d" "cred_advances c d"
    using spec_call_keeps Cons.prems by (metis list.set_intros(1))
  with Cons show ?case by (simp, blast intro: cred_advances_trans)
qed

text \<open>When every deletion is guarded, a user always keeps a credential.\<close>

fun guarded :: "cred_call \<Rightarrow> bool" where
  "guarded (DeleteCred _ _ rr) = rr"
| "guarded _ = True"

definition users_have_credential :: "cred_spec \<Rightarrow> bool" where
  "users_have_credential st \<longleftrightarrow> (\<forall>uid u. sp_users st uid = Some u \<longrightarrow> owned st uid \<noteq> {})"

lemma owned_upd:
  "sp_creds st cid = Some c \<Longrightarrow> pc_user_id c' = pc_user_id c \<Longrightarrow>
   owned (st\<lparr>sp_creds := (sp_creds st)(cid \<mapsto> c')\<rparr>) uid = owned st uid"
  by (auto simp: owned_def)

lemma owned_delete:
  "owned (st\<lparr>sp_creds := (sp_creds st)(cid := None)\<rparr>) uid = owned st uid - {cid}"
  by (auto simp: owned_def)

lemma card_remove_ne:
  assumes "finite A" and "\<not> card A \<le> 1"
  shows "A - {x} \<noteq> {}"
proof
  assume "A - {x} = {}"
  then have "A \<subseteq> {x}" by blast
  then have "card A \<le> card {x}" by (intro card_mono) simp_all
  with assms(2) show False by simp
qed

lemma owned_save:
  "owned st uid \<subseteq> owned (snd (spec_save vr st)) uid"
  "sp_users (snd (spec_save vr st)) uid = Some u \<Longrightarrow> sp_users st uid = None \<Longrightarrow>
   owned (snd (spec_save vr st)) uid \<noteq> {}"
  by (auto simp: spec_save_def Let_def owned_def split: option.splits if_splits)

lemma finite_owned: "spec_wf st \<Longrightarrow> finite (owned st uid)"
  unfolding spec_wf_def owned_def by (rule finite_subset [where B = "dom (sp_creds st)"]) auto

text \<open>A deletion that counts first leaves another credential of the same user.\<close>

lemma spec_delete_guarded:
  assumes "spec_wf st" and "fst (spec_delete cid uid True st) = Inr True"
  shows "\<exists>c. sp_creds st cid = Some c \<and> owned (snd (spec_delete cid uid True st)) (pc_user_id c) \<noteq> {}"
proof -
  from assms(2) obtain c where c: "sp_creds st cid = Some c"
    and count: "\<not> card (owned st (pc_user_id c)) \<le> 1"
    and after: "snd (spec_delete cid uid True st) = st\<lparr>sp_creds := (sp_creds st)(cid := None)\<rparr>"
    by (auto simp: spec_delete_def split: option.splits if_splits)
  have "owned st (pc_user_id c) - {cid} \<noteq> {}"
    using finite_owned [OF assms(1)] count by (rule card_remove_ne)
  with c after show ?thesis by (simp add: owned_delete)
qed

lemma owned_after_delete:
  assumes "spec_wf st" and "sp_creds st cid = Some c" and "\<not> card (owned st (pc_user_id c)) \<le> 1"
    and "owned st uid \<noteq> {}"
  shows "owned st uid - {cid} \<noteq> {}"
proof (cases "uid = pc_user_id c")
  case True
  with assms show ?thesis using card_remove_ne [OF finite_owned [OF assms(1)]] by blast
next
  case False
  with assms(2) have "cid \<notin> owned st uid" by (simp add: owned_def)
  with assms(4) show ?thesis by simp
qed

lemma spec_call_guarded:
  assumes "spec_wf st" and "users_have_credential st" and "guarded call"
  shows "users_have_credential (snd (spec_cred_call call st))"
proof (cases call)
  case (SaveReg vr)
  have "owned (snd (spec_save vr st)) uid \<noteq> {}"
    if "sp_users (snd (spec_save vr st)) uid = Some u" for uid u
  proof (cases "sp_users st uid")
    case None
    with that show ?thesis by (rule owned_save(2))
  next
    case (Some v)
    with assms(2) have "owned st uid \<noteq> {}" by (simp add: users_have_credential_def)
    then show ?thesis using owned_save(1) by fast
  qed
  with SaveReg show ?thesis by (simp add: users_have_credential_def)
next
  case (CasCred cid ex n dt bu)
  with assms(2) show ?thesis
    by (auto simp: users_have_credential_def spec_cas_def Let_def owned_upd split: option.splits)
next
  case (LabelCred cid uid l)
  with assms(2) show ?thesis
    by (auto simp: users_have_credential_def spec_label_def Let_def owned_upd split: option.splits)
next
  case (DeleteCred cid uid rr)
  show ?thesis
  proof (cases "fst (spec_delete cid uid True st) = Inr True")
    case True
    then obtain c where "sp_creds st cid = Some c" "\<not> card (owned st (pc_user_id c)) \<le> 1"
      and after: "snd (spec_delete cid uid True st) = st\<lparr>sp_creds := (sp_creds st)(cid := None)\<rparr>"
      by (auto simp: spec_delete_def split: option.splits if_splits)
    then have left: "owned st v - {cid} \<noteq> {}" if "owned st v \<noteq> {}" for v
      using owned_after_delete [OF assms(1)] that by blast
    have "users_have_credential (st\<lparr>sp_creds := (sp_creds st)(cid := None)\<rparr>)"
      using assms(2) left unfolding users_have_credential_def owned_delete by simp
    with DeleteCred assms(3) after show ?thesis by simp
  next
    case False
    then have "snd (spec_delete cid uid True st) = st"
      by (auto simp: spec_delete_def split: option.splits if_splits)
    with assms DeleteCred show ?thesis by simp
  qed
qed (use assms(2) in simp_all)

lemma spec_run_guarded:
  "spec_wf st \<Longrightarrow> users_have_credential st \<Longrightarrow> \<forall>call \<in> set calls. guarded call \<Longrightarrow>
   users_have_credential (snd (run_cred spec_cred_call calls st))"
proof (induction calls arbitrary: st)
  case (Cons call calls)
  then show ?case by (simp add: spec_call_wf spec_call_guarded)
qed simp

subsection \<open>The interface\<close>

text \<open>
  \<open>reg_ok\<close> says which registrations and \<open>count_ok\<close> which counters the implementation can
  represent. Reads return a result, since a store that decodes rows can raise.
\<close>

locale credential_store =
  fixes save :: "verified_registration \<Rightarrow> ('s, unit) op"
    and get_user :: "string \<Rightarrow> 's \<Rightarrow> passkey_user option result"
    and get_user_by_handle :: "bytes \<Rightarrow> 's \<Rightarrow> passkey_user option result"
    and list_for :: "string \<Rightarrow> 's \<Rightarrow> passkey_credential list result"
    and get_cred :: "bytes \<Rightarrow> 's \<Rightarrow> passkey_credential option result"
    and cas :: "bytes \<Rightarrow> int \<Rightarrow> int \<Rightarrow> string option \<Rightarrow> bool option \<Rightarrow> ('s, passkey_credential) op"
    and set_label :: "bytes \<Rightarrow> string \<Rightarrow> string option \<Rightarrow> ('s, passkey_credential option) op"
    and delete :: "bytes \<Rightarrow> string option \<Rightarrow> bool \<Rightarrow> ('s, bool) op"
    and abs :: "'s \<Rightarrow> cred_spec"
    and inv :: "'s \<Rightarrow> bool"
    and reg_ok :: "verified_registration \<Rightarrow> bool"
    and count_ok :: "int \<Rightarrow> bool"
  assumes abs_wf: "inv s \<Longrightarrow> spec_wf (abs s)"
    and save_inv: "inv s \<Longrightarrow> reg_ok vr \<Longrightarrow> inv (snd (save vr s))"
    and cas_inv: "inv s \<Longrightarrow> count_ok ex \<Longrightarrow> count_ok n \<Longrightarrow> inv (snd (cas cid ex n dt bu s))"
    and label_inv: "inv s \<Longrightarrow> inv (snd (set_label cid uid l s))"
    and delete_inv: "inv s \<Longrightarrow> inv (snd (delete cid owner rr s))"
    and save_refines: "inv s \<Longrightarrow> reg_ok vr \<Longrightarrow>
      map_prod (map_sum bare id) abs (save vr s) = spec_save vr (abs s)"
    and get_user_spec: "inv s \<Longrightarrow> get_user uid s = Inr (sp_users (abs s) uid)"
    and by_handle_spec: "inv s \<Longrightarrow> get_user_by_handle h s = Inr (spec_by_handle (abs s) h)"
    and list_spec: "inv s \<Longrightarrow> \<exists>cs. list_for uid s = Inr cs \<and> distinct cs \<and> set cs = spec_list (abs s) uid"
    and get_cred_spec: "inv s \<Longrightarrow> get_cred cid s = Inr (sp_creds (abs s) cid)"
    and cas_refines: "inv s \<Longrightarrow> count_ok ex \<Longrightarrow> count_ok n \<Longrightarrow>
      map_prod (map_sum bare id) abs (cas cid ex n dt bu s) = spec_cas cid ex n dt bu (abs s)"
    and label_refines: "inv s \<Longrightarrow>
      map_prod (map_sum bare id) abs (set_label cid uid l s) = spec_label cid uid l (abs s)"
    and delete_refines: "inv s \<Longrightarrow>
      map_prod (map_sum bare id) abs (delete cid owner rr s) = spec_delete cid owner rr (abs s)"
begin

fun store_cred_call :: "cred_call \<Rightarrow> ('s, cred_reply) op" where
  "store_cred_call (SaveReg vr) s = map_prod (map_sum id (\<lambda>_. RDone)) id (save vr s)"
| "store_cred_call (GetUser uid) s = (map_sum id RUser (get_user uid s), s)"
| "store_cred_call (GetByHandle h) s = (map_sum id RUser (get_user_by_handle h s), s)"
| "store_cred_call (ListFor uid) s = (map_sum id (\<lambda>cs. RCreds (set cs)) (list_for uid s), s)"
| "store_cred_call (GetCred cid) s = (map_sum id RCred (get_cred cid s), s)"
| "store_cred_call (CasCred cid ex n dt bu) s =
     map_prod (map_sum id (\<lambda>c. RCred (Some c))) id (cas cid ex n dt bu s)"
| "store_cred_call (LabelCred cid uid l) s = map_prod (map_sum id RCred) id (set_label cid uid l s)"
| "store_cred_call (DeleteCred cid owner rr) s = map_prod (map_sum id RBool) id (delete cid owner rr s)"

fun call_ok :: "cred_call \<Rightarrow> bool" where
  "call_ok (SaveReg vr) = reg_ok vr"
| "call_ok (CasCred _ ex n _ _) = (count_ok ex \<and> count_ok n)"
| "call_ok _ = True"

lemma call_inv: "inv s \<Longrightarrow> call_ok c \<Longrightarrow> inv (snd (store_cred_call c s))"
  by (cases c) (simp_all add: save_inv cas_inv label_inv delete_inv)

lemma map_reply:
  assumes "map_prod (map_sum bare id) abs p = q"
  shows "map_prod (map_sum bare id) abs (map_prod (map_sum id f) id p) = map_prod (map_sum id f) id q"
  unfolding assms [symmetric] by (cases p; cases "fst p") simp_all

lemma call_refines:
  assumes "inv s" and "call_ok c"
  shows "map_prod (map_sum bare id) abs (store_cred_call c s) = spec_cred_call c (abs s)"
proof (cases c)
  case (SaveReg vr)
  with assms show ?thesis by (simp add: map_reply [OF save_refines])
next
  case (ListFor uid)
  with list_spec [OF assms(1), of uid] show ?thesis by auto
next
  case (CasCred cid ex n dt bu)
  with assms show ?thesis by (simp add: map_reply [OF cas_refines])
next
  case (LabelCred cid uid l)
  with assms show ?thesis by (simp add: map_reply [OF label_refines])
next
  case (DeleteCred cid uid rr)
  with assms show ?thesis by (simp add: map_reply [OF delete_refines])
qed (simp_all add: assms get_user_spec by_handle_spec get_cred_spec)

lemma call_abs: "inv s \<Longrightarrow> call_ok c \<Longrightarrow> abs (snd (store_cred_call c s)) = snd (spec_cred_call c (abs s))"
  using call_refines [of s c] by (metis snd_map_prod)

lemma call_reply:
  "inv s \<Longrightarrow> call_ok c \<Longrightarrow> map_sum bare id (fst (store_cred_call c s)) = fst (spec_cred_call c (abs s))"
  using call_refines [of s c] by (metis fst_map_prod)

lemma run_refines:
  "inv s \<Longrightarrow> \<forall>c \<in> set cs. call_ok c \<Longrightarrow>
   map (map_sum bare id) (fst (run_cred store_cred_call cs s)) = fst (run_cred spec_cred_call cs (abs s))
   \<and> abs (snd (run_cred store_cred_call cs s)) = snd (run_cred spec_cred_call cs (abs s))
   \<and> inv (snd (run_cred store_cred_call cs s))"
proof (induction cs arbitrary: s)
  case (Cons c cs)
  then have step: "inv s" "call_ok c" and rest: "\<forall>c \<in> set cs. call_ok c" by auto
  have "inv (snd (store_cred_call c s))" using step by (rule call_inv)
  from Cons.IH [OF this rest] show ?case
    by (simp only: run_cred_Cons list.map call_abs [OF step] call_reply [OF step] simp_thms)
qed simp

lemma call_advances:
  assumes "inv s" and "call_ok call"
    and "get_cred cid s = Inr (Some c)" and "get_cred cid (snd (store_cred_call call s)) = Inr (Some c')"
  shows "cred_advances c c'"
proof -
  have "sp_creds (abs s) cid = Some c" using assms(1,3) by (simp add: get_cred_spec)
  moreover have "sp_creds (snd (spec_cred_call call (abs s))) cid = Some c'"
    using assms(4) by (simp add: get_cred_spec call_inv [OF assms(1,2)] call_abs [OF assms(1,2)])
  ultimately show ?thesis by (rule spec_call_advances)
qed

lemma delete_leaves_one:
  assumes "inv s" and "fst (delete cid owner True s) = Inr True"
  shows "\<exists>c cs. get_cred cid s = Inr (Some c)
    \<and> list_for (pc_user_id c) (snd (delete cid owner True s)) = Inr cs \<and> cs \<noteq> []"
proof -
  let ?s' = "snd (delete cid owner True s)"
  have refines: "fst (spec_delete cid owner True (abs s)) = Inr True"
    "snd (spec_delete cid owner True (abs s)) = abs ?s'"
    using delete_refines [OF assms(1), of cid owner True] assms(2)
    by (metis fst_map_prod map_sum.simps(2) id_apply, metis snd_map_prod)
  from spec_delete_guarded [OF abs_wf [OF assms(1)] refines(1)]
  obtain c where c: "sp_creds (abs s) cid = Some c" and "owned (abs ?s') (pc_user_id c) \<noteq> {}"
    using refines(2) by auto
  then obtain d where d: "d \<in> spec_list (abs ?s') (pc_user_id c)"
    by (auto simp: owned_def spec_list_def)
  obtain cs where cs: "list_for (pc_user_id c) ?s' = Inr cs" "set cs = spec_list (abs ?s') (pc_user_id c)"
    using list_spec [OF delete_inv [OF assms(1)]] by blast
  with d have "cs \<noteq> []" by auto
  with c cs(1) assms(1) show ?thesis by (simp add: get_cred_spec)
qed

end

end
