(* ===== verification/CredMemory.thy ===== *)
theory CredMemory
  imports CredentialStores
begin

section \<open>\<open>MemoryCredentialStore\<close> (\<open>passkey_memory.py\<close>)\<close>

text \<open>
  Three dictionaries: users by id, user ids by handle, credentials by id. The lock makes each
  operation one step. The store hands out its own credential objects; every operation here
  reads and writes them inside one step, so the model returns their values.
\<close>

record mem_creds =
  mc_users :: "(string, passkey_user) dict"
  mc_handles :: "(bytes, string) dict"
  mc_credentials :: "(bytes, passkey_credential) dict"

definition mem_creds_init :: mem_creds where
  "mem_creds_init = \<lparr>mc_users = [], mc_handles = [], mc_credentials = []\<rparr>"

abbreviation ownership_conflict :: exn where
  "ownership_conflict \<equiv> PasskeyCredentialConflict ''passkey credential ownership conflict''"

text \<open>\<open>dict.setdefault\<close>.\<close>

definition setdefault :: "'k \<Rightarrow> 'v \<Rightarrow> ('k, 'v) dict \<Rightarrow> ('k, 'v) dict" where
  "setdefault k v d = (case map_of d k of None \<Rightarrow> AList.update k v d | Some _ \<Rightarrow> d)"

definition mem_save_registration :: "verified_registration \<Rightarrow> (mem_creds, unit) op" where
  "mem_save_registration vr s =
     (let user = vr_user vr; credential = vr_credential vr in
      if pc_user_id credential \<noteq> pu_user_id user then (Inl ownership_conflict, s)
      else (let old = map_of (mc_users s) (pu_user_id user);
                by_handle = map_of (mc_handles s) (pu_user_handle user) in
        if (old \<noteq> None \<and> old \<noteq> Some user) \<or> (by_handle \<noteq> None \<and> by_handle \<noteq> Some (pu_user_id user))
        then (Inl (PasskeyUserConflict ''passkey user ownership conflict''), s)
        else (let existing = map_of (mc_credentials s) (pc_credential_id credential) in
          if (case existing of None \<Rightarrow> False
              | Some ex \<Rightarrow> pc_user_id ex \<noteq> pc_user_id credential
                  \<or> pc_public_key ex \<noteq> pc_public_key credential)
          then (Inl ownership_conflict, s)
          else (Inr (),
            \<lparr>mc_users = AList.update (pu_user_id user) user (mc_users s),
             mc_handles = AList.update (pu_user_handle user) (pu_user_id user) (mc_handles s),
             mc_credentials =
               setdefault (pc_credential_id credential) credential (mc_credentials s)\<rparr>))))"

definition mem_get_user :: "string \<Rightarrow> mem_creds \<Rightarrow> passkey_user option result" where
  "mem_get_user uid s = Inr (map_of (mc_users s) uid)"

definition mem_get_user_by_handle :: "bytes \<Rightarrow> mem_creds \<Rightarrow> passkey_user option result" where
  "mem_get_user_by_handle h s =
     (let user_id = map_of (mc_handles s) h
      in Inr (if truthy user_id then map_of (mc_users s) (the user_id) else None))"

definition mem_list_credentials :: "string \<Rightarrow> mem_creds \<Rightarrow> passkey_credential list result" where
  "mem_list_credentials uid s = Inr (filter (\<lambda>c. pc_user_id c = uid) (map snd (mc_credentials s)))"

definition mem_get_credential :: "bytes \<Rightarrow> mem_creds \<Rightarrow> passkey_credential option result" where
  "mem_get_credential cid s = Inr (map_of (mc_credentials s) cid)"

definition mem_cas :: "bytes \<Rightarrow> int \<Rightarrow> int \<Rightarrow> string option \<Rightarrow> bool option
    \<Rightarrow> (mem_creds, passkey_credential) op" where
  "mem_cas cid expected new_count device backed s =
     (case map_of (mc_credentials s) cid of
        None \<Rightarrow> (Inl (CredentialNotFound ''unknown passkey credential''), s)
      | Some c \<Rightarrow>
          (if expected \<noteq> 0 \<and> pc_sign_count c \<noteq> expected
           then (Inl (CredentialCounterConflict ''credential counter changed concurrently''), s)
           else if new_count < pc_sign_count c
           then (Inl (CredentialCounterConflict ''credential counter cannot regress''), s)
           else (let c' = c\<lparr>pc_sign_count := max (pc_sign_count c) new_count,
                   pc_device_type := device, pc_backed_up := backed\<rparr>
                 in (Inr c', s\<lparr>mc_credentials := AList.update cid c' (mc_credentials s)\<rparr>))))"

definition mem_label :: "bytes \<Rightarrow> string \<Rightarrow> string option
    \<Rightarrow> (mem_creds, passkey_credential option) op" where
  "mem_label cid uid label s =
     (case map_of (mc_credentials s) cid of
        None \<Rightarrow> (Inr None, s)
      | Some c \<Rightarrow>
          (if pc_user_id c \<noteq> uid then (Inr None, s)
           else (let c' = c\<lparr>pc_label := label\<rparr>
                 in (Inr (Some c'), s\<lparr>mc_credentials := AList.update cid c' (mc_credentials s)\<rparr>))))"

definition mem_delete :: "bytes \<Rightarrow> string option \<Rightarrow> bool \<Rightarrow> (mem_creds, bool) op" where
  "mem_delete cid uid require_remaining s =
     (case map_of (mc_credentials s) cid of
        None \<Rightarrow> (Inr False, s)
      | Some c \<Rightarrow>
          (if uid \<noteq> None \<and> uid \<noteq> Some (pc_user_id c) then (Inr False, s)
           else if require_remaining
             \<and> length (filter (\<lambda>d. pc_user_id d = pc_user_id c) (map snd (mc_credentials s))) \<le> 1
           then (Inr False, s)
           else (Inr True, s\<lparr>mc_credentials := AList.delete cid (mc_credentials s)\<rparr>)))"

subsection \<open>The store implements the contract\<close>

definition mem_cred_abs :: "mem_creds \<Rightarrow> cred_spec" where
  "mem_cred_abs s =
     \<lparr>sp_users = map_of (mc_users s), sp_handles = map_of (mc_handles s),
      sp_creds = map_of (mc_credentials s)\<rparr>"

definition mem_cred_ok :: "mem_creds \<Rightarrow> bool" where
  "mem_cred_ok s \<longleftrightarrow>
     dict_ok (mc_users s) \<and> dict_ok (mc_handles s) \<and> dict_ok (mc_credentials s)
     \<and> spec_wf (mem_cred_abs s) \<and> map_of (mc_users s) [] = None"

text \<open>An empty user id is never found by its handle: \<open>get_user_by_handle\<close> tests its truth.\<close>

definition mem_reg_ok :: "verified_registration \<Rightarrow> bool" where
  "mem_reg_ok vr \<longleftrightarrow> pu_user_id (vr_user vr) \<noteq> []"

lemma mem_cred_abs_simps [simp]:
  "sp_users (mem_cred_abs s) = map_of (mc_users s)"
  "sp_handles (mem_cred_abs s) = map_of (mc_handles s)"
  "sp_creds (mem_cred_abs s) = map_of (mc_credentials s)"
  by (simp_all add: mem_cred_abs_def)

lemma dict_ok_setdefault [simp]: "dict_ok d \<Longrightarrow> dict_ok (setdefault k v d)"
  by (simp add: setdefault_def split: option.split)

lemma mem_owned_card:
  assumes "dict_ok (mc_credentials s)"
  shows "card (owned (mem_cred_abs s) uid) =
    length (filter (\<lambda>d. pc_user_id d = uid) (map snd (mc_credentials s)))"
proof -
  let ?d = "filter (\<lambda>p. pc_user_id (snd p) = uid) (mc_credentials s)"
  have "owned (mem_cred_abs s) uid = fst ` set ?d"
    unfolding owned_def mem_cred_abs_simps map_of_Some_iff_dict [OF assms] by force
  moreover have "card (set (map fst ?d)) = length (map fst ?d)"
    by (rule distinct_card) (rule dict_ok_filter [OF assms])
  ultimately show ?thesis by (simp add: filter_map comp_def)
qed

lemma mem_save_refines:
  assumes "mem_cred_ok s"
  shows "map_prod (map_sum bare id) mem_cred_abs (mem_save_registration vr s) =
    spec_save vr (mem_cred_abs s)"
proof -
  let ?u = "vr_user vr" and ?c = "vr_credential vr"
  have wf: "spec_wf (mem_cred_abs s)" using assms by (simp add: mem_cred_ok_def)
  have known: "map_of (mc_users s) (pu_user_id ?u) = Some ?u
      \<and> map_of (mc_handles s) (pu_user_handle ?u) = Some (pu_user_id ?u)"
    if "map_of (mc_credentials s) (pc_credential_id ?c) = Some ex" "pc_user_id ex = pu_user_id ?u"
      "map_of (mc_users s) (pu_user_id ?u) \<in> {None, Some ?u}" for ex
    using that spec_wfD(6) [OF wf, of "pc_credential_id ?c" ex]
      spec_wfD(3) [OF wf, of "pu_user_id ?u" ?u] by auto
  have same: "mem_cred_abs \<lparr>mc_users = AList.update (pu_user_id ?u) ?u (mc_users s),
      mc_handles = AList.update (pu_user_handle ?u) (pu_user_id ?u) (mc_handles s),
      mc_credentials = setdefault (pc_credential_id ?c) ?c (mc_credentials s)\<rparr> = mem_cred_abs s"
    if "map_of (mc_credentials s) (pc_credential_id ?c) = Some ex" "pc_user_id ex = pu_user_id ?u"
      "map_of (mc_users s) (pu_user_id ?u) \<in> {None, Some ?u}" for ex
    using known [OF that] that(1) by (simp add: mem_cred_abs_def dict_simps setdefault_def fun_upd_idem)
  show ?thesis
  proof (cases "pc_user_id ?c = pu_user_id ?u
      \<and> map_of (mc_users s) (pu_user_id ?u) \<in> {None, Some ?u}
      \<and> map_of (mc_handles s) (pu_user_handle ?u) \<in> {None, Some (pu_user_id ?u)}")
    case False
    then show ?thesis by (auto simp: mem_save_registration_def spec_save_def Let_def)
  next
    case True
    then have run: "mem_save_registration vr s =
      (if (case map_of (mc_credentials s) (pc_credential_id ?c) of None \<Rightarrow> False
          | Some ex \<Rightarrow> pc_user_id ex \<noteq> pc_user_id ?c \<or> pc_public_key ex \<noteq> pc_public_key ?c)
       then (Inl ownership_conflict, s)
       else (Inr (), \<lparr>mc_users = AList.update (pu_user_id ?u) ?u (mc_users s),
             mc_handles = AList.update (pu_user_handle ?u) (pu_user_id ?u) (mc_handles s),
             mc_credentials = setdefault (pc_credential_id ?c) ?c (mc_credentials s)\<rparr>))"
      by (auto simp: mem_save_registration_def Let_def)
    show ?thesis
    proof (cases "map_of (mc_credentials s) (pc_credential_id ?c)")
      case None
      with True show ?thesis
        by (simp add: run spec_save_def Let_def)
          (simp add: mem_cred_abs_def dict_simps setdefault_def)
    next
      case (Some ex)
      with True same [OF Some] show ?thesis
        by (simp add: run spec_save_def Let_def)
    qed
  qed
qed

lemma mem_cas_refines:
  "map_prod (map_sum bare id) mem_cred_abs (mem_cas cid ex n dt bu s) = spec_cas cid ex n dt bu (mem_cred_abs s)"
  by (auto simp: mem_cas_def spec_cas_def Let_def mem_cred_abs_def dict_simps split: option.split)

lemma mem_label_refines:
  "map_prod (map_sum bare id) mem_cred_abs (mem_label cid uid l s) = spec_label cid uid l (mem_cred_abs s)"
  by (auto simp: mem_label_def spec_label_def Let_def mem_cred_abs_def dict_simps split: option.split)

lemma mem_delete_refines:
  "mem_cred_ok s \<Longrightarrow>
   map_prod (map_sum bare id) mem_cred_abs (mem_delete cid uid rr s) = spec_delete cid uid rr (mem_cred_abs s)"
  by (simp add: mem_delete_def spec_delete_def mem_owned_card mem_cred_ok_def split: option.split)
    (auto simp: mem_cred_abs_def dict_simps)

lemma mem_step_ok:
  assumes "map_prod (map_sum bare id) mem_cred_abs p = q" and "spec_wf (snd q)"
    and "dict_ok (mc_users (snd p))" "dict_ok (mc_handles (snd p))" "dict_ok (mc_credentials (snd p))"
    and "map_of (mc_users (snd p)) [] = None"
  shows "mem_cred_ok (snd p)"
proof -
  have "mem_cred_abs (snd p) = snd q" using assms(1) by (metis snd_map_prod)
  with assms show ?thesis by (simp add: mem_cred_ok_def)
qed

lemma mem_save_ok: "mem_cred_ok s \<Longrightarrow> mem_reg_ok vr \<Longrightarrow> mem_cred_ok (snd (mem_save_registration vr s))"
  by (rule mem_step_ok [OF mem_save_refines])
    (auto simp: spec_save_wf mem_cred_ok_def mem_save_registration_def mem_reg_ok_def
      Let_def dict_simps split: option.split)

lemma mem_cas_ok: "mem_cred_ok s \<Longrightarrow> mem_cred_ok (snd (mem_cas cid ex n dt bu s))"
  by (rule mem_step_ok [OF mem_cas_refines])
    (auto simp: spec_cas_wf mem_cred_ok_def mem_cas_def Let_def split: option.split)

lemma mem_label_ok: "mem_cred_ok s \<Longrightarrow> mem_cred_ok (snd (mem_label cid uid l s))"
  by (rule mem_step_ok [OF mem_label_refines])
    (auto simp: spec_label_wf mem_cred_ok_def mem_label_def Let_def split: option.split)

lemma mem_delete_ok: "mem_cred_ok s \<Longrightarrow> mem_cred_ok (snd (mem_delete cid uid rr s))"
  by (rule mem_step_ok [OF mem_delete_refines])
    (auto simp: spec_delete_wf mem_cred_ok_def mem_delete_def split: option.split)

lemma mem_by_handle_spec:
  assumes "mem_cred_ok s"
  shows "mem_get_user_by_handle h s = Inr (spec_by_handle (mem_cred_abs s) h)"
proof (cases "map_of (mc_handles s) h")
  case (Some uid)
  have "spec_wf (mem_cred_abs s)" "map_of (mc_users s) [] = None" using assms by (simp_all add: mem_cred_ok_def)
  then have "uid \<noteq> []" using spec_wfD(4) [of "mem_cred_abs s" h uid] Some by auto
  with Some show ?thesis by (simp add: mem_get_user_by_handle_def spec_by_handle_def)
qed (simp add: mem_get_user_by_handle_def spec_by_handle_def)

lemma mem_list_spec:
  assumes "mem_cred_ok s"
  shows "\<exists>cs. mem_list_credentials uid s = Inr cs \<and> distinct cs \<and> set cs = spec_list (mem_cred_abs s) uid"
proof -
  have ok: "dict_ok (mc_credentials s)" and wf: "spec_wf (mem_cred_abs s)"
    using assms by (simp_all add: mem_cred_ok_def)
  have "inj_on snd (set (mc_credentials s))"
    using spec_wfD(5) [OF wf] ok by (auto simp: inj_on_def map_of_Some_iff_dict) metis
  then have "distinct (map snd (mc_credentials s))"
    using ok by (simp add: distinct_map)
  moreover have "set (filter (\<lambda>c. pc_user_id c = uid) (map snd (mc_credentials s))) = spec_list (mem_cred_abs s) uid"
    using ok by (force simp: spec_list_def map_of_Some_iff_dict)
  ultimately show ?thesis by (simp add: mem_list_credentials_def)
qed

interpretation memc: credential_store mem_save_registration mem_get_user mem_get_user_by_handle
  mem_list_credentials mem_get_credential mem_cas mem_label mem_delete
  mem_cred_abs mem_cred_ok mem_reg_ok "\<lambda>_. True"
  by unfold_locales
    (simp_all add: mem_save_ok mem_cas_ok mem_label_ok mem_delete_ok mem_save_refines mem_cas_refines
      mem_label_refines mem_delete_refines mem_by_handle_spec mem_list_spec mem_get_user_def
      mem_get_credential_def mem_cred_ok_def [THEN iffD1])

lemma mem_cred_init [simp]: "mem_cred_ok mem_creds_init" "mem_cred_abs mem_creds_init = spec_empty"
  by (simp_all add: mem_cred_ok_def mem_creds_init_def mem_cred_abs_def spec_wf_def spec_empty_def)

end
