(* ===== verification/Json.thy ===== *)
theory Json
  imports Prelude
begin

section \<open>JSON (\<open>json.dumps\<close>, \<open>json.loads\<close>)\<close>

text \<open>
  \<open>json.loads\<close> with Python's grammar (white space, every escape, numbers, \<open>NaN\<close> and
  \<open>Infinity\<close>, the last of two equal keys), on the strings of the model, and \<open>json.dumps\<close> of a
  list of strings with the default \<open>ensure_ascii=True\<close>. The column \<open>transports\<close> is written with
  the one and read with the other; a credential response that arrives as text is read with
  \<open>loads\<close>. A float is kept as its text. Nesting is not limited (Python raises RecursionError
  at about a thousand levels).
\<close>

datatype json =
    JNull
  | JBool bool
  | JInt int
  | JFloat string
  | JStr string
  | JArr "json list"
  | JObj "(string \<times> json) list"

subsection \<open>The encoder\<close>

definition hex_char :: "nat \<Rightarrow> char" where
  "hex_char n = (if n < 10 then char_of (48 + n) else char_of (87 + n))"

definition json_escape :: "char \<Rightarrow> string" where
  "json_escape c =
     (if c = CHR 0x22 then [CHR 0x5C, CHR 0x22]
      else if c = CHR 0x5C then [CHR 0x5C, CHR 0x5C]
      else if c = CHR 0x0A then [CHR 0x5C, CHR ''n'']
      else if c = CHR 0x0D then [CHR 0x5C, CHR ''r'']
      else if c = CHR 0x09 then [CHR 0x5C, CHR ''t'']
      else if c = CHR 0x0C then [CHR 0x5C, CHR ''f'']
      else if c = CHR 0x08 then [CHR 0x5C, CHR ''b'']
      else (let n = (of_char c :: nat)
        in if 32 \<le> n \<and> n \<le> 126 then [c]
           else [CHR 0x5C, CHR ''u'', CHR ''0'', CHR ''0'', hex_char (n div 16), hex_char (n mod 16)]))"

definition json_quote :: "string \<Rightarrow> string" where
  "json_quote s = CHR 0x22 # concat (map json_escape s) @ [CHR 0x22]"

definition json_dumps :: "string list \<Rightarrow> string" where
  "json_dumps xs = ''['' @ py_join '', '' (map json_quote xs) @ '']''"

subsection \<open>The decoder\<close>

definition json_ws :: "char \<Rightarrow> bool" where
  "json_ws c = (let n = (of_char c :: nat) in n = 32 \<or> n = 9 \<or> n = 10 \<or> n = 13)"

abbreviation skip_ws :: "string \<Rightarrow> string" where
  "skip_ws \<equiv> dropWhile json_ws"

definition hex_val :: "char \<Rightarrow> nat option" where
  "hex_val c =
     (let n = (of_char c :: nat) in
      if 48 \<le> n \<and> n \<le> 57 then Some (n - 48)
      else if 97 \<le> n \<and> n \<le> 102 then Some (n - 87)
      else if 65 \<le> n \<and> n \<le> 70 then Some (n - 55) else None)"

definition json_unescape :: "char \<Rightarrow> char option" where
  "json_unescape c =
     (if c = CHR 0x22 \<or> c = CHR 0x5C \<or> c = CHR ''/'' then Some c
      else if c = CHR ''b'' then Some (CHR 0x08) else if c = CHR ''f'' then Some (CHR 0x0C)
      else if c = CHR ''n'' then Some (CHR 0x0A) else if c = CHR ''r'' then Some (CHR 0x0D)
      else if c = CHR ''t'' then Some (CHR 0x09) else None)"

definition cons_char :: "char \<Rightarrow> (string \<times> string) option \<Rightarrow> (string \<times> string) option" where
  "cons_char c r = map_option (\<lambda>(s, rest). (c # s, rest)) r"

text \<open>
  The four hexadecimal digits after a backslash and \<open>u\<close>; a code point from 256 on is outside
  the strings of the model.
\<close>

definition hex4 :: "char \<Rightarrow> char \<Rightarrow> char \<Rightarrow> char \<Rightarrow> char option" where
  "hex4 a b c d =
     (case (hex_val a, hex_val b, hex_val c, hex_val d) of
        (Some w, Some x, Some y, Some z) \<Rightarrow>
          (if w = 0 \<and> x = 0 then Some (char_of (y * 16 + z)) else None)
      | _ \<Rightarrow> None)"

text \<open>The rest of a string literal after its opening quote: its value and what follows it.\<close>

fun json_string :: "string \<Rightarrow> (string \<times> string) option" where
  "json_string [] = None"
| "json_string (c # cs) =
     (if c = CHR 0x22 then Some ([], cs)
      else if c = CHR 0x5C then
        (case cs of
           [] \<Rightarrow> None
         | e # es \<Rightarrow>
             if e = CHR ''u'' then
               (case es of
                  h1 # h2 # h3 # h4 # rest \<Rightarrow>
                    (case hex4 h1 h2 h3 h4 of None \<Rightarrow> None | Some x \<Rightarrow> cons_char x (json_string rest))
                | _ \<Rightarrow> None)
             else (case json_unescape e of None \<Rightarrow> None | Some x \<Rightarrow> cons_char x (json_string es)))
      else if (of_char c :: nat) < 32 then None
      else cons_char c (json_string cs))"

text \<open>A number: \<open>-?(0|[1-9][0-9]*)(\.[0-9]+)?([eE][-+]?[0-9]+)?\<close>; with a fraction or an exponent it is a float.\<close>

definition is_digit :: "char \<Rightarrow> bool" where
  "is_digit c = (let n = (of_char c :: nat) in 48 \<le> n \<and> n \<le> 57)"

definition digits_nat :: "string \<Rightarrow> nat" where
  "digits_nat ds = foldl (\<lambda>n c. n * 10 + (of_char c - 48)) 0 ds"

definition json_int_part :: "string \<Rightarrow> (string \<times> string) option" where
  "json_int_part s =
     (case s of
        [] \<Rightarrow> None
      | c # cs \<Rightarrow>
          if c = CHR ''0'' then Some ([c], cs)
          else if is_digit c then Some (takeWhile is_digit s, dropWhile is_digit s)
          else None)"

definition json_fraction :: "string \<Rightarrow> string \<times> string" where
  "json_fraction s =
     (case s of
        p # d # ds \<Rightarrow>
          if p = CHR ''.'' \<and> is_digit d
          then (p # takeWhile is_digit (d # ds), dropWhile is_digit (d # ds)) else ([], s)
      | _ \<Rightarrow> ([], s))"

definition json_exponent :: "string \<Rightarrow> string \<times> string" where
  "json_exponent s =
     (case s of
        e # cs \<Rightarrow>
          if e = CHR ''e'' \<or> e = CHR ''E'' then
            (let sign = (case cs of x # _ \<Rightarrow> if x = CHR ''-'' \<or> x = CHR ''+'' then [x] else [] | [] \<Rightarrow> []);
                 ds = drop (length sign) cs
             in if takeWhile is_digit ds = [] then ([], s)
                else (e # sign @ takeWhile is_digit ds, dropWhile is_digit ds))
          else ([], s)
      | [] \<Rightarrow> ([], s))"

definition json_number :: "string \<Rightarrow> (json \<times> string) option" where
  "json_number s =
     (let neg = (case s of c # _ \<Rightarrow> c = CHR ''-'' | [] \<Rightarrow> False);
          body = (if neg then tl s else s)
      in case json_int_part body of
           None \<Rightarrow> None
         | Some (ds, r1) \<Rightarrow>
             (case json_fraction r1 of (f, r2) \<Rightarrow>
              case json_exponent r2 of (e, r3) \<Rightarrow>
                if f = [] \<and> e = []
                then Some (JInt (if neg then - int (digits_nat ds) else int (digits_nat ds)), r3)
                else Some (JFloat ((if neg then ''-'' else []) @ ds @ f @ e), r3)))"

definition json_literals :: "(string \<times> json) list" where
  "json_literals =
     [(''null'', JNull), (''true'', JBool True), (''false'', JBool False), (''NaN'', JFloat ''NaN''),
      (''Infinity'', JFloat ''Infinity''), (''-Infinity'', JFloat ''-Infinity'')]"

definition json_scalar :: "string \<Rightarrow> (json \<times> string) option" where
  "json_scalar s =
     (case List.find (\<lambda>(w, _). py_startswith s w) json_literals of
        Some (w, v) \<Rightarrow> Some (v, drop (length w) s)
      | None \<Rightarrow> json_number s)"

text \<open>
  Values, the elements of an array and the members of an object from the first one on. Each
  call reads at least one character before it calls itself twice, so the length of the text
  (doubled) is fuel enough.
\<close>

fun json_value :: "nat \<Rightarrow> string \<Rightarrow> (json \<times> string) option"
and json_elements :: "nat \<Rightarrow> string \<Rightarrow> (json list \<times> string) option"
and json_members :: "nat \<Rightarrow> string \<Rightarrow> ((string \<times> json) list \<times> string) option" where
  "json_value 0 s = None"
| "json_value (Suc n) s =
     (case skip_ws s of
        [] \<Rightarrow> None
      | c # cs \<Rightarrow>
          if c = CHR 0x22 then map_option (\<lambda>(x, r). (JStr x, r)) (json_string cs)
          else if c = CHR ''['' then
            (case skip_ws cs of
               [] \<Rightarrow> None
             | d # ds \<Rightarrow>
                 if d = CHR '']'' then Some (JArr [], ds)
                 else map_option (\<lambda>(xs, r). (JArr xs, r)) (json_elements n (d # ds)))
          else if c = CHR ''{'' then
            (case skip_ws cs of
               [] \<Rightarrow> None
             | d # ds \<Rightarrow>
                 if d = CHR ''}'' then Some (JObj [], ds)
                 else map_option (\<lambda>(ms, r). (JObj (fold (\<lambda>(k, v). AList.update k v) ms []), r))
                   (json_members n (d # ds)))
          else json_scalar (c # cs))"
| "json_elements 0 s = None"
| "json_elements (Suc n) s =
     (case json_value n s of
        None \<Rightarrow> None
      | Some (v, rest) \<Rightarrow>
          (case skip_ws rest of
             [] \<Rightarrow> None
           | d # ds \<Rightarrow>
               if d = CHR '','' then map_option (\<lambda>(xs, r). (v # xs, r)) (json_elements n ds)
               else if d = CHR '']'' then Some ([v], ds)
               else None))"
| "json_members 0 s = None"
| "json_members (Suc n) s =
     (case skip_ws s of
        [] \<Rightarrow> None
      | q # cs \<Rightarrow>
          if q \<noteq> CHR 0x22 then None
          else (case json_string cs of
              None \<Rightarrow> None
            | Some (k, r1) \<Rightarrow>
                (case skip_ws r1 of
                   [] \<Rightarrow> None
                 | e # es \<Rightarrow>
                     if e \<noteq> CHR '':'' then None
                     else (case json_value n es of
                         None \<Rightarrow> None
                       | Some (v, r2) \<Rightarrow>
                           (case skip_ws r2 of
                              [] \<Rightarrow> None
                            | d # ds \<Rightarrow>
                                if d = CHR '','' then
                                  map_option (\<lambda>(ms, r). ((k, v) # ms, r)) (json_members n ds)
                                else if d = CHR ''}'' then Some ([(k, v)], ds)
                                else None)))))"

definition json_loads :: "string \<Rightarrow> json result" where
  "json_loads s =
     (case json_value (2 * length s + 2) s of
        Some (v, rest) \<Rightarrow> (if skip_ws rest = [] then Inr v else Inl (ValueError ''Extra data''))
      | None \<Rightarrow> Inl (ValueError ''Expecting value''))"

text \<open>
  The list of strings that a column holds. A document that is no list of strings (no code here
  writes one) has no place in \<open>pc_transports\<close>: reading it is an error of the model.
\<close>

fun str_item :: "json \<Rightarrow> string result" where
  "str_item (JStr x) = Inr x"
| "str_item _ = Inl (TypeError ''not a string'')"

fun str_list :: "json \<Rightarrow> string list result" where
  "str_list (JArr xs) = map_result str_item xs"
| "str_list _ = Inl (TypeError ''not a list'')"

definition loads_strings :: "string \<Rightarrow> string list result" where
  "loads_strings s = res_bind (json_loads s) str_list"

subsection \<open>Round trip\<close>

lemma hex_val_hex_char: "n < 16 \<Longrightarrow> hex_val (hex_char n) = Some n"
  by (auto simp: hex_val_def hex_char_def Let_def)

lemma hex_val_0 [simp]: "hex_val (CHR ''0'') = Some 0"
  by (simp add: hex_val_def)

lemma hex4_code:
  assumes "n < 256"
  shows "hex4 (CHR ''0'') (CHR ''0'') (hex_char (n div 16)) (hex_char (n mod 16)) = Some (char_of n)"
proof -
  have "n div 16 < 16" "n mod 16 < 16" using assms by auto
  then show ?thesis by (simp add: hex4_def hex_val_hex_char)
qed

lemma of_char_less_256: "(of_char (c :: char) :: nat) < 256"
  by (metis of_char_mod_256 mod_less_divisor zero_less_numeral)

lemma json_string_escape: "json_string (json_escape c @ s) = cons_char c (json_string s)"
proof (cases "c \<in> {CHR 0x22, CHR 0x5C, CHR 0x0A, CHR 0x0D, CHR 0x09, CHR 0x0C, CHR 0x08}")
  case True
  then show ?thesis by (elim insertE emptyE) (simp_all add: json_escape_def json_unescape_def)
next
  case False
  show ?thesis
  proof (cases "32 \<le> (of_char c :: nat) \<and> (of_char c :: nat) \<le> 126")
    case True
    with False show ?thesis by (simp add: json_escape_def)
  next
    case out: False
    with False have "json_escape c = [CHR 0x5C, CHR ''u'', CHR ''0'', CHR ''0'',
        hex_char (of_char c div 16), hex_char (of_char c mod 16)]"
      by (simp add: json_escape_def Let_def)
    then show ?thesis using hex4_code [OF of_char_less_256 [of c]] by simp
  qed
qed

lemma json_string_quote:
  "json_string (concat (map json_escape x) @ CHR 0x22 # s) = Some (x, s)"
  by (induction x) (simp_all add: json_string_escape cons_char_def)

lemma skip_ws_quote [simp]: "skip_ws (json_quote x @ s) = json_quote x @ s"
  by (simp add: json_quote_def json_ws_def)

lemma json_value_quote: "json_value (Suc n) (json_quote x @ s) = Some (JStr x, s)"
  unfolding json_value.simps skip_ws_quote by (simp add: json_quote_def json_string_quote)

lemma json_value_space: "json_value n (CHR '' '' # s) = json_value n s"
  by (cases n) (simp_all add: json_ws_def)

lemma json_elements_space: "json_elements n (CHR '' '' # s) = json_elements n s"
  by (cases n) (simp_all add: json_value_space)

lemma json_elements_join:
  "xs \<noteq> [] \<Longrightarrow> length xs < n \<Longrightarrow>
   json_elements n (py_join '', '' (map json_quote xs) @ '']'' @ s) = Some (map JStr xs, s)"
proof (induction xs arbitrary: n)
  case (Cons x xs)
  note IH0 = Cons.IH
  from Cons.prems obtain m where n: "n = Suc (Suc m)" and m: "length xs < Suc m" by (cases n; cases "n - 1") auto
  show ?case
  proof (cases xs)
    case Nil
    then show ?thesis by (simp add: n json_value_quote json_ws_def del: json_value.simps)
  next
    case (Cons y ys)
    have IH: "json_elements (Suc m) (py_join '', '' (map json_quote xs) @ '']'' @ s) = Some (map JStr xs, s)"
      by (rule IH0) (use Cons m in simp_all)
    have split: "py_join '', '' (map json_quote (x # xs)) @ '']'' @ s =
        json_quote x @ CHR '','' # CHR '' '' # py_join '', '' (map json_quote xs) @ '']'' @ s"
      by (simp add: Cons)
    have "json_elements n (json_quote x @ CHR '','' # t) =
        map_option (\<lambda>(xs, r). (JStr x # xs, r)) (json_elements (Suc m) t)" for t
      unfolding n json_elements.simps(2) json_value_quote by (simp add: json_ws_def)
    then show ?thesis
      unfolding split by (simp only: json_elements_space IH) simp
  qed
qed simp

lemma py_join_length: "length xs \<le> length (py_join sep (map json_quote xs))"
  by (induction xs rule: py_join.induct [where ?P = "\<lambda>_. _"]) (auto simp: json_quote_def)

lemma str_items: "map_result str_item (map JStr xs) = Inr xs"
  by (induction xs) simp_all

lemma loads_strings_dumps [simp, py_str_simps]: "loads_strings (json_dumps xs) = Inr xs"
proof (cases xs)
  case Nil
  then show ?thesis
    by (simp add: loads_strings_def json_loads_def json_dumps_def json_ws_def eval_nat_numeral)
next
  case (Cons y ys)
  obtain t where t: "py_join '', '' (map json_quote xs) @ '']'' = CHR 0x22 # t"
    by (cases ys) (auto simp: Cons json_quote_def)
  have doc: "json_dumps xs = CHR ''['' # CHR 0x22 # t"
    unfolding json_dumps_def t by simp
  define n where "n = 2 * length (json_dumps xs) + 1"
  have "length xs < n"
    using py_join_length [of xs "'', ''"] by (simp add: n_def json_dumps_def)
  then have "json_elements n (CHR 0x22 # t) = Some (map JStr xs, [])"
    using json_elements_join [of xs n "[]"] unfolding t [symmetric] by (simp add: Cons)
  then have "json_value (Suc n) (json_dumps xs) = Some (JArr (map JStr xs), [])"
    unfolding doc json_value.simps(2) by (simp add: json_ws_def)
  then have "json_loads (json_dumps xs) = Inr (JArr (map JStr xs))"
    by (simp add: json_loads_def n_def del: json_value.simps)
  then show ?thesis by (simp add: loads_strings_def str_items)
qed

lemma json_dumps_not_empty [simp]: "json_dumps xs \<noteq> []"
  by (simp add: json_dumps_def)

end
