(* ===== verification/CredSqlite.thy ===== *)
theory CredSqlite
  imports CredentialStores SqliteConn Json
begin

section \<open>\<open>SQLiteCredentialStore\<close> (\<open>passkey_sqlite.py\<close>)\<close>

text \<open>
  The tables \<open>passkey_users\<close> and \<open>passkey_credentials\<close> with the columns and constraints of
  \<open>PASSKEY_SQLITE_SCHEMA\<close>, the row codecs, and every operation of the store as its statements
  on them. Ids and handles are base64url text, instants ISO text, transports a JSON text.
\<close>

subsection \<open>Rows and their codecs\<close>

record user_row =
  ur_user_id :: string
  ur_user_handle :: string
  ur_name :: string
  ur_display_name :: "string option"

record cred_row =
  cr_credential_id :: string
  cr_user_id :: string
  cr_public_key :: bytes
  cr_sign_count :: int
  cr_transports :: "string option"
  cr_device_type :: "string option"
  cr_backed_up :: "int option"
  cr_label :: "string option"
  cr_created_at :: string

record cred_db =
  cd_users :: "user_row list"
  cd_creds :: "cred_row list"

definition sqlite_bool :: "bool option \<Rightarrow> int option" where
  "sqlite_bool value = map_option (\<lambda>b. if b then 1 else 0) value"

definition sqlite_user :: "user_row \<Rightarrow> passkey_user result" where
  "sqlite_user w =
     res_bind (b64url_to_bytes (ur_user_handle w)) (\<lambda>h.
       Inr \<lparr>pu_user_id = ur_user_id w, pu_user_handle = h, pu_name = ur_name w,
            pu_display_name = ur_display_name w\<rparr>)"

definition sqlite_credential :: "cred_row \<Rightarrow> passkey_credential result" where
  "sqlite_credential w =
     res_bind (b64url_to_bytes (cr_credential_id w)) (\<lambda>cid.
     res_bind (if truthy (cr_transports w) then loads_strings (the (cr_transports w)) else Inr []) (\<lambda>transports.
     res_bind (fromisoformat (cr_created_at w)) (\<lambda>created.
       Inr \<lparr>pc_credential_id = cid, pc_user_id = cr_user_id w, pc_public_key = cr_public_key w,
            pc_sign_count = cr_sign_count w, pc_transports = transports,
            pc_device_type = cr_device_type w,
            pc_backed_up = map_option (\<lambda>n. n \<noteq> 0) (cr_backed_up w),
            pc_label = cr_label w, pc_created_at = created\<rparr>)))"

definition sqlite_user_values :: "passkey_user \<Rightarrow> user_row" where
  "sqlite_user_values u =
     \<lparr>ur_user_id = pu_user_id u, ur_user_handle = bytes_to_b64url (pu_user_handle u),
      ur_name = pu_name u, ur_display_name = pu_display_name u\<rparr>"

definition sqlite_credential_values :: "passkey_credential \<Rightarrow> cred_row" where
  "sqlite_credential_values c =
     \<lparr>cr_credential_id = bytes_to_b64url (pc_credential_id c), cr_user_id = pc_user_id c,
      cr_public_key = pc_public_key c, cr_sign_count = pc_sign_count c,
      cr_transports = Some (json_dumps (pc_transports c)), cr_device_type = pc_device_type c,
      cr_backed_up = sqlite_bool (pc_backed_up c), cr_label = pc_label c,
      cr_created_at = isoformat (pc_created_at c)\<rparr>"

text \<open>The \<open>sqlite3\<close> module binds only 64-bit integers; a larger one raises OverflowError.\<close>

definition sqlite_int_ok :: "int \<Rightarrow> bool" where
  "sqlite_int_ok n \<longleftrightarrow> - 9223372036854775808 \<le> n \<and> n \<le> 9223372036854775807"

subsection \<open>Statements\<close>

definition insert_user :: "user_row \<Rightarrow> (cred_db, unit) op" where
  "insert_user w db =
     (if ur_user_id w \<in> ur_user_id ` set (cd_users db)
      then (Inl (IntegrityError ''UNIQUE constraint failed: passkey_users.user_id''), db)
      else if ur_user_handle w \<in> ur_user_handle ` set (cd_users db)
      then (Inl (IntegrityError ''UNIQUE constraint failed: passkey_users.user_handle''), db)
      else (Inr (), db\<lparr>cd_users := cd_users db @ [w]\<rparr>))"

definition insert_cred :: "cred_row \<Rightarrow> (cred_db, unit) op" where
  "insert_cred w db =
     (if \<not> sqlite_int_ok (cr_sign_count w) then (Inl OverflowError, db)
      else if cr_credential_id w \<in> cr_credential_id ` set (cd_creds db)
      then (Inl (IntegrityError ''UNIQUE constraint failed: passkey_credentials.credential_id''), db)
      else if cr_user_id w \<notin> ur_user_id ` set (cd_users db)
      then (Inl (IntegrityError ''FOREIGN KEY constraint failed''), db)
      else (Inr (), db\<lparr>cd_creds := cd_creds db @ [w]\<rparr>))"

text \<open>An UPDATE of the rows that satisfy \<open>P\<close>, with its \<open>rowcount\<close>.\<close>

definition update_creds :: "(cred_row \<Rightarrow> bool) \<Rightarrow> (cred_row \<Rightarrow> cred_row) \<Rightarrow> cred_db \<Rightarrow> nat \<times> cred_db" where
  "update_creds P f db =
     (length (filter P (cd_creds db)),
      db\<lparr>cd_creds := map (\<lambda>w. if P w then f w else w) (cd_creds db)\<rparr>)"

subsection \<open>Operations\<close>

abbreviation sql_ownership_conflict :: exn where
  "sql_ownership_conflict \<equiv> PasskeyCredentialConflict ''passkey credential ownership conflict''"

definition save_body :: "passkey_user \<Rightarrow> passkey_credential \<Rightarrow> (cred_db, unit) op" where
  "save_body user credential db =
     (let old = select_by ur_user_id (pu_user_id user) (cd_users db);
          handle = select_by ur_user_handle (bytes_to_b64url (pu_user_handle user)) (cd_users db) in
      case (case old of None \<Rightarrow> Inr False
            | Some w \<Rightarrow> res_bind (sqlite_user w) (\<lambda>u. Inr (u \<noteq> user))) of
        Inl e \<Rightarrow> (Inl e, db)
      | Inr differs \<Rightarrow>
          (if differs \<or> (case handle of None \<Rightarrow> False | Some w \<Rightarrow> ur_user_id w \<noteq> pu_user_id user)
           then (Inl (PasskeyUserConflict ''passkey user ownership conflict''), db)
           else (case select_by cr_credential_id (bytes_to_b64url (pc_credential_id credential)) (cd_creds db) of
               Some w \<Rightarrow>
                 (case sqlite_credential w of
                    Inl e \<Rightarrow> (Inl e, db)
                  | Inr cur \<Rightarrow>
                      (if pc_user_id cur \<noteq> pc_user_id credential
                         \<or> pc_public_key cur \<noteq> pc_public_key credential
                       then (Inl sql_ownership_conflict, db) else (Inr (), db)))
             | None \<Rightarrow>
                 op_bind (if old = None then insert_user (sqlite_user_values user) else (\<lambda>db. (Inr (), db)))
                   (\<lambda>_. insert_cred (sqlite_credential_values credential)) db)))"

definition sql_save_registration :: "verified_registration \<Rightarrow> (cred_db, unit) op" where
  "sql_save_registration vr db =
     (let user = vr_user vr; credential = vr_credential vr in
      if pc_user_id credential \<noteq> pu_user_id user then (Inl sql_ownership_conflict, db)
      else path_call True (save_body user credential) db)"

definition opt_user :: "user_row option \<Rightarrow> passkey_user option result" where
  "opt_user r = (case r of None \<Rightarrow> Inr None | Some w \<Rightarrow> map_sum id Some (sqlite_user w))"

definition opt_cred :: "cred_row option \<Rightarrow> passkey_credential option result" where
  "opt_cred r = (case r of None \<Rightarrow> Inr None | Some w \<Rightarrow> map_sum id Some (sqlite_credential w))"

definition sql_get_user :: "string \<Rightarrow> cred_db \<Rightarrow> passkey_user option result" where
  "sql_get_user uid db = opt_user (select_by ur_user_id uid (cd_users db))"

definition sql_get_user_by_handle :: "bytes \<Rightarrow> cred_db \<Rightarrow> passkey_user option result" where
  "sql_get_user_by_handle h db =
     opt_user (select_by ur_user_handle (bytes_to_b64url h) (cd_users db))"

text \<open>\<open>ORDER BY created_at,credential_id\<close>: two stable sorts, the main key last.\<close>

definition sql_list_credentials :: "string \<Rightarrow> cred_db \<Rightarrow> passkey_credential list result" where
  "sql_list_credentials uid db =
     map_result sqlite_credential
       (sort_key cr_created_at (sort_key cr_credential_id
         (filter (\<lambda>w. cr_user_id w = uid) (cd_creds db))))"

definition sql_get_credential :: "bytes \<Rightarrow> cred_db \<Rightarrow> passkey_credential option result" where
  "sql_get_credential cid db =
     opt_cred (select_by cr_credential_id (bytes_to_b64url cid) (cd_creds db))"

definition cas_body :: "bytes \<Rightarrow> int \<Rightarrow> int \<Rightarrow> string option \<Rightarrow> bool option
    \<Rightarrow> (cred_db, passkey_credential) op" where
  "cas_body cid expected new_count device backed db =
     (let key = bytes_to_b64url cid in
      case select_by cr_credential_id key (cd_creds db) of
        None \<Rightarrow> (Inl (CredentialNotFound ''unknown passkey credential''), db)
      | Some w \<Rightarrow>
          (case sqlite_credential w of
             Inl e \<Rightarrow> (Inl e, db)
           | Inr cur \<Rightarrow>
               (if (expected \<noteq> 0 \<and> pc_sign_count cur \<noteq> expected) \<or> new_count < pc_sign_count cur
                then (Inl (CredentialCounterConflict ''credential counter changed concurrently''), db)
                else (let count = max (pc_sign_count cur) new_count in
                  if \<not> (sqlite_int_ok count \<and> sqlite_int_ok (pc_sign_count cur) \<and> sqlite_int_ok expected)
                  then (Inl OverflowError, db)
                  else (case update_creds
                      (\<lambda>v. cr_credential_id v = key \<and> (cr_sign_count v = pc_sign_count cur \<or> expected = 0))
                      (\<lambda>v. v\<lparr>cr_sign_count := count, cr_device_type := device,
                              cr_backed_up := sqlite_bool backed\<rparr>) db of
                    (updated, db') \<Rightarrow>
                      (if updated = 0
                       then (Inl (CredentialCounterConflict ''credential counter changed concurrently''), db')
                       else (case select_by cr_credential_id key (cd_creds db') of
                           None \<Rightarrow> (Inl (TypeError ''row is None''), db')
                         | Some v \<Rightarrow> (sqlite_credential v, db'))))))))"

definition sql_cas :: "bytes \<Rightarrow> int \<Rightarrow> int \<Rightarrow> string option \<Rightarrow> bool option
    \<Rightarrow> (cred_db, passkey_credential) op" where
  "sql_cas cid expected new_count device backed =
     path_call True (cas_body cid expected new_count device backed)"

definition label_body :: "bytes \<Rightarrow> string \<Rightarrow> string option \<Rightarrow> (cred_db, passkey_credential option) op" where
  "label_body cid uid label db =
     (let key = bytes_to_b64url cid;
          hit = (\<lambda>v. cr_credential_id v = key \<and> cr_user_id v = uid) in
      case update_creds hit (\<lambda>v. v\<lparr>cr_label := label\<rparr>) db of
        (n, db') \<Rightarrow>
          (if n \<noteq> 1 then (Inr None, db')
           else (opt_cred (List.find hit (cd_creds db')), db')))"

definition sql_label :: "bytes \<Rightarrow> string \<Rightarrow> string option \<Rightarrow> (cred_db, passkey_credential option) op" where
  "sql_label cid uid label = path_call True (label_body cid uid label)"

text \<open>
  The extra UPDATE of the external mode sets a column to itself: it takes the write lock and
  leaves the rows as they are.
\<close>

definition delete_body :: "tx_mode \<Rightarrow> bytes \<Rightarrow> string option \<Rightarrow> bool \<Rightarrow> (cred_db, bool) op" where
  "delete_body mode cid uid require_remaining db0 =
     (let key = bytes_to_b64url cid;
          hit = (\<lambda>v. cr_credential_id v = key \<and> (uid = None \<or> uid = Some (cr_user_id v)));
          db = (if require_remaining \<and> mode = External
                then snd (update_creds hit (\<lambda>v. v\<lparr>cr_credential_id := cr_credential_id v\<rparr>) db0) else db0) in
      case List.find hit (cd_creds db) of
        None \<Rightarrow> (Inr False, db)
      | Some w \<Rightarrow>
          (if require_remaining
             \<and> length (filter (\<lambda>v. cr_user_id v = cr_user_id w) (cd_creds db)) \<le> 1
           then (Inr False, db)
           else (Inr (0 < length (filter hit (cd_creds db))),
                 db\<lparr>cd_creds := filter (\<lambda>v. \<not> hit v) (cd_creds db)\<rparr>)))"

definition sql_delete :: "bytes \<Rightarrow> string option \<Rightarrow> bool \<Rightarrow> (cred_db, bool) op" where
  "sql_delete cid uid require_remaining = path_call True (delete_body Operation cid uid require_remaining)"

subsection \<open>The tables as encoded lists\<close>

lemma sqlite_user_values [simp]: "sqlite_user (sqlite_user_values u) = Inr u"
  by (simp add: sqlite_user_def sqlite_user_values_def)

definition cred_repr :: "passkey_credential \<Rightarrow> bool" where
  "cred_repr c \<longleftrightarrow> valid_datetime (pc_created_at c) \<and> sqlite_int_ok (pc_sign_count c)"

lemma sqlite_credential_values:
  assumes "valid_datetime (pc_created_at c)"
  shows "sqlite_credential (sqlite_credential_values c) = Inr c"
proof (cases "pc_backed_up c")
  case None
  with assms show ?thesis
    by (simp add: sqlite_credential_def sqlite_credential_values_def sqlite_bool_def fromisoformat_text)
next
  case (Some b)
  with assms show ?thesis
    by (cases b) (simp_all add: sqlite_credential_def sqlite_credential_values_def sqlite_bool_def
        fromisoformat_text)
qed

lemma credential_row_roundtrip: "cred_repr c \<Longrightarrow> sqlite_credential (sqlite_credential_values c) = Inr c"
  by (simp add: cred_repr_def sqlite_credential_values)

definition db_of :: "passkey_user list \<Rightarrow> passkey_credential list \<Rightarrow> cred_db" where
  "db_of us cs = \<lparr>cd_users = map sqlite_user_values us, cd_creds = map sqlite_credential_values cs\<rparr>"

definition lists_ok :: "passkey_user list \<Rightarrow> passkey_credential list \<Rightarrow> bool" where
  "lists_ok us cs \<longleftrightarrow>
     distinct (map pu_user_id us) \<and> distinct (map pu_user_handle us) \<and> distinct (map pc_credential_id cs)
     \<and> (\<forall>c \<in> set cs. cred_repr c \<and> pc_user_id c \<in> pu_user_id ` set us)"

definition cred_db_ok :: "cred_db \<Rightarrow> bool" where
  "cred_db_ok db \<longleftrightarrow> (\<exists>us cs. db = db_of us cs \<and> lists_ok us cs)"

lemma cred_db_okE:
  assumes "cred_db_ok db"
  obtains us cs where "db = db_of us cs" "lists_ok us cs"
  using assms by (auto simp: cred_db_ok_def)

fun decoded :: "'a option result \<Rightarrow> 'a option" where
  "decoded (Inr x) = x"
| "decoded (Inl _) = None"

definition sql_cred_abs :: "cred_db \<Rightarrow> cred_spec" where
  "sql_cred_abs db =
     \<lparr>sp_users = (\<lambda>uid. decoded (sql_get_user uid db)),
      sp_handles = (\<lambda>h. map_option ur_user_id (select_by ur_user_handle (bytes_to_b64url h) (cd_users db))),
      sp_creds = (\<lambda>cid. decoded (sql_get_credential cid db))\<rparr>"

definition lists_abs :: "passkey_user list \<Rightarrow> passkey_credential list \<Rightarrow> cred_spec" where
  "lists_abs us cs =
     \<lparr>sp_users = (\<lambda>uid. select_by pu_user_id uid us),
      sp_handles = (\<lambda>h. map_option pu_user_id (select_by pu_user_handle h us)),
      sp_creds = (\<lambda>cid. select_by pc_credential_id cid cs)\<rparr>"

lemma lists_abs_simps [simp]:
  "sp_users (lists_abs us cs) uid = select_by pu_user_id uid us"
  "sp_handles (lists_abs us cs) h = map_option pu_user_id (select_by pu_user_handle h us)"
  "sp_creds (lists_abs us cs) cid = select_by pc_credential_id cid cs"
  by (simp_all add: lists_abs_def)

text \<open>The statements on encoded tables, in terms of the lists.\<close>

lemma select_user [simp]:
  "select_by ur_user_id uid (cd_users (db_of us cs)) = map_option sqlite_user_values (select_by pu_user_id uid us)"
  unfolding db_of_def cred_db.simps
  by (rule select_by_map_id) (simp add: sqlite_user_values_def)

lemma select_handle [simp]:
  "select_by ur_user_handle (bytes_to_b64url h) (cd_users (db_of us cs)) =
   map_option sqlite_user_values (select_by pu_user_handle h us)"
  unfolding db_of_def cred_db.simps
  by (rule select_by_map) (simp_all add: sqlite_user_values_def inj_def)

lemma select_cred [simp]:
  "select_by cr_credential_id (bytes_to_b64url cid) (cd_creds (db_of us cs)) =
   map_option sqlite_credential_values (select_by pc_credential_id cid cs)"
  unfolding db_of_def cred_db.simps
  by (rule select_by_map) (simp_all add: sqlite_credential_values_def inj_def)

lemma selected_repr: "lists_ok us cs \<Longrightarrow> select_by pc_credential_id cid cs = Some c \<Longrightarrow> cred_repr c"
  using select_by_SomeD by (fastforce simp: lists_ok_def)

lemma opt_user_select [simp]: "opt_user (map_option sqlite_user_values r) = Inr r"
  by (cases r) (simp_all add: opt_user_def)

lemma opt_cred_select:
  "lists_ok us cs \<Longrightarrow>
   opt_cred (map_option sqlite_credential_values (select_by pc_credential_id cid cs)) =
     Inr (select_by pc_credential_id cid cs)"
  using selected_repr [of us cs cid]
  by (cases "select_by pc_credential_id cid cs") (simp_all add: opt_cred_def credential_row_roundtrip)

lemma sql_cred_abs_db_of: "lists_ok us cs \<Longrightarrow> sql_cred_abs (db_of us cs) = lists_abs us cs"
  by (simp add: sql_cred_abs_def lists_abs_def sql_get_user_def sql_get_credential_def opt_cred_select
      option.map_comp comp_def sqlite_user_values_def [THEN arg_cong [where f = ur_user_id], simplified])

lemma lists_abs_wf: "lists_ok us cs \<Longrightarrow> spec_wf (lists_abs us cs)"
proof -
  assume ok: "lists_ok us cs"
  then have d: "distinct (map pu_user_id us)" "distinct (map pu_user_handle us)" "distinct (map pc_credential_id cs)"
    and owner: "\<And>c. c \<in> set cs \<Longrightarrow> pc_user_id c \<in> pu_user_id ` set us"
    by (auto simp: lists_ok_def)
  have "dom (\<lambda>cid. select_by pc_credential_id cid cs) \<subseteq> pc_credential_id ` set cs"
    using select_by_SomeD by fastforce
  then have "finite (dom (\<lambda>cid. select_by pc_credential_id cid cs))" by (rule finite_subset) simp
  moreover have "dom (sp_creds (lists_abs us cs)) = dom (\<lambda>cid. select_by pc_credential_id cid cs)"
    by (simp add: dom_def)
  moreover have "select_by pu_user_id (pc_user_id c) us \<noteq> None" if "c \<in> set cs" for c
    using owner [OF that] by (simp add: select_by_None)
  ultimately show ?thesis
    unfolding spec_wf_def by (auto simp: select_by_Some [OF d(1)] select_by_Some [OF d(2)] select_by_Some [OF d(3)])
qed

subsection \<open>Each operation is the abstract one\<close>

lemma insert_user_db_of:
  "pu_user_id u \<notin> pu_user_id ` set us \<Longrightarrow> pu_user_handle u \<notin> pu_user_handle ` set us \<Longrightarrow>
   insert_user (sqlite_user_values u) (db_of us cs) = (Inr (), db_of (us @ [u]) cs)"
  by (auto simp: insert_user_def db_of_def sqlite_user_values_def image_image image_iff)

lemma insert_cred_db_of:
  "cred_repr c \<Longrightarrow> pc_credential_id c \<notin> pc_credential_id ` set cs \<Longrightarrow> pc_user_id c \<in> pu_user_id ` set us \<Longrightarrow>
   insert_cred (sqlite_credential_values c) (db_of us cs) = (Inr (), db_of us (cs @ [c]))"
  by (auto simp: insert_cred_def db_of_def sqlite_credential_values_def sqlite_user_values_def
      image_image image_iff cred_repr_def)

definition sql_reg_ok :: "verified_registration \<Rightarrow> bool" where
  "sql_reg_ok vr \<longleftrightarrow> cred_repr (vr_credential vr)"

lemma lists_ok_add:
  assumes "lists_ok us cs" and "cred_repr c" and "pc_credential_id c \<notin> pc_credential_id ` set cs"
    and "pc_user_id c \<in> pu_user_id ` set us"
  shows "lists_ok us (cs @ [c])"
  using assms by (auto simp: lists_ok_def)

lemma lists_ok_add_user:
  assumes "lists_ok us cs" and "pu_user_id u \<notin> pu_user_id ` set us" and "pu_user_handle u \<notin> pu_user_handle ` set us"
  shows "lists_ok (us @ [u]) cs"
  using assms by (auto simp: lists_ok_def)

lemma select_by_snoc:
  "key x \<notin> key ` set xs \<Longrightarrow> (\<lambda>k. select_by key k (xs @ [x])) = (\<lambda>k. select_by key k xs)(key x \<mapsto> x)"
  by (rule ext) (auto simp: select_by_append select_by_Cons select_by_None [symmetric] split: option.split)

lemma user_row_key [simp]: "ur_user_id (sqlite_user_values v) = pu_user_id v"
  by (simp add: sqlite_user_values_def)

text \<open>The specification after a registration of a new credential.\<close>

abbreviation spec_added :: "passkey_user \<Rightarrow> passkey_credential \<Rightarrow> cred_spec \<Rightarrow> cred_spec" where
  "spec_added u c st \<equiv>
     \<lparr>sp_users = (sp_users st)(pu_user_id u \<mapsto> u),
      sp_handles = (sp_handles st)(pu_user_handle u \<mapsto> pu_user_id u),
      sp_creds = (sp_creds st)(pc_credential_id c \<mapsto> c)\<rparr>"

lemma lists_abs_added:
  assumes "pc_credential_id c \<notin> pc_credential_id ` set cs"
  shows "pu_user_id u \<notin> pu_user_id ` set us \<Longrightarrow> pu_user_handle u \<notin> pu_user_handle ` set us \<Longrightarrow>
      lists_abs (us @ [u]) (cs @ [c]) = spec_added u c (lists_abs us cs)"
    and "select_by pu_user_id (pu_user_id u) us = Some u \<Longrightarrow> select_by pu_user_handle (pu_user_handle u) us = Some u \<Longrightarrow>
      lists_abs us (cs @ [c]) = spec_added u c (lists_abs us cs)"
  using select_by_snoc [of pu_user_handle u us] select_by_snoc [of pu_user_id u us] select_by_snoc [OF assms]
  by (auto simp: lists_abs_def fun_eq_iff)

text \<open>A user that is not stored under its id is not stored under its handle either.\<close>

lemma new_user_new_handle:
  assumes "select_by pu_user_id (pu_user_id u) us = None"
    and "map_option pu_user_id (select_by pu_user_handle (pu_user_handle u) us) \<in> {None, Some (pu_user_id u)}"
  shows "select_by pu_user_handle (pu_user_handle u) us = None"
proof (rule ccontr)
  assume "select_by pu_user_handle (pu_user_handle u) us \<noteq> None"
  then obtain v where "v \<in> set us" "pu_user_id v = pu_user_id u"
    using assms(2) by (auto dest: select_by_SomeD)
  moreover have "pu_user_id u \<notin> pu_user_id ` set us" using assms(1) by (simp add: select_by_None)
  ultimately show False by (metis imageI)
qed

lemma save_body_new:
  assumes ok: "lists_ok us cs" and owner: "pc_user_id c = pu_user_id u" and repr: "cred_repr c"
    and user: "select_by pu_user_id (pu_user_id u) us \<in> {None, Some u}
      \<and> map_option pu_user_id (select_by pu_user_handle (pu_user_handle u) us) \<in> {None, Some (pu_user_id u)}"
    and fresh: "select_by pc_credential_id (pc_credential_id c) cs = None"
  shows "\<exists>us'. save_body u c (db_of us cs) = (Inr (), db_of us' (cs @ [c])) \<and> lists_ok us' (cs @ [c])
    \<and> lists_abs us' (cs @ [c]) = spec_added u c (lists_abs us cs)"
proof -
  have new: "pc_credential_id c \<notin> pc_credential_id ` set cs" using fresh by (simp add: select_by_None)
  show ?thesis
  proof (cases "select_by pu_user_id (pu_user_id u) us")
    case None
    note noh = new_user_new_handle [OF None user [THEN conjunct2]]
    have u: "pu_user_id u \<notin> pu_user_id ` set us" "pu_user_handle u \<notin> pu_user_handle ` set us"
      using None noh by (simp_all add: select_by_None)
    have own: "pc_user_id c \<in> pu_user_id ` set (us @ [u])" using owner by simp
    have "save_body u c (db_of us cs) = (Inr (), db_of (us @ [u]) (cs @ [c]))"
      by (simp add: save_body_def Let_def None noh fresh op_bind_def
          insert_user_db_of [OF u] insert_cred_db_of [OF repr new own])
    then show ?thesis
      using lists_ok_add [OF lists_ok_add_user [OF ok u] repr new own] lists_abs_added(1) [OF new u] by blast
  next
    case (Some v)
    with user have v: "select_by pu_user_id (pu_user_id u) us = Some u" by simp
    then have mem: "u \<in> set us" by (rule select_by_SomeD [THEN conjunct1])
    then have h: "select_by pu_user_handle (pu_user_handle u) us = Some u"
      using ok by (simp add: lists_ok_def select_by_Some)
    have own: "pc_user_id c \<in> pu_user_id ` set us" using owner mem by simp
    have "save_body u c (db_of us cs) = (Inr (), db_of us (cs @ [c]))"
      by (simp add: save_body_def Let_def fresh v h op_bind_def insert_cred_db_of [OF repr new own])
    then show ?thesis using lists_ok_add [OF ok repr new own] lists_abs_added(2) [OF new v h] by blast
  qed
qed

text \<open>
  A call that runs a body in a transaction refines its specification when the body does: on success the
  new lists are well formed and stand for the new state, an error leaves both as they were.
\<close>

lemma path_call_step:
  assumes "lists_ok us cs" and "body (db_of us cs) = (r, db_of us' cs')"
    and "is_ok r \<Longrightarrow> lists_ok us' cs' \<and> st = lists_abs us' cs'" and "\<not> is_ok r \<Longrightarrow> st = lists_abs us cs"
  shows "cred_db_ok (snd (path_call True body (db_of us cs)))
    \<and> map_prod (map_sum bare id) sql_cred_abs (path_call True body (db_of us cs)) = (map_sum bare id r, st)"
  using assms by (cases r) (auto simp: path_call_mutation cred_db_ok_def sql_cred_abs_db_of)

abbreviation same_user :: "passkey_user list \<Rightarrow> passkey_user \<Rightarrow> bool" where
  "same_user us u \<equiv> select_by pu_user_id (pu_user_id u) us \<in> {None, Some u}
     \<and> map_option pu_user_id (select_by pu_user_handle (pu_user_handle u) us) \<in> {None, Some (pu_user_id u)}"

lemma save_body_conflict:
  "\<not> same_user us u \<Longrightarrow>
   save_body u c (db_of us cs) = (Inl (PasskeyUserConflict ''passkey user ownership conflict''), db_of us cs)"
  by (auto simp: save_body_def Let_def split: option.splits)

lemma save_body_existing:
  assumes "lists_ok us cs" and "same_user us u" and "select_by pc_credential_id (pc_credential_id c) cs = Some ex"
  shows "save_body u c (db_of us cs) =
    (if pc_user_id ex \<noteq> pc_user_id c \<or> pc_public_key ex \<noteq> pc_public_key c
     then Inl sql_ownership_conflict else Inr (), db_of us cs)"
  using assms(2,3) credential_row_roundtrip [OF selected_repr [OF assms(1,3)]]
  by (auto simp: save_body_def Let_def split: option.splits)

lemma sql_save_step:
  assumes ok: "lists_ok us cs" and repr: "sql_reg_ok vr"
  shows "cred_db_ok (snd (sql_save_registration vr (db_of us cs)))
    \<and> map_prod (map_sum bare id) sql_cred_abs (sql_save_registration vr (db_of us cs)) =
      spec_save vr (lists_abs us cs)"
proof (cases "pc_user_id (vr_credential vr) = pu_user_id (vr_user vr)")
  case False
  then show ?thesis using ok
    by (auto simp: sql_save_registration_def spec_save_def cred_db_ok_def sql_cred_abs_db_of)
next
  case own: True
  let ?u = "vr_user vr" and ?c = "vr_credential vr"
  have sql: "sql_save_registration vr (db_of us cs) = path_call True (save_body ?u ?c) (db_of us cs)"
    using own by (simp add: sql_save_registration_def)
  note step = path_call_step [where body = "save_body ?u ?c", OF ok]
  show ?thesis
  proof (cases "same_user us ?u")
    case False
    have "spec_save vr (lists_abs us cs) = (Inl (PasskeyUserConflict []), lists_abs us cs)"
      unfolding spec_save_def Let_def lists_abs_simps using own False by auto
    then show ?thesis unfolding sql using step [OF save_body_conflict [OF False]] by simp
  next
    case user: True
    show ?thesis
    proof (cases "select_by pc_credential_id (pc_credential_id ?c) cs")
      case None
      obtain us' where run: "save_body ?u ?c (db_of us cs) = (Inr (), db_of us' (cs @ [?c]))"
          "lists_ok us' (cs @ [?c])" and ab: "lists_abs us' (cs @ [?c]) = spec_added ?u ?c (lists_abs us cs)"
        using save_body_new [OF ok own repr [unfolded sql_reg_ok_def] user None] by blast
      have "spec_save vr (lists_abs us cs) = (Inr (), lists_abs us' (cs @ [?c]))"
        unfolding ab spec_save_def Let_def lists_abs_simps using own user None by auto
      then show ?thesis unfolding sql using step [OF run(1)] run(2) by simp
    next
      case (Some ex)
      have "spec_save vr (lists_abs us cs) =
          (if pc_user_id ex \<noteq> pc_user_id ?c \<or> pc_public_key ex \<noteq> pc_public_key ?c
           then Inl (PasskeyCredentialConflict []) else Inr (), lists_abs us cs)"
        unfolding spec_save_def Let_def lists_abs_simps using own user Some by auto
      then show ?thesis unfolding sql using step [OF save_body_existing [OF ok user Some]] ok by auto
    qed
  qed
qed

subsection \<open>Updates and deletions\<close>

text \<open>An UPDATE of one credential, addressed by its id.\<close>

lemma lists_ok_update:
  assumes "lists_ok us cs" and "\<And>c. pc_credential_id (f c) = pc_credential_id c"
    and "\<And>c. pc_user_id (f c) = pc_user_id c" and "\<And>c. c \<in> set cs \<Longrightarrow> P c \<Longrightarrow> cred_repr (f c)"
  shows "lists_ok us (map (\<lambda>c. if P c then f c else c) cs)"
proof -
  have keys: "map pc_credential_id (map (\<lambda>c. if P c then f c else c) cs) = map pc_credential_id cs"
    using assms(2) by simp
  show ?thesis unfolding lists_ok_def keys using assms by (auto simp: lists_ok_def)
qed

lemma lists_abs_update:
  assumes "select_by pc_credential_id cid cs = Some c" and "\<And>c. pc_credential_id (f c) = pc_credential_id c"
  shows "lists_abs us (map (\<lambda>c. if pc_credential_id c = cid then f c else c) cs) =
    (lists_abs us cs)\<lparr>sp_creds := (sp_creds (lists_abs us cs))(cid \<mapsto> f c)\<rparr>"
proof -
  let ?g = "\<lambda>c. if pc_credential_id c = cid then f c else c"
  have "select_by pc_credential_id k (map ?g cs) = map_option ?g (select_by pc_credential_id k cs)" for k
    by (rule select_by_map_id) (simp add: assms(2))
  then have "select_by pc_credential_id k (map ?g cs) =
      ((\<lambda>k. select_by pc_credential_id k cs)(cid \<mapsto> f c)) k" for k
    using assms(1) by (auto simp: option.map_comp split: option.split dest: select_by_SomeD
        intro!: option.map_ident_strong)
  then show ?thesis by (simp add: lists_abs_def fun_eq_iff)
qed

lemma update_creds_db_of:
  assumes "\<And>c. c \<in> set cs \<Longrightarrow> P (sqlite_credential_values c) \<longleftrightarrow> Q c"
    and "\<And>c. f (sqlite_credential_values c) = sqlite_credential_values (g c)"
  shows "update_creds P f (db_of us cs) =
    (length (filter Q cs), db_of us (map (\<lambda>c. if Q c then g c else c) cs))"
proof -
  have "filter (P \<circ> sqlite_credential_values) cs = filter Q cs"
    using assms(1) by (intro filter_cong) simp_all
  moreover have "(\<lambda>c. if P (sqlite_credential_values c) then f (sqlite_credential_values c) else sqlite_credential_values c) c
      = sqlite_credential_values (if Q c then g c else c)" if "c \<in> set cs" for c
    using assms that by simp
  ultimately show ?thesis
    by (simp add: update_creds_def db_of_def filter_map)
qed

lemma cred_row_key [simp]:
  "cr_credential_id (sqlite_credential_values c) = bytes_to_b64url (pc_credential_id c)"
  "cr_user_id (sqlite_credential_values c) = pc_user_id c"
  "cr_sign_count (sqlite_credential_values c) = pc_sign_count c"
  by (simp_all add: sqlite_credential_values_def)

lemma only_selected:
  assumes "lists_ok us cs" and "select_by pc_credential_id cid cs = Some c" and "c' \<in> set cs"
  shows "pc_credential_id c' = cid \<longleftrightarrow> c' = c"
proof -
  have d: "distinct (map pc_credential_id cs)" using assms(1) by (simp add: lists_ok_def)
  show ?thesis using select_by_Some [OF d, of cid c'] assms(2,3) by auto
qed

lemma cas_body_refused:
  assumes "lists_ok us cs" and "select_by pc_credential_id cid cs = Some c"
    and "(ex \<noteq> 0 \<and> pc_sign_count c \<noteq> ex) \<or> n < pc_sign_count c"
  shows "\<exists>e. cas_body cid ex n dt bu (db_of us cs) = (Inl e, db_of us cs) \<and> bare e = CredentialCounterConflict []"
  using assms(2,3) credential_row_roundtrip [OF selected_repr [OF assms(1,2)]]
  by (auto simp: cas_body_def Let_def)

text \<open>A login that is accepted replaces one credential of the list.\<close>

abbreviation logged_in :: "passkey_credential \<Rightarrow> int \<Rightarrow> string option \<Rightarrow> bool option \<Rightarrow> passkey_credential \<Rightarrow> passkey_credential" where
  "logged_in c n dt bu \<equiv> \<lambda>c'. c'\<lparr>pc_sign_count := max (pc_sign_count c) n, pc_device_type := dt, pc_backed_up := bu\<rparr>"

lemma cas_body_accepted:
  fixes dt :: "string option" and bu :: "bool option"
  assumes ok: "lists_ok us cs" and ints: "sqlite_int_ok ex" "sqlite_int_ok n"
    and c: "select_by pc_credential_id cid cs = Some c"
    and count: "\<not> ((ex \<noteq> 0 \<and> pc_sign_count c \<noteq> ex) \<or> n < pc_sign_count c)"
  defines "cs' \<equiv> map (\<lambda>c'. if pc_credential_id c' = cid then logged_in c n dt bu c' else c') cs"
  shows "cas_body cid ex n dt bu (db_of us cs) = (Inr (logged_in c n dt bu c), db_of us cs')"
    and "lists_ok us cs'"
    and "lists_abs us cs' = (lists_abs us cs)\<lparr>sp_creds := (sp_creds (lists_abs us cs))(cid \<mapsto> logged_in c n dt bu c)\<rparr>"
proof -
  note repr = selected_repr [OF ok c]
  have mx: "sqlite_int_ok (max (pc_sign_count c) n)" "sqlite_int_ok (pc_sign_count c)"
    using repr ints by (auto simp: cred_repr_def max_def)
  show lok: "lists_ok us cs'" unfolding cs'_def
    by (rule lists_ok_update [OF ok]) (use ok mx in \<open>auto simp: lists_ok_def cred_repr_def\<close>)
  show ab: "lists_abs us cs' = (lists_abs us cs)\<lparr>sp_creds := (sp_creds (lists_abs us cs))(cid \<mapsto> logged_in c n dt bu c)\<rparr>"
    unfolding cs'_def by (rule lists_abs_update [OF c]) simp
  have only: "c' \<in> set cs \<Longrightarrow> pc_credential_id c' = cid \<longleftrightarrow> c' = c" for c' using only_selected [OF ok c] .
  have upd: "update_creds
      (\<lambda>v. cr_credential_id v = bytes_to_b64url cid \<and> (cr_sign_count v = pc_sign_count c \<or> ex = 0))
      (\<lambda>v. v\<lparr>cr_sign_count := max (pc_sign_count c) n, cr_device_type := dt, cr_backed_up := sqlite_bool bu\<rparr>)
      (db_of us cs) = (length (filter (\<lambda>c'. pc_credential_id c' = cid) cs), db_of us cs')"
    unfolding cs'_def by (rule update_creds_db_of) (use only in \<open>auto simp: sqlite_credential_values_def\<close>)
  have hits: "filter (\<lambda>c'. pc_credential_id c' = cid) cs \<noteq> []"
    using select_by_SomeD [OF c] by (auto simp: filter_empty_conv)
  have sel: "select_by pc_credential_id cid cs' = Some (logged_in c n dt bu c)"
    using arg_cong [OF ab, of "\<lambda>st. sp_creds st cid"] by simp
  show "cas_body cid ex n dt bu (db_of us cs) = (Inr (logged_in c n dt bu c), db_of us cs')"
    unfolding cas_body_def Let_def select_cred c option.map option.case
      credential_row_roundtrip [OF repr] sum.case if_not_P [OF count] upd prod.case sel
      credential_row_roundtrip [OF selected_repr [OF lok sel]]
    using mx ints hits by simp
qed

lemma sql_cas_step:
  assumes ok: "lists_ok us cs" and ints: "sqlite_int_ok ex" "sqlite_int_ok n"
  shows "cred_db_ok (snd (sql_cas cid ex n dt bu (db_of us cs)))
    \<and> map_prod (map_sum bare id) sql_cred_abs (sql_cas cid ex n dt bu (db_of us cs)) =
      spec_cas cid ex n dt bu (lists_abs us cs)"
proof (cases "select_by pc_credential_id cid cs")
  case None
  with ok show ?thesis
    by (auto simp: sql_cas_def path_call_mutation cas_body_def Let_def spec_cas_def cred_db_ok_def sql_cred_abs_db_of)
next
  case (Some c)
  show ?thesis
  proof (cases "(ex \<noteq> 0 \<and> pc_sign_count c \<noteq> ex) \<or> n < pc_sign_count c")
    case True
    obtain e where e: "cas_body cid ex n dt bu (db_of us cs) = (Inl e, db_of us cs)" "bare e = CredentialCounterConflict []"
      using cas_body_refused [OF ok Some True] by blast
    have "spec_cas cid ex n dt bu (lists_abs us cs) = (Inl (CredentialCounterConflict []), lists_abs us cs)"
      using Some True by (auto simp: spec_cas_def)
    then show ?thesis unfolding sql_cas_def using path_call_step [where body = "cas_body cid ex n dt bu", OF ok e(1)] e(2) by simp
  next
    case False
    note run = cas_body_accepted [OF ok ints Some False, where dt = dt and bu = bu]
    have "spec_cas cid ex n dt bu (lists_abs us cs) = (Inr (logged_in c n dt bu c),
        (lists_abs us cs)\<lparr>sp_creds := (sp_creds (lists_abs us cs))(cid \<mapsto> logged_in c n dt bu c)\<rparr>)"
      using Some False by (auto simp: spec_cas_def Let_def)
    then show ?thesis unfolding sql_cas_def using path_call_step [where body = "cas_body cid ex n dt bu", OF ok run(1)] run(2,3) by simp
  qed
qed

lemma find_hit:
  assumes "lists_ok us cs" and "select_by pc_credential_id cid cs = Some c" and "pc_user_id c = uid"
  shows "List.find (\<lambda>v. cr_credential_id v = bytes_to_b64url cid \<and> cr_user_id v = uid) (cd_creds (db_of us cs)) =
    Some (sqlite_credential_values c)"
proof -
  have d: "distinct (map pc_credential_id cs)" using assms(1) by (simp add: lists_ok_def)
  show ?thesis
    using find_key [OF d, of cid "\<lambda>c. pc_user_id c = uid"] assms(2,3) by (simp add: db_of_def find_map)
qed

lemma label_body_step:
  assumes ok: "lists_ok us cs"
  shows "\<exists>cs'. label_body cid uid l (db_of us cs) = (fst (spec_label cid uid l (lists_abs us cs)), db_of us cs')
    \<and> lists_ok us cs' \<and> lists_abs us cs' = snd (spec_label cid uid l (lists_abs us cs))"
proof -
  have d: "distinct (map pc_credential_id cs)" using ok by (simp add: lists_ok_def)
  let ?Q = "\<lambda>c. pc_credential_id c = cid \<and> pc_user_id c = uid"
  let ?hit = "\<lambda>v. cr_credential_id v = bytes_to_b64url cid \<and> cr_user_id v = uid"
  let ?cs = "map (\<lambda>c. if ?Q c then c\<lparr>pc_label := l\<rparr> else c) cs"
  have upd: "update_creds ?hit (\<lambda>v. v\<lparr>cr_label := l\<rparr>) (db_of us cs) = (length (filter ?Q cs), db_of us ?cs)"
    by (rule update_creds_db_of) (auto simp: sqlite_credential_values_def)
  have lok: "lists_ok us ?cs"
    by (rule lists_ok_update [OF ok]) (use ok in \<open>auto simp: lists_ok_def cred_repr_def\<close>)
  have hits: "filter ?Q cs = (case select_by pc_credential_id cid cs of None \<Rightarrow> []
      | Some c \<Rightarrow> if pc_user_id c = uid then [c] else [])"
    by (rule filter_key_eq [OF d])
  show ?thesis
  proof (cases "\<exists>c. select_by pc_credential_id cid cs = Some c \<and> pc_user_id c = uid")
    case False
    then have "filter ?Q cs = []" unfolding hits by (auto split: option.split)
    then have "?cs = cs" "length (filter ?Q cs) = 0" by (intro map_idI, auto simp: filter_empty_conv)
    then have "label_body cid uid l (db_of us cs) = (Inr None, db_of us cs)"
      unfolding label_body_def Let_def upd by simp
    then show ?thesis using False ok by (intro exI [of _ cs]) (auto simp: spec_label_def split: option.split)
  next
    case True
    then obtain c where c: "select_by pc_credential_id cid cs = Some c" "pc_user_id c = uid" by blast
    then have one: "length (filter ?Q cs) = 1" unfolding hits by simp
    have same: "?cs = map (\<lambda>c'. if pc_credential_id c' = cid then c'\<lparr>pc_label := l\<rparr> else c') cs"
      using only_selected [OF ok c(1)] c(2) by (intro map_cong) auto
    have ab: "lists_abs us ?cs = (lists_abs us cs)\<lparr>sp_creds := (sp_creds (lists_abs us cs))(cid \<mapsto> c\<lparr>pc_label := l\<rparr>)\<rparr>"
      unfolding same by (rule lists_abs_update [OF c(1)]) simp
    have sel: "select_by pc_credential_id cid ?cs = Some (c\<lparr>pc_label := l\<rparr>)"
      using arg_cong [OF ab, of "\<lambda>st. sp_creds st cid"] by simp
    have "List.find ?hit (cd_creds (db_of us ?cs)) = Some (sqlite_credential_values (c\<lparr>pc_label := l\<rparr>))"
      using c(2) by (intro find_hit [OF lok sel]) simp
    then have "label_body cid uid l (db_of us cs) = (Inr (Some (c\<lparr>pc_label := l\<rparr>)), db_of us ?cs)"
      unfolding label_body_def Let_def upd one
      using credential_row_roundtrip [OF selected_repr [OF lok sel]] by (simp add: opt_cred_def)
    then show ?thesis using c lok ab by (intro exI [of _ ?cs]) (simp add: spec_label_def Let_def)
  qed
qed

lemma sql_label_step:
  assumes ok: "lists_ok us cs"
  shows "cred_db_ok (snd (sql_label cid uid l (db_of us cs)))
    \<and> map_prod (map_sum bare id) sql_cred_abs (sql_label cid uid l (db_of us cs)) =
      spec_label cid uid l (lists_abs us cs)"
proof -
  obtain cs' where cs': "label_body cid uid l (db_of us cs) = (fst (spec_label cid uid l (lists_abs us cs)), db_of us cs')"
      "lists_ok us cs'" "lists_abs us cs' = snd (spec_label cid uid l (lists_abs us cs))"
    using label_body_step [OF ok] by blast
  have "\<exists>c st. spec_label cid uid l (lists_abs us cs) = (Inr c, st)"
    by (auto simp: spec_label_def Let_def split: option.split)
  then obtain c st where spec: "spec_label cid uid l (lists_abs us cs) = (Inr c, st)" by blast
  have run: "label_body cid uid l (db_of us cs) = (Inr c, db_of us cs')" "st = lists_abs us cs'"
    using cs'(1,3) by (simp_all add: spec)
  show ?thesis
    unfolding sql_label_def spec using path_call_step [where body = "label_body cid uid l", OF ok run(1)] cs'(2) run(2)
    by simp
qed

lemma lists_owned_card:
  assumes "lists_ok us cs"
  shows "card (owned (lists_abs us cs) uid) = length (filter (\<lambda>c. pc_user_id c = uid) cs)"
proof -
  let ?f = "filter (\<lambda>c. pc_user_id c = uid) cs"
  have d: "distinct (map pc_credential_id cs)" using assms by (simp add: lists_ok_def)
  have "owned (lists_abs us cs) uid = set (map pc_credential_id ?f)"
    using select_by_Some [OF d] by (auto simp: owned_def)
  moreover have "distinct (map pc_credential_id ?f)" using d by (rule distinct_map_filter)
  ultimately show ?thesis using distinct_card by (metis length_map)
qed

lemma lists_ok_filter: "lists_ok us cs \<Longrightarrow> lists_ok us (filter P cs)"
  by (auto simp: lists_ok_def distinct_map_filter)

text \<open>The body of a deletion, in both transaction modes.\<close>

abbreviation delete_hit :: "bytes \<Rightarrow> string option \<Rightarrow> cred_row \<Rightarrow> bool" where
  "delete_hit cid uid \<equiv> \<lambda>v. cr_credential_id v = bytes_to_b64url cid \<and> (uid = None \<or> uid = Some (cr_user_id v))"

abbreviation owner_ok :: "string option \<Rightarrow> passkey_credential \<Rightarrow> bool" where
  "owner_ok uid \<equiv> \<lambda>c. uid = None \<or> uid = Some (pc_user_id c)"

lemma delete_body_run:
  assumes ok: "lists_ok us cs"
  shows "delete_body mode cid uid rr (db_of us cs) =
    (case select_by pc_credential_id cid cs of
        None \<Rightarrow> (Inr False, db_of us cs)
      | Some c \<Rightarrow>
          if \<not> owner_ok uid c \<or> (rr \<and> card (owned (lists_abs us cs) (pc_user_id c)) \<le> 1) then (Inr False, db_of us cs)
          else (Inr True, db_of us (filter (\<lambda>c'. \<not> (pc_credential_id c' = cid \<and> owner_ok uid c')) cs)))"
proof -
  have d: "distinct (map pc_credential_id cs)" using ok by (simp add: lists_ok_def)
  have noop: "snd (update_creds (delete_hit cid uid) (\<lambda>v. v\<lparr>cr_credential_id := cr_credential_id v\<rparr>) db) = db" for db
    by (simp add: update_creds_def)
  have find: "List.find (delete_hit cid uid) (cd_creds (db_of us cs)) =
      map_option sqlite_credential_values (case select_by pc_credential_id cid cs of None \<Rightarrow> None
        | Some c \<Rightarrow> if owner_ok uid c then Some c else None)"
    using find_key [OF d, of cid "owner_ok uid"] by (simp add: db_of_def find_map)
  have count: "length (filter (\<lambda>v. cr_user_id v = pc_user_id c) (cd_creds (db_of us cs))) =
      card (owned (lists_abs us cs) (pc_user_id c))" for c
    by (simp add: lists_owned_card [OF ok] db_of_def filter_map comp_def)
  have hits: "0 < length (filter (delete_hit cid uid) (cd_creds (db_of us cs)))"
    if "select_by pc_credential_id cid cs = Some c" "owner_ok uid c" for c
    using filter_key_eq [OF d, of cid "owner_ok uid"] that by (simp add: db_of_def filter_map comp_def)
  have rest: "(db_of us cs)\<lparr>cd_creds := filter (\<lambda>v. \<not> delete_hit cid uid v) (cd_creds (db_of us cs))\<rparr> =
      db_of us (filter (\<lambda>c'. \<not> (pc_credential_id c' = cid \<and> owner_ok uid c')) cs)"
    by (simp add: db_of_def filter_map comp_def)
  have body: "delete_body mode cid uid rr (db_of us cs) =
    (case List.find (delete_hit cid uid) (cd_creds (db_of us cs)) of
        None \<Rightarrow> (Inr False, db_of us cs)
      | Some w \<Rightarrow>
          (if rr \<and> length (filter (\<lambda>v. cr_user_id v = cr_user_id w) (cd_creds (db_of us cs))) \<le> 1
           then (Inr False, db_of us cs)
           else (Inr (0 < length (filter (delete_hit cid uid) (cd_creds (db_of us cs)))),
                 (db_of us cs)\<lparr>cd_creds := filter (\<lambda>v. \<not> delete_hit cid uid v) (cd_creds (db_of us cs))\<rparr>)))"
    unfolding delete_body_def Let_def noop by simp
  show ?thesis
  proof (cases "select_by pc_credential_id cid cs")
    case None
    then show ?thesis unfolding body find by simp
  next
    case (Some c)
    show ?thesis
    proof (cases "owner_ok uid c")
      case True
      show ?thesis unfolding body find rest unfolding Some using True count [of c] hits [OF Some True] by simp
    next
      case False
      then show ?thesis unfolding body find unfolding Some by auto
    qed
  qed
qed

lemma lists_abs_delete:
  assumes ok: "lists_ok us cs" and c: "select_by pc_credential_id cid cs = Some c" "owner_ok uid c"
  shows "lists_abs us (filter (\<lambda>c'. \<not> (pc_credential_id c' = cid \<and> owner_ok uid c')) cs) =
    (lists_abs us cs)\<lparr>sp_creds := (sp_creds (lists_abs us cs))(cid := None)\<rparr>"
proof -
  have d: "distinct (map pc_credential_id cs)" using ok by (simp add: lists_ok_def)
  have "select_by pc_credential_id k (filter (\<lambda>c'. \<not> (pc_credential_id c' = cid \<and> owner_ok uid c')) cs) =
      ((\<lambda>k. select_by pc_credential_id k cs)(cid := None)) k" for k
    using c select_by_SomeD [of pc_credential_id k cs] only_selected [OF ok c(1)]
    by (auto simp: select_by_filter [OF d] split: option.split)
  then show ?thesis by (simp add: lists_abs_def fun_eq_iff)
qed

lemma delete_body_step:
  assumes ok: "lists_ok us cs"
  shows "\<exists>cs'. lists_ok us cs' \<and> (delete_body mode cid uid rr (db_of us cs)) =
      (fst (spec_delete cid uid rr (lists_abs us cs)), db_of us cs')
    \<and> lists_abs us cs' = snd (spec_delete cid uid rr (lists_abs us cs))"
proof (cases "select_by pc_credential_id cid cs")
  case None
  then show ?thesis using ok delete_body_run [OF ok] by (intro exI [of _ cs]) (simp add: spec_delete_def)
next
  case (Some c)
  show ?thesis
  proof (cases "\<not> owner_ok uid c \<or> (rr \<and> card (owned (lists_abs us cs) (pc_user_id c)) \<le> 1)")
    case True
    then show ?thesis using ok Some delete_body_run [OF ok]
      by (intro exI [of _ cs]) (auto simp: spec_delete_def)
  next
    case False
    then have own: "owner_ok uid c" by blast
    show ?thesis
      using Some False delete_body_run [OF ok, of mode cid uid rr] lists_abs_delete [OF ok Some own] lists_ok_filter [OF ok]
      by (intro exI [of _ "filter (\<lambda>c'. \<not> (pc_credential_id c' = cid \<and> owner_ok uid c')) cs"])
        (auto simp: spec_delete_def)
  qed
qed

lemma spec_delete_Inr: "\<exists>b. fst (spec_delete cid uid rr st) = Inr b"
  by (cases "sp_creds st cid") (auto simp: spec_delete_def)

lemma sql_delete_step:
  assumes ok: "lists_ok us cs"
  shows "cred_db_ok (snd (sql_delete cid uid rr (db_of us cs)))
    \<and> map_prod (map_sum bare id) sql_cred_abs (sql_delete cid uid rr (db_of us cs)) =
      spec_delete cid uid rr (lists_abs us cs)"
proof -
  obtain cs' where cs': "lists_ok us cs'"
    and run: "delete_body Operation cid uid rr (db_of us cs) =
      (fst (spec_delete cid uid rr (lists_abs us cs)), db_of us cs')"
    and ab: "lists_abs us cs' = snd (spec_delete cid uid rr (lists_abs us cs))"
    using delete_body_step [OF ok] by blast
  obtain b where b: "fst (spec_delete cid uid rr (lists_abs us cs)) = Inr b"
    using spec_delete_Inr by blast
  have "sql_delete cid uid rr (db_of us cs) = (Inr b, db_of us cs')"
    by (simp add: sql_delete_def path_call_mutation run b)
  then show ?thesis using cs' b ab
    by (auto simp: cred_db_ok_def sql_cred_abs_db_of intro: prod_eqI)
qed

subsection \<open>The store implements the contract\<close>

lemma sql_list_db_of:
  assumes ok: "lists_ok us cs"
  shows "\<exists>xs. sql_list_credentials uid (db_of us cs) = Inr xs \<and> distinct xs
    \<and> set xs = {c \<in> set cs. pc_user_id c = uid}"
proof -
  let ?f = "filter (\<lambda>c. pc_user_id c = uid) cs"
  let ?rows = "sort_key cr_created_at (sort_key cr_credential_id
         (filter (\<lambda>w. cr_user_id w = uid) (cd_creds (db_of us cs))))"
  have filt: "filter (\<lambda>w. cr_user_id w = uid) (cd_creds (db_of us cs)) = map sqlite_credential_values ?f"
    by (simp add: db_of_def filter_map comp_def)
  have rows: "set ?rows = sqlite_credential_values ` set ?f"
    unfolding filt by (simp only: set_sort list.set_map)
  have repr: "cred_repr c" if "c \<in> set ?f" for c using ok that by (auto simp: lists_ok_def)
  have d: "distinct ?f" using ok by (auto simp: lists_ok_def distinct_map)
  define dec where "dec w = (case sqlite_credential w of Inr c \<Rightarrow> c | Inl _ \<Rightarrow> undefined)" for w
  have dec: "c \<in> set ?f \<Longrightarrow> dec (sqlite_credential_values c) = c" for c
    using repr by (simp add: dec_def credential_row_roundtrip)
  then have inj: "inj_on sqlite_credential_values (set ?f)"
    by (rule inj_on_inverseI)
  have decodes: "w \<in> set ?rows \<Longrightarrow> sqlite_credential w = Inr (dec w)" for w
    unfolding rows using repr by (auto simp: dec_def credential_row_roundtrip)
  have run: "map_result sqlite_credential ?rows = Inr (map dec ?rows)"
    using decodes by (rule map_result_all)
  have "distinct ?rows"
    unfolding filt distinct_sort using d inj by (simp add: distinct_map)
  moreover have "inj_on dec (set ?rows)"
    unfolding rows using dec by (auto simp: inj_on_def)
  ultimately have "distinct (map dec ?rows)" by (simp add: distinct_map)
  moreover have "set (map dec ?rows) = set ?f"
    unfolding set_map rows image_image using dec by (auto simp: image_iff)
  ultimately show ?thesis using run by (auto simp: sql_list_credentials_def)
qed

lemma lists_by_handle:
  assumes "lists_ok us cs"
  shows "spec_by_handle (lists_abs us cs) h = select_by pu_user_handle h us"
proof (cases "select_by pu_user_handle h us")
  case (Some u)
  then have "select_by pu_user_id (pu_user_id u) us = Some u"
    using assms select_by_SomeD [OF Some] by (simp add: lists_ok_def select_by_Some)
  then show ?thesis by (simp add: spec_by_handle_def Some)
qed (simp add: spec_by_handle_def)

lemma lists_list:
  assumes "lists_ok us cs"
  shows "spec_list (lists_abs us cs) uid = {c \<in> set cs. pc_user_id c = uid}"
proof -
  have "distinct (map pc_credential_id cs)" using assms by (simp add: lists_ok_def)
  from select_by_Some [OF this] show ?thesis by (auto simp: spec_list_def)
qed

lemma sql_list_spec:
  "lists_ok us cs \<Longrightarrow>
   \<exists>l. sql_list_credentials uid (db_of us cs) = Inr l \<and> distinct l \<and> set l = spec_list (lists_abs us cs) uid"
  using sql_list_db_of [of us cs uid] by (simp add: lists_list)

text \<open>The laws hold of each operation on a database that holds two lists; every sound database does.\<close>

lemmas sql_cred_laws = sql_cred_abs_db_of lists_abs_wf sql_save_step sql_cas_step sql_label_step sql_delete_step
  sql_get_user_def sql_get_user_by_handle_def lists_by_handle sql_list_spec sql_get_credential_def opt_cred_select

interpretation sqlc: credential_store sql_save_registration sql_get_user sql_get_user_by_handle
  sql_list_credentials sql_get_credential sql_cas sql_label sql_delete
  sql_cred_abs cred_db_ok sql_reg_ok sqlite_int_ok
  by unfold_locales (elim cred_db_okE, simp add: sql_cred_laws del: map_prod_def)+

lemma cred_db_init [simp]:
  "cred_db_ok \<lparr>cd_users = [], cd_creds = []\<rparr>" "sql_cred_abs \<lparr>cd_users = [], cd_creds = []\<rparr> = spec_empty"
proof -
  have e: "db_of [] [] = \<lparr>cd_users = [], cd_creds = []\<rparr>" "lists_ok [] []"
    by (simp_all add: db_of_def lists_ok_def)
  then show "cred_db_ok \<lparr>cd_users = [], cd_creds = []\<rparr>" by (metis cred_db_ok_def)
  show "sql_cred_abs \<lparr>cd_users = [], cd_creds = []\<rparr> = spec_empty"
    using sql_cred_abs_db_of [OF e(2)] by (simp add: e(1) lists_abs_def spec_empty_def)
qed

end
