(* ===== verification/CredProperties.thy ===== *)
theory CredProperties
  imports CredMemory CredSqlite
begin

section \<open>Properties of the two credential stores\<close>

text \<open>
  The contract's consequences, stated for \<open>MemoryCredentialStore\<close> (\<open>memc\<close>) and
  \<open>SQLiteCredentialStore\<close> (\<open>sqlc\<close>) together.
\<close>

abbreviation sql_creds_init :: cred_db where
  "sql_creds_init \<equiv> \<lparr>cd_users = [], cd_creds = []\<rparr>"

subsection \<open>A concrete run\<close>

definition ann :: passkey_user where
  "ann = \<lparr>pu_user_id = ''ann'', pu_user_handle = [1], pu_name = ''Ann'', pu_display_name = None\<rparr>"

definition ann_key :: "byte \<Rightarrow> passkey_credential" where
  "ann_key b = \<lparr>pc_credential_id = [b], pc_user_id = ''ann'', pc_public_key = [9], pc_sign_count = 0,
     pc_transports = [''usb''], pc_device_type = None, pc_backed_up = Some True, pc_label = None,
     pc_created_at = 63870000000000000\<rparr>"

definition ann_reg :: "byte \<Rightarrow> verified_registration" where
  "ann_reg b = \<lparr>vr_user = ann, vr_credential = ann_key b, vr_context = None\<rparr>"

definition ann_calls :: "cred_call list" where
  "ann_calls = [SaveReg (ann_reg 1), SaveReg (ann_reg 2), CasCred [1] 0 7 None None,
     DeleteCred [2] (Some ''ann'') True, DeleteCred [1] (Some ''ann'') True]"

lemma ann_repr: "cred_repr (ann_key b)" "mem_reg_ok (ann_reg b)" "sql_reg_ok (ann_reg b)"
  by (simp_all add: cred_repr_def ann_key_def valid_datetime_def datetime_max_def us_per_second_def
      sqlite_int_ok_def mem_reg_ok_def sql_reg_ok_def ann_reg_def ann_def)

lemma ann_calls_ok:
  "\<forall>c \<in> set ann_calls. memc.call_ok c" "\<forall>c \<in> set ann_calls. sqlc.call_ok c"
  "\<forall>c \<in> set ann_calls. guarded c"
  by (simp_all add: ann_calls_def ann_repr sqlite_int_ok_def)

definition ann_mem :: mem_creds where
  "ann_mem = snd (mem_save_registration (ann_reg 1) mem_creds_init)"

definition ann_db :: cred_db where
  "ann_db = snd (sql_save_registration (ann_reg 1) sql_creds_init)"

lemma ann_mem_ok: "mem_cred_ok ann_mem"
  unfolding ann_mem_def by (rule memc.save_inv) (simp_all add: ann_repr)

lemma ann_db_ok: "cred_db_ok ann_db"
  unfolding ann_db_def by (rule sqlc.save_inv) (simp_all add: ann_repr)

lemma ann_db_lists: "ann_db = db_of [ann] [ann_key 1]"
proof -
  have "lists_ok [] []" "db_of [] [] = sql_creds_init" by (simp_all add: lists_ok_def db_of_def)
  have "save_body ann (ann_key 1) (db_of [] []) = (Inr (), db_of [ann] [ann_key 1])"
    using ann_repr(1) [of 1] by (simp add: save_body_def Let_def op_bind_def insert_user_def
        insert_cred_def db_of_def sqlite_user_values_def sqlite_credential_values_def cred_repr_def
        ann_def ann_key_def)
  then show ?thesis
    by (simp add: ann_db_def sql_save_registration_def path_call_mutation ann_reg_def db_of_def Let_def
        ann_def ann_key_def)
qed

subsection \<open>Properties\<close>



text \<open>
  No call of either store changes the owner, key, transports or creation time of a
  credential that it leaves in place, and none lowers its signature counter.
\<close>

theorem credential_never_regresses:
  assumes "mem_cred_ok s" and "memc.call_ok call"
    and "mem_get_credential cid s = Inr (Some c)"
    and "mem_get_credential cid (snd (memc.store_cred_call call s)) = Inr (Some c')"
    and "cred_db_ok db" and "sqlc.call_ok call"
    and "sql_get_credential cid db = Inr (Some d)"
    and "sql_get_credential cid (snd (sqlc.store_cred_call call db)) = Inr (Some d')"
  shows "cred_advances c c' \<and> cred_advances d d'"
  using memc.call_advances [OF assms(1-4)] sqlc.call_advances [OF assms(5-8)] by simp

lemma ann_db_get: "sql_get_credential [1] ann_db = Inr (Some (ann_key 1))"
  using ann_repr(1) [of 1]
  by (simp add: ann_db_lists sql_get_credential_def select_by_Cons opt_cred_def credential_row_roundtrip
      ann_key_def [THEN arg_cong [where f = pc_credential_id], simplified])

lemma ann_mem_get: "mem_get_credential [1] ann_mem = Inr (Some (ann_key 1))"
  by (simp add: mem_get_credential_def ann_mem_def mem_save_registration_def mem_creds_init_def
      ann_reg_def ann_def ann_key_def setdefault_def)

lemma credential_never_regresses_witness:
  "cred_advances (ann_key 1) (ann_key 1)"
proof -
  have "mem_get_credential [1] (snd (memc.store_cred_call (GetUser ''ann'') ann_mem)) = Inr (Some (ann_key 1))"
    "sql_get_credential [1] (snd (sqlc.store_cred_call (GetUser ''ann'') ann_db)) = Inr (Some (ann_key 1))"
    by (simp_all add: ann_mem_get ann_db_get)
  then show ?thesis
    using credential_never_regresses [OF ann_mem_ok _ ann_mem_get _ ann_db_ok _ ann_db_get] by auto
qed

text \<open>
  C13: when every deletion of a run is a guarded one, each user that exists at its end still has
  a credential, in both stores: nobody is locked out.
\<close>

theorem guarded_deletions_keep_a_credential:
  assumes "\<forall>c \<in> set calls. memc.call_ok c" and "\<forall>c \<in> set calls. sqlc.call_ok c"
    and "\<forall>c \<in> set calls. guarded c"
  shows "(\<forall>uid u. mem_get_user uid (snd (run_cred memc.store_cred_call calls mem_creds_init)) = Inr (Some u) \<longrightarrow>
      mem_list_credentials uid (snd (run_cred memc.store_cred_call calls mem_creds_init)) \<noteq> Inr [])
    \<and> (\<forall>uid u. sql_get_user uid (snd (run_cred sqlc.store_cred_call calls sql_creds_init)) = Inr (Some u) \<longrightarrow>
      sql_list_credentials uid (snd (run_cred sqlc.store_cred_call calls sql_creds_init)) \<noteq> Inr [])"
proof -
  let ?m = "snd (run_cred memc.store_cred_call calls mem_creds_init)"
  let ?q = "snd (run_cred sqlc.store_cred_call calls sql_creds_init)"
  let ?st = "snd (run_cred spec_cred_call calls spec_empty)"
  have m: "mem_cred_ok ?m" "mem_cred_abs ?m = ?st"
    using memc.run_refines [OF mem_cred_init(1) assms(1)] by simp_all
  have q: "cred_db_ok ?q" "sql_cred_abs ?q = ?st"
    using sqlc.run_refines [OF cred_db_init(1) assms(2)] by simp_all
  have "users_have_credential spec_empty" by (simp add: users_have_credential_def spec_empty_def)
  then have keep: "users_have_credential ?st" using assms(3) by (intro spec_run_guarded) simp_all
  have some: "sp_users ?st uid = Some u \<Longrightarrow> spec_list ?st uid \<noteq> {}" for uid u
    using keep by (fastforce simp: users_have_credential_def owned_def spec_list_def)
  show ?thesis
    using some memc.get_user_spec [OF m(1)] memc.list_spec [OF m(1)]
      sqlc.get_user_spec [OF q(1)] sqlc.list_spec [OF q(1)]
    unfolding m(2) q(2) by (metis list.set(1) sum.inject(2))
qed

lemma guarded_deletions_keep_a_credential_witness:
  "mem_list_credentials ''ann'' (snd (run_cred memc.store_cred_call ann_calls mem_creds_init)) \<noteq> Inr []"
proof -
  have "mem_get_user ''ann'' (snd (run_cred memc.store_cred_call ann_calls mem_creds_init)) = Inr (Some ann)"
    by (simp add: ann_calls_def mem_get_user_def mem_save_registration_def mem_cas_def mem_delete_def Let_def
        mem_creds_init_def ann_reg_def ann_def ann_key_def setdefault_def)
  then show ?thesis using guarded_deletions_keep_a_credential [OF ann_calls_ok] by blast
qed

text \<open>
  In the SQLite store, in both transaction modes, the body of a guarded deletion that
  returns True leaves another credential of the same user in the table.
\<close>

theorem sqlite_guarded_delete:
  assumes "cred_db_ok db" and "delete_body mode cid owner True db = (Inr True, db')"
  shows "\<exists>c cs. sql_get_credential cid db = Inr (Some c) \<and> sql_get_credential cid db' = Inr None
    \<and> sql_list_credentials (pc_user_id c) db' = Inr cs \<and> cs \<noteq> []"
proof -
  from assms(1) obtain us cs0 where db: "db = db_of us cs0" and ok: "lists_ok us cs0" by (rule cred_db_okE)
  let ?st = "lists_abs us cs0"
  obtain cs' where cs': "lists_ok us cs'" "db' = db_of us cs'"
    and res: "fst (spec_delete cid owner True ?st) = Inr True"
    and ab: "lists_abs us cs' = snd (spec_delete cid owner True ?st)"
    using delete_body_step [OF ok, of mode cid owner True] assms(2) db by auto
  obtain c where c: "sp_creds ?st cid = Some c" and left: "owned (lists_abs us cs') (pc_user_id c) \<noteq> {}"
    using spec_delete_guarded [OF lists_abs_wf [OF ok] res] ab by auto
  have gone: "sp_creds (lists_abs us cs') cid = None"
    using res c unfolding ab by (auto simp: spec_delete_def split: if_splits)
  have dbs: "cred_db_ok db'" "sql_cred_abs db' = lists_abs us cs'" "sql_cred_abs db = ?st"
    using cs' db ok by (auto simp: cred_db_ok_def sql_cred_abs_db_of)
  obtain xs where "sql_list_credentials (pc_user_id c) db' = Inr xs"
    "set xs = spec_list (lists_abs us cs') (pc_user_id c)"
    using sqlc.list_spec [OF dbs(1)] dbs(2) by metis
  moreover from left have "spec_list (lists_abs us cs') (pc_user_id c) \<noteq> {}"
    by (auto simp: owned_def spec_list_def)
  ultimately show ?thesis
    using c gone sqlc.get_cred_spec [OF assms(1)] sqlc.get_cred_spec [OF dbs(1)] dbs by auto
qed

lemma sqlite_guarded_delete_witness:
  "\<exists>db db' c. delete_body External [2] None True db = (Inr True, db')
     \<and> sql_get_credential [2] db = Inr (Some c) \<and> sql_list_credentials (pc_user_id c) db' \<noteq> Inr []"
proof -
  let ?db = "db_of [ann] [ann_key 1, ann_key 2]"
  have ok: "cred_db_ok ?db"
    unfolding cred_db_ok_def lists_ok_def
    using ann_repr(1) by (intro exI [of _ "[ann]"] exI [of _ "[ann_key 1, ann_key 2]"])
      (simp add: ann_key_def ann_def)
  have run: "delete_body External [2] None True ?db = (Inr True, db_of [ann] [ann_key 1])"
    by (simp add: delete_body_def Let_def update_creds_def db_of_def
        ann_key_def [THEN arg_cong [where f = pc_credential_id], simplified]
        ann_key_def [THEN arg_cong [where f = pc_user_id], simplified])
  show ?thesis using sqlite_guarded_delete [OF ok run] run by force
qed

text \<open>
  A credential id that one user registered cannot be registered to another: both stores
  raise and leave their state unchanged.
\<close>

theorem credential_never_changes_owner:
  assumes "mem_cred_ok s" and "mem_get_credential (pc_credential_id (vr_credential vr)) s = Inr (Some c)"
    and "mem_reg_ok vr" and "sql_reg_ok vr"
    and "cred_db_ok db" and "sql_get_credential (pc_credential_id (vr_credential vr)) db = Inr (Some c)"
    and "pc_user_id (vr_credential vr) \<noteq> pc_user_id c"
  shows "(\<exists>e. mem_save_registration vr s = (Inl e, s)) \<and> (\<exists>e. sql_save_registration vr db = (Inl e, db))"
proof -
  have m: "sp_creds (mem_cred_abs s) (pc_credential_id (vr_credential vr)) = Some c"
    using assms(1,2) by (simp add: memc.get_cred_spec)
  have q: "sp_creds (sql_cred_abs db) (pc_credential_id (vr_credential vr)) = Some c"
    using assms(5,6) by (simp add: sqlc.get_cred_spec)
  have spec: "\<exists>e. spec_save vr st = (Inl e, st)"
    if "sp_creds st (pc_credential_id (vr_credential vr)) = Some c" for st
    using that assms(7) by (auto simp: spec_save_def Let_def)
  have "\<exists>e. fst (mem_save_registration vr s) = Inl e"
    using memc.save_refines [OF assms(1,3)] spec [OF m]
    by (cases "mem_save_registration vr s"; cases "fst (mem_save_registration vr s)") auto
  then have "\<exists>e. mem_save_registration vr s = (Inl e, s)"
    by (auto simp: mem_save_registration_def Let_def split: if_splits)
  moreover have "\<exists>e. fst (sql_save_registration vr db) = Inl e"
    using sqlc.save_refines [OF assms(5,4)] spec [OF q]
    by (cases "sql_save_registration vr db"; cases "fst (sql_save_registration vr db)") auto
  then have "\<exists>e. sql_save_registration vr db = (Inl e, db)"
    by (auto simp: sql_save_registration_def Let_def path_call_mutation split: if_splits prod.splits sum.splits)
  ultimately show ?thesis by blast
qed

lemma credential_never_changes_owner_witness:
  "let vr = \<lparr>vr_user = ann\<lparr>pu_user_id := ''eve'', pu_user_handle := [2]\<rparr>,
        vr_credential = (ann_key 1)\<lparr>pc_user_id := ''eve''\<rparr>, vr_context = None\<rparr>
   in (\<exists>e. mem_save_registration vr ann_mem = (Inl e, ann_mem))
      \<and> (\<exists>e. sql_save_registration vr ann_db = (Inl e, ann_db))"
  unfolding Let_def
  by (rule credential_never_changes_owner [where c = "ann_key 1"])
    (use ann_mem_ok ann_db_ok ann_mem_get ann_db_get ann_repr in \<open>simp_all add: mem_reg_ok_def
      sql_reg_ok_def cred_repr_def ann_key_def\<close>)

text \<open>
  Relabelling and owner-scoped deletion by one user never touch a credential of another.
\<close>

fun owner_call :: "string \<Rightarrow> cred_call \<Rightarrow> bool" where
  "owner_call uid (LabelCred _ v _) = (v = uid)"
| "owner_call uid (DeleteCred _ v _) = (v = Some uid)"
| "owner_call uid _ = False"

lemma spec_owner_scope:
  "owner_call uid call \<Longrightarrow> sp_creds st cid = Some c \<Longrightarrow> pc_user_id c \<noteq> uid \<Longrightarrow>
   sp_creds (snd (spec_cred_call call st)) cid = Some c"
  by (cases call) (auto simp: spec_label_def spec_delete_def Let_def split: option.splits)

theorem owner_calls_are_scoped:
  assumes "owner_call uid call" and "pc_user_id c \<noteq> uid"
    and "mem_cred_ok s" and "mem_get_credential cid s = Inr (Some c)"
    and "cred_db_ok db" and "sql_get_credential cid db = Inr (Some c)"
  shows "mem_get_credential cid (snd (memc.store_cred_call call s)) = Inr (Some c)
    \<and> sql_get_credential cid (snd (sqlc.store_cred_call call db)) = Inr (Some c)"
proof -
  have ok: "memc.call_ok call" "sqlc.call_ok call" using assms(1) by (cases call; simp)+
  have m: "sp_creds (mem_cred_abs s) cid = Some c" using assms(3,4) by (simp add: memc.get_cred_spec)
  have q: "sp_creds (sql_cred_abs db) cid = Some c" using assms(5,6) by (simp add: sqlc.get_cred_spec)
  show ?thesis
    using spec_owner_scope [OF assms(1) m assms(2)] spec_owner_scope [OF assms(1) q assms(2)]
    by (simp add: memc.get_cred_spec [OF memc.call_inv [OF assms(3) ok(1)]] memc.call_abs [OF assms(3) ok(1)]
        sqlc.get_cred_spec [OF sqlc.call_inv [OF assms(5) ok(2)]] sqlc.call_abs [OF assms(5) ok(2)])
qed

lemma owner_calls_are_scoped_witness:
  "sql_get_credential [1] (snd (sqlc.store_cred_call (DeleteCred [1] (Some ''eve'') False) ann_db)) =
     Inr (Some (ann_key 1))"
  using owner_calls_are_scoped [of "''eve''" "DeleteCred [1] (Some ''eve'') False" "ann_key 1" ann_mem "[1]" ann_db]
    ann_mem_ok ann_db_ok ann_mem_get ann_db_get by (simp add: ann_key_def)

text \<open>Reading back the row of a credential gives the credential, flags and transports included.\<close>

theorem credential_codec_roundtrip:
  assumes "valid_datetime (pc_created_at c)"
  shows "sqlite_credential (CredSqlite.sqlite_credential_values c) = Inr c"
  using assms by (rule sqlite_credential_values)

lemma credential_codec_roundtrip_witness:
  "sqlite_credential (CredSqlite.sqlite_credential_values (ann_key 3)) = Inr (ann_key 3)"
  by (rule credential_codec_roundtrip)
    (simp add: ann_key_def valid_datetime_def datetime_max_def us_per_second_def)

end
