(* ===== verification/Enrollment.thy ===== *)
theory Enrollment
  imports PyTime Sha256 PasskeyModels
begin

section \<open>Enrollment capabilities (\<open>enrollment.py\<close>)\<close>

text \<open>
  An enrollment capability is a bearer token that lets one registration flow enrol a passkey:
  issued, claimed by a flow, then consumed, released or revoked. This theory holds the data,
  the checks, the memory store, the life cycle as a step relation and the interface
  \<open>capability_store\<close> with what every store of that interface guarantees: a capability is
  consumed at most once, and only by the flow that claimed it with its token. Random ids and
  tokens (\<open>secrets.token_urlsafe\<close>) and the clock's value are arguments of the operations.
\<close>

subsection \<open>Data and checks\<close>

record capability =
  ec_capability_id :: string
  ec_purpose :: string
  ec_subject :: string
  ec_expires_at :: datetime
  ec_issued_by :: "string option"
  ec_claimed_flow_id :: "string option"
  ec_claimed_at :: "datetime option"
  ec_consumed_at :: "datetime option"
  ec_revoked_at :: "datetime option"

record issued_capability =
  ic_capability :: capability
  ic_token :: string

definition purposes :: "string set" where
  "purposes = {''invitation'', ''account_recovery''}"

fun purpose_text :: "capability_purpose \<Rightarrow> string" where
  "purpose_text PurposeInvitation = ''invitation''"
| "purpose_text PurposeAccountRecovery = ''account_recovery''"

abbreviation unavailable :: exn where
  "unavailable \<equiv> EnrollmentCapabilityNotFound ''enrollment capability is unavailable''"

definition validate_issue :: "string \<Rightarrow> string \<Rightarrow> int \<Rightarrow> string option \<Rightarrow> unit result" where
  "validate_issue subject purpose ttl issued_by =
     (if subject = [] \<or> subject \<noteq> py_strip subject
      then Inl (ValueError ''subject must be a non-empty trimmed string'')
      else if purpose \<notin> purposes
      then Inl (ValueError ''unsupported enrollment capability purpose'')
      else if ttl \<le> 0 then Inl (ValueError ''ttl_seconds must be positive'')
      else if (case issued_by of None \<Rightarrow> False | Some b \<Rightarrow> b = [] \<or> b \<noteq> py_strip b)
      then Inl (ValueError ''issued_by must be a non-empty trimmed string'')
      else Inr ())"

definition validate_claim :: "string \<Rightarrow> string \<Rightarrow> string \<Rightarrow> unit result" where
  "validate_claim token flow_id expected_purpose =
     (if token = [] \<or> flow_id = [] then Inl unavailable
      else if expected_purpose \<notin> purposes
      then Inl (ValueError ''unsupported enrollment capability purpose'')
      else Inr ())"

definition token_hash :: "string \<Rightarrow> string" where
  "token_hash token =
     sha256_hex (utf8_encode ''my-auth:enrollment-capability:v1'' @ [0] @ utf8_encode token)"

definition new_issued ::
  "string \<Rightarrow> string \<Rightarrow> string \<Rightarrow> string \<Rightarrow> int \<Rightarrow> string option \<Rightarrow> datetime
   \<Rightarrow> (issued_capability \<times> string) result" where
  "new_issued token cid subject purpose ttl issued_by now =
     res_bind (add_seconds now ttl) (\<lambda>expires.
       Inr (\<lparr>ic_capability = \<lparr>ec_capability_id = cid, ec_purpose = purpose, ec_subject = subject,
               ec_expires_at = expires, ec_issued_by = issued_by, ec_claimed_flow_id = None,
               ec_claimed_at = None, ec_consumed_at = None, ec_revoked_at = None\<rparr>,
             ic_token = token\<rparr>, token_hash token))"

subsection \<open>\<open>MemoryEnrollmentCapabilityStore\<close>\<close>

type_synonym cap_dict = "(string, string \<times> capability) dict"

definition mem_issue ::
  "string \<Rightarrow> string \<Rightarrow> datetime \<Rightarrow> string \<Rightarrow> string \<Rightarrow> int \<Rightarrow> string option \<Rightarrow> (cap_dict, issued_capability) op" where
  "mem_issue token cid now subject purpose ttl issued_by d =
     (case validate_issue subject purpose ttl issued_by of
        Inl e \<Rightarrow> (Inl e, d)
      | Inr _ \<Rightarrow>
          (case new_issued token cid subject purpose ttl issued_by now of
             Inl e \<Rightarrow> (Inl e, d)
           | Inr (issued, digest) \<Rightarrow>
               (Inr issued,
                AList.update (ec_capability_id (ic_capability issued)) (digest, ic_capability issued) d)))"

definition find_digest :: "string \<Rightarrow> cap_dict \<Rightarrow> (string \<times> string \<times> capability) option" where
  "find_digest digest d = List.find (\<lambda>item. fst (snd item) = digest) d"

definition find_flow :: "string \<Rightarrow> cap_dict \<Rightarrow> (string \<times> string \<times> capability) option" where
  "find_flow flow_id d = List.find (\<lambda>item. ec_claimed_flow_id (snd (snd item)) = Some flow_id) d"

definition mem_claim :: "datetime \<Rightarrow> string \<Rightarrow> string \<Rightarrow> string \<Rightarrow> (cap_dict, capability) op" where
  "mem_claim now token flow_id expected_purpose d =
     (case validate_claim token flow_id expected_purpose of
        Inl e \<Rightarrow> (Inl e, d)
      | Inr _ \<Rightarrow>
          (let digest = token_hash token in
           case find_digest digest d of
             None \<Rightarrow> (Inl unavailable, d)
           | Some (cid, _, r) \<Rightarrow>
               (if ec_purpose r \<noteq> expected_purpose \<or> ec_expires_at r \<le> now \<or> ec_consumed_at r \<noteq> None
                  \<or> ec_revoked_at r \<noteq> None \<or> ec_claimed_flow_id r \<notin> {None, Some flow_id}
                then (Inl unavailable, d)
                else if ec_claimed_flow_id r = None
                then (let r' = r\<lparr>ec_claimed_flow_id := Some flow_id, ec_claimed_at := Some now\<rparr>
                      in (Inr r', AList.update cid (digest, r') d))
                else (Inr r, d))))"

definition mem_consume :: "datetime \<Rightarrow> string \<Rightarrow> (cap_dict, capability) op" where
  "mem_consume now flow_id d =
     (case find_flow flow_id d of
        None \<Rightarrow> (Inl unavailable, d)
      | Some (cid, digest, r) \<Rightarrow>
          (if ec_expires_at r \<le> now \<or> ec_consumed_at r \<noteq> None \<or> ec_revoked_at r \<noteq> None
           then (Inl unavailable, d)
           else (let r' = r\<lparr>ec_consumed_at := Some now\<rparr> in (Inr r', AList.update cid (digest, r') d))))"

definition mem_release :: "string \<Rightarrow> (cap_dict, bool) op" where
  "mem_release flow_id d =
     (case find_flow flow_id d of
        None \<Rightarrow> (Inr False, d)
      | Some (cid, digest, r) \<Rightarrow>
          (if ec_consumed_at r \<noteq> None \<or> ec_revoked_at r \<noteq> None then (Inr False, d)
           else (Inr True, AList.update cid
             (digest, r\<lparr>ec_claimed_flow_id := None, ec_claimed_at := None\<rparr>) d)))"

definition mem_revoke :: "datetime \<Rightarrow> string \<Rightarrow> (cap_dict, bool) op" where
  "mem_revoke now cid d =
     (case map_of d cid of
        None \<Rightarrow> (Inr False, d)
      | Some (digest, r) \<Rightarrow>
          (if ec_consumed_at r \<noteq> None \<or> ec_revoked_at r \<noteq> None then (Inr False, d)
           else (Inr True, AList.update cid (digest, r\<lparr>ec_revoked_at := Some now\<rparr>) d)))"

subsection \<open>The clock\<close>

text \<open>
  What the \<open>now\<close> callable of a store returns: a datetime without a usable offset, or a local time
  with its offset from UTC. \<open>_now_utc\<close> refuses the first and normalises the second; a UTC instant
  outside the years 1 to 9999 overflows.
\<close>

datatype clock_reading = NaiveReading datetime | AwareReading datetime int

fun now_utc :: "clock_reading \<Rightarrow> datetime result" where
  "now_utc (NaiveReading _) = Inl (ValueError ''now must return a timezone-aware datetime'')"
| "now_utc (AwareReading local_time offset) =
     (if valid_datetime (local_time - offset) then Inr (local_time - offset) else Inl OverflowError)"

text \<open>
  The clock is read after the arguments are checked and before the store is touched: \<open>f\<close> is the
  operation as a function of the instant.
\<close>

definition at_clock :: "unit result \<Rightarrow> clock_reading \<Rightarrow> (datetime \<Rightarrow> ('s, 'a) op) \<Rightarrow> ('s, 'a) op" where
  "at_clock checks reading f d =
     (case res_bind checks (\<lambda>_. now_utc reading) of Inl e \<Rightarrow> (Inl e, d) | Inr now \<Rightarrow> f now d)"

lemma now_utc_valid: "now_utc reading = Inr now \<Longrightarrow> valid_datetime now"
  by (cases reading) (auto split: if_splits)

lemma at_clock_cases:
  obtains (Refused) e where "at_clock checks reading f d = (Inl e, d)"
  | (Ran) now where "valid_datetime now" and "at_clock checks reading f d = f now d"
  using now_utc_valid by (cases "res_bind checks (\<lambda>_. now_utc reading)") (auto simp: at_clock_def res_bind_Inr)

subsection \<open>The life cycle of one capability\<close>

text \<open>Live means neither consumed nor revoked; only a live capability changes.\<close>

definition cap_live :: "capability \<Rightarrow> bool" where
  "cap_live r \<longleftrightarrow> ec_consumed_at r = None \<and> ec_revoked_at r = None"

inductive cap_step :: "capability \<Rightarrow> capability \<Rightarrow> bool" where
  Claim: "cap_live r \<Longrightarrow> now < ec_expires_at r \<Longrightarrow> ec_claimed_flow_id r = None \<Longrightarrow>
    cap_step r (r\<lparr>ec_claimed_flow_id := Some f, ec_claimed_at := Some now\<rparr>)"
| Consume: "cap_live r \<Longrightarrow> now < ec_expires_at r \<Longrightarrow> ec_claimed_flow_id r = Some f \<Longrightarrow>
    cap_step r (r\<lparr>ec_consumed_at := Some now\<rparr>)"
| Release: "cap_live r \<Longrightarrow> ec_claimed_flow_id r = Some f \<Longrightarrow>
    cap_step r (r\<lparr>ec_claimed_flow_id := None, ec_claimed_at := None\<rparr>)"
| Revoke: "cap_live r \<Longrightarrow> cap_step r (r\<lparr>ec_revoked_at := Some now\<rparr>)"

inductive_cases cap_stepE: "cap_step r r'"

inductive cap_steps :: "capability \<Rightarrow> capability \<Rightarrow> bool" where
  Refl: "cap_steps r r"
| Step: "cap_steps r r' \<Longrightarrow> cap_step r' r'' \<Longrightarrow> cap_steps r r''"

lemma cap_step_live: "cap_step r r' \<Longrightarrow> cap_live r"
  by (auto elim: cap_stepE)

lemma cap_step_identity:
  "cap_step r r' \<Longrightarrow>
   ec_capability_id r' = ec_capability_id r \<and> ec_purpose r' = ec_purpose r \<and> ec_subject r' = ec_subject r
   \<and> ec_expires_at r' = ec_expires_at r \<and> ec_issued_by r' = ec_issued_by r"
  by (auto elim: cap_stepE)

lemma cap_steps_identity:
  "cap_steps r r' \<Longrightarrow>
   ec_capability_id r' = ec_capability_id r \<and> ec_purpose r' = ec_purpose r \<and> ec_subject r' = ec_subject r
   \<and> ec_expires_at r' = ec_expires_at r \<and> ec_issued_by r' = ec_issued_by r"
  by (induction rule: cap_steps.induct) (auto dest: cap_step_identity)

lemma cap_steps_dead: "cap_steps r r' \<Longrightarrow> \<not> cap_live r \<Longrightarrow> r' = r"
  by (induction rule: cap_steps.induct) (auto dest: cap_step_live)

text \<open>A capability that is consumed is claimed, and it is not also revoked.\<close>

definition cap_ok :: "capability \<Rightarrow> bool" where
  "cap_ok r \<longleftrightarrow>
     (ec_consumed_at r \<noteq> None \<longrightarrow> ec_claimed_flow_id r \<noteq> None \<and> ec_revoked_at r = None)
     \<and> (ec_claimed_at r \<noteq> None \<longleftrightarrow> ec_claimed_flow_id r \<noteq> None)"

lemma cap_step_ok: "cap_step r r' \<Longrightarrow> cap_ok r \<Longrightarrow> cap_ok r'"
  by (auto elim!: cap_stepE simp: cap_ok_def cap_live_def)

lemma cap_steps_ok: "cap_steps r r' \<Longrightarrow> cap_ok r \<Longrightarrow> cap_ok r'"
  by (induction rule: cap_steps.induct) (auto dest: cap_step_ok)

subsection \<open>Calls and runs\<close>

datatype cap_call =
    Issue string string string string int "string option"  \<comment> \<open>token, id, subject, purpose, ttl, issuer\<close>
  | ClaimCap string string string  \<comment> \<open>token, flow, purpose\<close>
  | ConsumeCap string
  | ReleaseCap string
  | RevokeCap string

datatype cap_reply = RIssued issued_capability | RCapability capability | RFlag bool

type_synonym cap_map = "string \<Rightarrow> (string \<times> capability) option"

text \<open>
  What a call may do to the capabilities, given its reply: nothing when it raises or returns
  False, else one step of one capability.
\<close>

fun call_effect :: "datetime \<Rightarrow> cap_call \<Rightarrow> cap_reply result \<Rightarrow> cap_map \<Rightarrow> cap_map \<Rightarrow> bool" where
  "call_effect now (Issue token cid subject purpose ttl issuer) r m m' =
     (case r of
        Inl e \<Rightarrow> m' = m
      | Inr (RIssued ic) \<Rightarrow>
          new_issued token cid subject purpose ttl issuer now = Inr (ic, token_hash token)
          \<and> validate_issue subject purpose ttl issuer = Inr ()
          \<and> m' = m(cid \<mapsto> (token_hash token, ic_capability ic))
      | _ \<Rightarrow> False)"
| "call_effect now (ClaimCap token flow purpose) r m m' =
     (case r of
        Inl e \<Rightarrow> m' = m
      | Inr (RCapability c) \<Rightarrow>
          (\<exists>cid c0. m cid = Some (token_hash token, c0) \<and> m' = m(cid \<mapsto> (token_hash token, c))
             \<and> ec_purpose c = purpose \<and> now < ec_expires_at c \<and> cap_live c0
             \<and> ec_claimed_flow_id c = Some flow \<and> (c = c0 \<or> cap_step c0 c))
      | _ \<Rightarrow> False)"
| "call_effect now (ConsumeCap flow) r m m' =
     (case r of
        Inl e \<Rightarrow> m' = m
      | Inr (RCapability c) \<Rightarrow>
          (\<exists>cid h c0. m cid = Some (h, c0) \<and> m' = m(cid \<mapsto> (h, c))
             \<and> ec_claimed_flow_id c0 = Some flow \<and> cap_live c0 \<and> now < ec_expires_at c0
             \<and> c = c0\<lparr>ec_consumed_at := Some now\<rparr>)
      | _ \<Rightarrow> False)"
| "call_effect now (ReleaseCap flow) r m m' =
     (case r of
        Inr (RFlag True) \<Rightarrow>
          (\<exists>cid h c0. m cid = Some (h, c0) \<and> ec_claimed_flow_id c0 = Some flow \<and> cap_live c0
             \<and> m' = m(cid \<mapsto> (h, c0\<lparr>ec_claimed_flow_id := None, ec_claimed_at := None\<rparr>)))
      | _ \<Rightarrow> m' = m)"
| "call_effect now (RevokeCap cid) r m m' =
     (case r of
        Inr (RFlag True) \<Rightarrow>
          (\<exists>h c0. m cid = Some (h, c0) \<and> cap_live c0 \<and> m' = m(cid \<mapsto> (h, c0\<lparr>ec_revoked_at := Some now\<rparr>)))
      | _ \<Rightarrow> m' = m)"

text \<open>An id that \<open>secrets.token_urlsafe\<close> returns is new.\<close>

fun call_fresh :: "cap_map \<Rightarrow> cap_call \<Rightarrow> bool" where
  "call_fresh m (Issue _ cid _ _ _ _) = (m cid = None)"
| "call_fresh m _ = True"

text \<open>Each call adds a fresh capability, or moves one along its life cycle, or changes nothing.\<close>

lemma consume_step:
  "cap_live c \<Longrightarrow> now < ec_expires_at c \<Longrightarrow> ec_claimed_flow_id c = Some f \<Longrightarrow>
   cap_step c (c\<lparr>ec_consumed_at := Some now\<rparr>)"
  by (rule cap_step.Consume)

lemma release_step:
  "cap_live c \<Longrightarrow> ec_claimed_flow_id c = Some f \<Longrightarrow>
   cap_step c (c\<lparr>ec_claimed_flow_id := None, ec_claimed_at := None\<rparr>)"
  by (rule cap_step.Release)

lemma effect_shape:
  assumes "call_effect now call r m m'"
  obtains (Same) "m' = m"
  | (Stepped) cid h c c' where "m cid = Some (h, c)" "m' = m(cid \<mapsto> (h, c'))" "c' = c \<or> cap_step c c'"
  | (Added) token cid subject purpose ttl issuer ic
      where "call = Issue token cid subject purpose ttl issuer"
        "new_issued token cid subject purpose ttl issuer now = Inr (ic, token_hash token)"
        "m' = m(cid \<mapsto> (token_hash token, ic_capability ic))"
proof (cases call)
  case (Issue token i subject purpose ttl issuer)
  with assms that show thesis by (auto split: sum.splits cap_reply.splits)
next
  case (ClaimCap token flow purpose)
  with assms that show thesis by (auto split: sum.splits cap_reply.splits)
next
  case (ConsumeCap flow)
  with assms that(1,2) consume_step show thesis
    by (auto split: sum.splits cap_reply.splits)
next
  case (ReleaseCap flow)
  with assms that(1,2) release_step show thesis
    by (auto split: sum.splits cap_reply.splits bool.splits)
next
  case (RevokeCap i)
  with assms that(1,2) cap_step.Revoke show thesis
    by (auto split: sum.splits cap_reply.splits bool.splits)
qed

lemma effect_step:
  assumes "call_effect now call r m m'" and "call_fresh m call" and "m cid = Some (h, c)"
  shows "\<exists>c'. m' cid = Some (h, c') \<and> (c' = c \<or> cap_step c c')"
  using assms(1)
proof (cases rule: effect_shape)
  case (Added token i subject purpose ttl issuer ic)
  with assms(2,3) show ?thesis by auto
qed (use assms(3) in auto)

fun consumes :: "string \<Rightarrow> cap_call \<times> cap_reply result \<Rightarrow> bool" where
  "consumes cid (ConsumeCap _, Inr (RCapability c)) = (ec_capability_id c = cid)"
| "consumes cid _ = False"

definition ids_ok :: "cap_map \<Rightarrow> bool" where
  "ids_ok m \<longleftrightarrow> (\<forall>cid h c. m cid = Some (h, c) \<longrightarrow> ec_capability_id c = cid \<and> cap_ok c)"

lemma effect_ids_ok:
  assumes "call_effect now call r m m'" and "ids_ok m"
  shows "ids_ok m'"
  using assms(1)
proof (cases rule: effect_shape)
  case (Stepped i h c c')
  then have "ec_capability_id c' = i" "cap_ok c'"
    using assms(2) cap_step_identity cap_step_ok by (auto simp: ids_ok_def)
  with Stepped(2) assms(2) show ?thesis by (simp add: ids_ok_def)
next
  case (Added token i subject purpose ttl issuer ic)
  then have "ec_capability_id (ic_capability ic) = i" "cap_ok (ic_capability ic)"
    by (auto simp: new_issued_def res_bind_Inr cap_ok_def)
  with Added(3) assms(2) show ?thesis by (simp add: ids_ok_def)
qed (use assms(2) in simp)

definition consumed :: "cap_map \<Rightarrow> string \<Rightarrow> bool" where
  "consumed m cid \<longleftrightarrow> (\<exists>h c. m cid = Some (h, c) \<and> ec_consumed_at c \<noteq> None)"

lemma effect_consumed:
  assumes "call_effect now call r m m'" and "call_fresh m call" and "ids_ok m"
  shows "consumed m cid \<Longrightarrow> consumed m' cid \<and> \<not> consumes cid (call, r)"
    and "consumes cid (call, r) \<Longrightarrow> consumed m' cid"
proof -
  assume c: "consumed m cid"
  then obtain h c where m: "m cid = Some (h, c)" "\<not> cap_live c" "ec_consumed_at c \<noteq> None"
    by (auto simp: consumed_def cap_live_def)
  have "consumed m' cid"
    using effect_step [OF assms(1,2) m(1)] m(2,3) cap_step_live by (auto simp: consumed_def)
  moreover have "\<not> consumes cid (call, r)"
    using assms(1,3) m by (auto simp: ids_ok_def elim!: consumes.elims split: if_splits)
  ultimately show "consumed m' cid \<and> \<not> consumes cid (call, r)" by simp
next
  assume "consumes cid (call, r)"
  then show "consumed m' cid"
    using assms(1,3) by (auto simp: ids_ok_def consumed_def elim!: consumes.elims)
qed

text \<open>
  The history of a run: whoever holds a claim on a capability has presented its token and its
  purpose earlier.
\<close>

type_synonym cap_history = "(cap_call \<times> cap_reply result) list"

definition claimed_by :: "cap_history \<Rightarrow> string \<Rightarrow> string \<Rightarrow> string \<Rightarrow> string \<Rightarrow> bool" where
  "claimed_by hist cid h purpose f \<longleftrightarrow>
     (\<exists>token c. (ClaimCap token f purpose, Inr (RCapability c)) \<in> set hist
        \<and> ec_capability_id c = cid \<and> h = token_hash token)"

definition history_ok :: "cap_history \<Rightarrow> cap_map \<Rightarrow> bool" where
  "history_ok hist m \<longleftrightarrow>
     (\<forall>cid h c f. m cid = Some (h, c) \<and> ec_claimed_flow_id c = Some f \<longrightarrow> claimed_by hist cid h (ec_purpose c) f)"

lemma claimed_by_mono: "claimed_by hist cid h p f \<Longrightarrow> claimed_by (hist @ later) cid h p f"
  by (auto simp: claimed_by_def)

lemma history_ok_put:
  assumes "history_ok hist m" and "m cid = Some (h, c)"
    and "\<And>f. ec_claimed_flow_id c' = Some f \<Longrightarrow> claimed_by (hist @ later) cid h (ec_purpose c') f"
  shows "history_ok (hist @ later) (m(cid \<mapsto> (h, c')))"
  using assms by (auto simp: history_ok_def claimed_by_mono split: if_splits)

lemma history_ok_more: "history_ok hist m \<Longrightarrow> history_ok (hist @ later) m"
  by (auto simp: history_ok_def claimed_by_mono)

lemma effect_history:
  assumes eff: "call_effect now call r m m'" and hist: "history_ok hist m" and ids: "ids_ok m"
  shows "history_ok (hist @ [(call, r)]) m'"
proof (cases call)
  case (Issue token i subject purpose ttl issuer)
  have "ec_claimed_flow_id (ic_capability ic) = None"
    if "new_issued token i subject purpose ttl issuer now = Inr (ic, token_hash token)" for ic
    using that by (auto simp: new_issued_def res_bind_Inr)
  with Issue eff hist show ?thesis
    by (auto simp: history_ok_def claimed_by_mono split: sum.splits cap_reply.splits if_splits)
next
  case (ClaimCap token flow purpose)
  show ?thesis
  proof (cases "\<exists>c. r = Inr (RCapability c)")
    case True
    then obtain c cid c0 where r: "r = Inr (RCapability c)"
      and m: "m cid = Some (token_hash token, c0)" "m' = m(cid \<mapsto> (token_hash token, c))"
      and c: "ec_purpose c = purpose" "ec_claimed_flow_id c = Some flow" "c = c0 \<or> cap_step c0 c"
      using eff ClaimCap by auto
    have "ec_capability_id c = cid"
      using c(3) m(1) ids cap_step_identity by (auto simp: ids_ok_def)
    then show ?thesis unfolding m(2)
      by (intro history_ok_put [OF hist m(1)]) (use c r ClaimCap in \<open>auto simp: claimed_by_def\<close>)
  next
    case False
    with eff ClaimCap have "m' = m" by (auto split: sum.splits cap_reply.splits)
    with hist show ?thesis by (simp add: history_ok_more)
  qed
next
  case (ConsumeCap flow)
  have "history_ok (hist @ later) (m(cid \<mapsto> (h, c\<lparr>ec_consumed_at := x\<rparr>)))"
    if "m cid = Some (h, c)" for cid h c x later
    by (rule history_ok_put [OF hist that])
      (use hist that in \<open>auto simp: history_ok_def claimed_by_mono\<close>)
  with eff hist ConsumeCap show ?thesis
    by (auto simp: history_ok_more split: sum.splits cap_reply.splits)
next
  case (ReleaseCap flow)
  have "history_ok (hist @ later) (m(cid \<mapsto> (h, c\<lparr>ec_claimed_flow_id := None, ec_claimed_at := None\<rparr>)))"
    if "m cid = Some (h, c)" for cid h c later
    by (rule history_ok_put [OF hist that]) simp
  with eff hist ReleaseCap show ?thesis
    by (auto simp: history_ok_more split: sum.splits cap_reply.splits bool.splits)
next
  case (RevokeCap i)
  have "history_ok (hist @ later) (m(cid \<mapsto> (h, c\<lparr>ec_revoked_at := x\<rparr>)))"
    if "m cid = Some (h, c)" for cid h c x later
    by (rule history_ok_put [OF hist that])
      (use hist that in \<open>auto simp: history_ok_def claimed_by_mono\<close>)
  with eff hist RevokeCap show ?thesis
    by (auto simp: history_ok_more split: sum.splits cap_reply.splits bool.splits)
qed

subsection \<open>The interface\<close>

text \<open>The checks of the arguments that a call makes before it reads its clock, and whether it does.\<close>

fun call_checks :: "cap_call \<Rightarrow> unit result" where
  "call_checks (Issue token cid subject purpose ttl issuer) = validate_issue subject purpose ttl issuer"
| "call_checks (ClaimCap token flow purpose) = validate_claim token flow purpose"
| "call_checks _ = Inr ()"

fun reads_clock :: "cap_call \<Rightarrow> bool" where
  "reads_clock (ReleaseCap _) = False"
| "reads_clock _ = True"

fun issue_ids :: "('t \<times> cap_call) list \<Rightarrow> string list" where
  "issue_ids [] = []"
| "issue_ids ((_, Issue _ cid _ _ _ _) # cs) = cid # issue_ids cs"
| "issue_ids (_ # cs) = issue_ids cs"

locale capability_store =
  fixes issue :: "string \<Rightarrow> string \<Rightarrow> datetime \<Rightarrow> string \<Rightarrow> string \<Rightarrow> int \<Rightarrow> string option
      \<Rightarrow> ('s, issued_capability) op"
    and claim :: "datetime \<Rightarrow> string \<Rightarrow> string \<Rightarrow> string \<Rightarrow> ('s, capability) op"
    and consume :: "datetime \<Rightarrow> string \<Rightarrow> ('s, capability) op"
    and release :: "string \<Rightarrow> ('s, bool) op"
    and revoke :: "datetime \<Rightarrow> string \<Rightarrow> ('s, bool) op"
    and records :: "'s \<Rightarrow> cap_map"
    and inv :: "'s \<Rightarrow> bool"
  assumes issue_inv: "inv s \<Longrightarrow> valid_datetime now \<Longrightarrow> inv (snd (issue token cid now subj p ttl by s))"
    and claim_inv: "inv s \<Longrightarrow> valid_datetime now \<Longrightarrow> inv (snd (claim now token f p s))"
    and consume_inv: "inv s \<Longrightarrow> valid_datetime now \<Longrightarrow> inv (snd (consume now f s))"
    and release_inv: "inv s \<Longrightarrow> inv (snd (release f s))"
    and revoke_inv: "inv s \<Longrightarrow> valid_datetime now \<Longrightarrow> inv (snd (revoke now cid s))"
    and issue_effect: "inv s \<Longrightarrow> valid_datetime now \<Longrightarrow>
      call_effect now (Issue token cid subj p ttl by) (map_sum id RIssued (fst (issue token cid now subj p ttl by s)))
        (records s) (records (snd (issue token cid now subj p ttl by s)))"
    and claim_effect: "inv s \<Longrightarrow> valid_datetime now \<Longrightarrow>
      call_effect now (ClaimCap token f p) (map_sum id RCapability (fst (claim now token f p s)))
        (records s) (records (snd (claim now token f p s)))"
    and consume_effect: "inv s \<Longrightarrow> valid_datetime now \<Longrightarrow>
      call_effect now (ConsumeCap f) (map_sum id RCapability (fst (consume now f s)))
        (records s) (records (snd (consume now f s)))"
    and release_effect: "inv s \<Longrightarrow>
      call_effect now (ReleaseCap f) (map_sum id RFlag (fst (release f s))) (records s) (records (snd (release f s)))"
    and revoke_effect: "inv s \<Longrightarrow> valid_datetime now \<Longrightarrow>
      call_effect now (RevokeCap cid) (map_sum id RFlag (fst (revoke now cid s)))
        (records s) (records (snd (revoke now cid s)))"
begin

fun cap_store_call :: "datetime \<Rightarrow> cap_call \<Rightarrow> ('s, cap_reply) op" where
  "cap_store_call now (Issue token cid subj p ttl issuer) s =
     map_prod (map_sum id RIssued) id (issue token cid now subj p ttl issuer s)"
| "cap_store_call now (ClaimCap token f p) s = map_prod (map_sum id RCapability) id (claim now token f p s)"
| "cap_store_call now (ConsumeCap f) s = map_prod (map_sum id RCapability) id (consume now f s)"
| "cap_store_call now (ReleaseCap f) s = map_prod (map_sum id RFlag) id (release f s)"
| "cap_store_call now (RevokeCap cid) s = map_prod (map_sum id RFlag) id (revoke now cid s)"

fun run_caps :: "(datetime \<times> cap_call) list \<Rightarrow> 's \<Rightarrow> cap_reply result list \<times> 's" where
  "run_caps [] s = ([], s)"
| "run_caps ((now, c) # cs) s =
     (let p = cap_store_call now c s; q = run_caps cs (snd p) in (fst p # fst q, snd q))"

lemma call_effect: "inv s \<Longrightarrow> valid_datetime now \<Longrightarrow>
    call_effect now c (fst (cap_store_call now c s)) (records s) (records (snd (cap_store_call now c s)))"
  using issue_effect claim_effect consume_effect release_effect revoke_effect by (cases c) simp_all

lemma call_inv: "inv s \<Longrightarrow> valid_datetime now \<Longrightarrow> inv (snd (cap_store_call now c s))"
  by (cases c) (simp_all add: issue_inv claim_inv consume_inv release_inv revoke_inv)

text \<open>The same calls with the reading of the clock that each of them finds; \<open>release\<close> reads none.\<close>

definition clocked_call :: "clock_reading \<Rightarrow> cap_call \<Rightarrow> ('s, cap_reply) op" where
  "clocked_call reading c =
     (if reads_clock c then at_clock (call_checks c) reading (\<lambda>now. cap_store_call now c)
      else cap_store_call 0 c)"

fun run_clocked :: "(clock_reading \<times> cap_call) list \<Rightarrow> 's \<Rightarrow> cap_reply result list \<times> 's" where
  "run_clocked [] s = ([], s)"
| "run_clocked ((reading, c) # cs) s =
     (let p = clocked_call reading c s; q = run_clocked cs (snd p) in (fst p # fst q, snd q))"

lemma clocked_call_cases:
  obtains (Refused) e where "clocked_call reading c s = (Inl e, s)"
  | (Ran) now where "valid_datetime now" and "clocked_call reading c s = cap_store_call now c s"
proof (cases "reads_clock c")
  case True
  show thesis
    by (rule at_clock_cases [of "call_checks c" reading "\<lambda>now. cap_store_call now c" s])
      (use True that in \<open>auto simp: clocked_call_def\<close>)
next
  case False
  then show thesis using that(2) [of 0] by (simp add: clocked_call_def valid_datetime_def datetime_max_def us_per_second_def)
qed

lemma run_consumes_once:
  "inv s \<Longrightarrow> ids_ok (records s) \<Longrightarrow> distinct (issue_ids cs) \<Longrightarrow> set (issue_ids cs) \<inter> dom (records s) = {} \<Longrightarrow>
   length (filter (consumes cid) (zip (map snd cs) (fst (run_clocked cs s)))) + (if consumed (records s) cid then 1 else 0) \<le> 1"
proof (induction cs arbitrary: s)
  case (Cons tc cs)
  obtain t c where tc: "tc = (t, c)" by force
  have rest: "distinct (issue_ids cs)" using Cons.prems(3) by (cases c) (auto simp: tc)
  show ?case
  proof (cases rule: clocked_call_cases [of t c s])
    case (Refused e)
    have "set (issue_ids cs) \<inter> dom (records s) = {}" using Cons.prems(4) by (cases c) (auto simp: tc)
    from Cons.IH [OF Cons.prems(1,2) rest this] Refused show ?thesis by (cases c) (simp_all add: tc Let_def)
  next
    case (Ran now)
    let ?r = "fst (cap_store_call now c s)" and ?s = "snd (cap_store_call now c s)"
    have eff: "call_effect now c ?r (records s) (records ?s)" using Cons.prems(1) Ran(1) by (rule call_effect)
    have fresh: "call_fresh (records s) c" using Cons.prems(4) by (cases c) (auto simp: tc)
    have dom: "dom (records ?s) \<subseteq> dom (records s) \<union> set (issue_ids [tc])"
      using eff by (cases rule: effect_shape) (auto simp: tc split: if_splits)
    have apart: "set (issue_ids cs) \<inter> dom (records ?s) = {}"
      using Cons.prems(3,4) dom by (cases c; force simp: tc)
    have IH: "length (filter (consumes cid) (zip (map snd cs) (fst (run_clocked cs ?s))))
        + (if consumed (records ?s) cid then 1 else 0) \<le> 1"
      using Cons.prems(1,2) Ran(1) rest apart by (intro Cons.IH call_inv effect_ids_ok [OF eff]) auto
    note step = effect_consumed [OF eff fresh Cons.prems(2), of cid]
    show ?thesis using IH step by (auto simp: tc Let_def Ran(2) split: if_split_asm)
  qed
qed simp

lemma run_history:
  "inv s \<Longrightarrow> ids_ok (records s) \<Longrightarrow> \<forall>(t, c) \<in> set cs. valid_datetime t \<Longrightarrow> history_ok hist (records s) \<Longrightarrow>
   inv (snd (run_caps cs s)) \<and> ids_ok (records (snd (run_caps cs s)))
   \<and> history_ok (hist @ zip (map snd cs) (fst (run_caps cs s))) (records (snd (run_caps cs s)))"
proof (induction cs arbitrary: s hist)
  case (Cons tc cs)
  obtain t c where tc: "tc = (t, c)" by force
  let ?p = "cap_store_call t c s"
  have t: "valid_datetime t" using Cons.prems tc by auto
  have eff: "call_effect t c (fst ?p) (records s) (records (snd ?p))" using Cons.prems(1) t by (rule call_effect)
  have "inv (snd (run_caps cs (snd ?p))) \<and> ids_ok (records (snd (run_caps cs (snd ?p))))
    \<and> history_ok ((hist @ [(c, fst ?p)]) @ zip (map snd cs) (fst (run_caps cs (snd ?p))))
        (records (snd (run_caps cs (snd ?p))))"
    using Cons.prems t
    by (intro Cons.IH call_inv effect_ids_ok [OF eff] effect_history [OF eff]) auto
  then show ?case by (simp add: tc Let_def)
qed simp

text \<open>A flow that consumes a capability has claimed that capability with its token before.\<close>

lemma consume_was_claimed:
  assumes "inv s" and "records s = (\<lambda>_. None)" and "\<forall>(t, c) \<in> set cs. valid_datetime t" and "valid_datetime now"
    and "consume now f (snd (run_caps cs s)) = (Inr c, s')"
  shows "now < ec_expires_at c \<and> (\<exists>cid h. records (snd (run_caps cs s)) cid = Some (h, c\<lparr>ec_consumed_at := None\<rparr>)
    \<and> claimed_by (zip (map snd cs) (fst (run_caps cs s))) cid h (ec_purpose c) f)"
proof -
  let ?s = "snd (run_caps cs s)"
  have run: "inv ?s" "ids_ok (records ?s)" "history_ok ([] @ zip (map snd cs) (fst (run_caps cs s))) (records ?s)"
    using run_history [OF assms(1) _ assms(3), of "[]"] by (auto simp: assms(2) ids_ok_def history_ok_def)
  from consume_effect [OF run(1) assms(4), of f] assms(5)
  obtain cid h c0 where c0: "records ?s cid = Some (h, c0)" "ec_claimed_flow_id c0 = Some f" "cap_live c0"
    "now < ec_expires_at c0" "c = c0\<lparr>ec_consumed_at := Some now\<rparr>"
    by auto
  then have "c\<lparr>ec_consumed_at := None\<rparr> = c0" by (simp add: cap_live_def)
  moreover have "claimed_by (zip (map snd cs) (fst (run_caps cs s))) cid h (ec_purpose c0) f"
    using run(3) c0(1,2) by (auto simp: history_ok_def)
  moreover have "ec_purpose c = ec_purpose c0" "now < ec_expires_at c" using c0 by simp_all
  ultimately show ?thesis using c0(1) by metis
qed

end

subsection \<open>The memory store implements the interface\<close>

definition cap_dict_ok :: "cap_dict \<Rightarrow> bool" where
  "cap_dict_ok d \<longleftrightarrow> dict_ok d"

lemma find_digest_SomeD:
  "cap_dict_ok d \<Longrightarrow> find_digest h d = Some (cid, h', r) \<Longrightarrow> map_of d cid = Some (h, r) \<and> h' = h"
  by (auto simp: find_digest_def cap_dict_ok_def map_of_Some_iff_dict dest!: find_Some_in)

lemma find_flow_SomeD:
  "cap_dict_ok d \<Longrightarrow> find_flow f d = Some (cid, h, r) \<Longrightarrow>
   map_of d cid = Some (h, r) \<and> ec_claimed_flow_id r = Some f"
  by (auto simp: find_flow_def cap_dict_ok_def map_of_Some_iff_dict dest!: find_Some_in)

lemma new_issued_id:
  "new_issued token cid subject p ttl issuer now = Inr (ic, h) \<Longrightarrow>
   ec_capability_id (ic_capability ic) = cid \<and> h = token_hash token"
  by (auto simp: new_issued_def res_bind_Inr)

interpretation memcap: capability_store mem_issue mem_claim mem_consume mem_release mem_revoke map_of cap_dict_ok
proof (unfold_locales, goal_cases)
  case (6 s now token cid subj p ttl issuer)
  then show ?case
    by (auto simp: mem_issue_def dict_simps dest: new_issued_id split: sum.splits prod.splits)
next
  case (7 s now token f p)
  then show ?case
    by (auto simp: mem_claim_def dict_simps Let_def cap_live_def fun_upd_idem
        dest!: find_digest_SomeD split: sum.splits option.splits intro!: cap_step.Claim exI)
next
  case (8 s now f)
  show ?case
  proof (cases "find_flow f s")
    case None
    then show ?thesis by (simp add: mem_consume_def)
  next
    case (Some item)
    then obtain cid h r where item: "find_flow f s = Some (cid, h, r)" by (cases item) auto
    note r = find_flow_SomeD [OF 8(1) item]
    show ?thesis
    proof (cases "cap_live r \<and> now < ec_expires_at r")
      case True
      with r show ?thesis
        by (simp add: mem_consume_def item Let_def dict_simps cap_live_def) blast
    next
      case False
      then show ?thesis by (auto simp: mem_consume_def item cap_live_def)
    qed
  qed
next
  case (9 s now f)
  then show ?case
    by (auto simp: mem_release_def dict_simps cap_live_def dest!: find_flow_SomeD split: option.splits)
next
  case (10 s now cid)
  then show ?case
    by (auto simp: mem_revoke_def dict_simps cap_live_def split: option.splits)
qed (auto simp: cap_dict_ok_def mem_issue_def mem_claim_def mem_consume_def mem_release_def mem_revoke_def Let_def
    split: sum.splits prod.splits option.splits)

end
