(* ===== verification/EnrollmentSqlite.thy ===== *)
theory EnrollmentSqlite
  imports Enrollment SqliteConn
begin

section \<open>\<open>SQLiteEnrollmentCapabilityStore\<close> (\<open>enrollment.py\<close>)\<close>

text \<open>
  The table \<open>passkey_enrollment_capabilities\<close> with its primary key and its two UNIQUE columns,
  and each operation as its one statement. The store's own \<open>_connection\<close> joins a transaction
  that is open and owns one otherwise. The table is compared with the dictionary of the memory
  store row by row: the two stores take the same steps as long as a flow id is used for one
  token only, and the interface \<open>capability_store\<close> holds without that condition.
\<close>

record cap_row =
  er_capability_id :: string
  er_token_hash :: string
  er_purpose :: string
  er_subject :: string
  er_expires_at :: string
  er_issued_by :: "string option"
  er_claimed_flow_id :: "string option"
  er_claimed_at :: "string option"
  er_consumed_at :: "string option"
  er_revoked_at :: "string option"

type_synonym cap_table = "cap_row list"

definition optional_datetime :: "string option \<Rightarrow> datetime option result" where
  "optional_datetime value =
     (case value of None \<Rightarrow> Inr None | Some s \<Rightarrow> map_sum id Some (fromisoformat s))"

definition capability_from_row :: "cap_row \<Rightarrow> capability result" where
  "capability_from_row w =
     res_bind (fromisoformat (er_expires_at w)) (\<lambda>expires.
     res_bind (optional_datetime (er_claimed_at w)) (\<lambda>claimed.
     res_bind (optional_datetime (er_consumed_at w)) (\<lambda>consumed_at.
     res_bind (optional_datetime (er_revoked_at w)) (\<lambda>revoked.
       Inr \<lparr>ec_capability_id = er_capability_id w, ec_purpose = er_purpose w, ec_subject = er_subject w,
            ec_expires_at = expires, ec_issued_by = er_issued_by w,
            ec_claimed_flow_id = er_claimed_flow_id w, ec_claimed_at = claimed,
            ec_consumed_at = consumed_at, ec_revoked_at = revoked\<rparr>))))"

definition capability_values :: "string \<Rightarrow> capability \<Rightarrow> cap_row" where
  "capability_values digest r =
     \<lparr>er_capability_id = ec_capability_id r, er_token_hash = digest, er_purpose = ec_purpose r,
      er_subject = ec_subject r, er_expires_at = isoformat (ec_expires_at r),
      er_issued_by = ec_issued_by r, er_claimed_flow_id = ec_claimed_flow_id r,
      er_claimed_at = map_option isoformat (ec_claimed_at r),
      er_consumed_at = map_option isoformat (ec_consumed_at r),
      er_revoked_at = map_option isoformat (ec_revoked_at r)\<rparr>"

text \<open>\<open>_connection(mutation=True)\<close>: it begins and ends a transaction only if none is open.\<close>

definition enroll_connection :: "('db, 'a) op \<Rightarrow> ('db conn, 'a) op" where
  "enroll_connection body c =
     (if in_tx c then (case body (current c) of (r, db) \<Rightarrow> (r, c\<lparr>current := db\<rparr>))
      else (case conn_begin c of
          (Inl e, c') \<Rightarrow> (Inl e, conn_rollback c')
        | (Inr _, c') \<Rightarrow>
            (case body (current c') of
               (Inr a, db) \<Rightarrow> (Inr a, conn_commit (c'\<lparr>current := db\<rparr>))
             | (Inl e, db) \<Rightarrow> (Inl e, conn_rollback (c'\<lparr>current := db\<rparr>)))))"

definition enroll_call :: "('db, 'a) op \<Rightarrow> ('db, 'a) op" where
  "enroll_call body db = map_prod id committed (enroll_connection body (fresh_conn db))"

lemma enroll_call_run [store_simps]:
  "enroll_call body db = (case body db of (Inr a, db') \<Rightarrow> (Inr a, db') | (Inl e, _) \<Rightarrow> (Inl e, db))"
  by (simp add: enroll_call_def enroll_connection_def fresh_conn_def conn_begin_def conn_commit_def
      conn_rollback_def split: prod.split sum.split)

subsection \<open>Statements\<close>

text \<open>NULLs are not equal in a UNIQUE column.\<close>

definition flow_ids :: "cap_table \<Rightarrow> string list" where
  "flow_ids rows = concat (map (\<lambda>w. case er_claimed_flow_id w of None \<Rightarrow> [] | Some f \<Rightarrow> [f]) rows)"

definition insert_cap :: "cap_row \<Rightarrow> (cap_table, unit) op" where
  "insert_cap w rows =
     (if er_capability_id w \<in> er_capability_id ` set rows
      then (Inl (IntegrityError ''UNIQUE constraint failed: capability_id''), rows)
      else if er_token_hash w \<in> er_token_hash ` set rows
      then (Inl (IntegrityError ''UNIQUE constraint failed: token_hash''), rows)
      else (Inr (), rows @ [w]))"

text \<open>
  \<open>UPDATE ... SET ... WHERE ... RETURNING\<close>: the rows it changed, as they are afterwards; a
  violation of the UNIQUE flow column undoes the statement.
\<close>

definition update_caps :: "(cap_row \<Rightarrow> bool) \<Rightarrow> (cap_row \<Rightarrow> cap_row) \<Rightarrow> (cap_table, cap_row list) op" where
  "update_caps P f rows =
     (let rows' = map (\<lambda>w. if P w then f w else w) rows in
      if \<not> distinct (flow_ids rows')
      then (Inl (IntegrityError ''UNIQUE constraint failed: claimed_flow_id''), rows)
      else (Inr (map f (filter P rows)), rows'))"

subsection \<open>Operations\<close>

definition sql_issue ::
  "string \<Rightarrow> string \<Rightarrow> datetime \<Rightarrow> string \<Rightarrow> string \<Rightarrow> int \<Rightarrow> string option \<Rightarrow> (cap_table, issued_capability) op" where
  "sql_issue token cid now subject purpose ttl issued_by rows =
     (case validate_issue subject purpose ttl issued_by of
        Inl e \<Rightarrow> (Inl e, rows)
      | Inr _ \<Rightarrow>
          (case new_issued token cid subject purpose ttl issued_by now of
             Inl e \<Rightarrow> (Inl e, rows)
           | Inr (issued, digest) \<Rightarrow>
               map_prod (map_sum id (\<lambda>_. issued)) id
                 (enroll_call (insert_cap (capability_values digest (ic_capability issued))) rows)))"

text \<open>The returned row, read after the transaction: no row is the one exception.\<close>

definition first_capability :: "cap_row list result \<Rightarrow> capability result" where
  "first_capability r =
     res_bind r (\<lambda>ws. case ws of [] \<Rightarrow> Inl unavailable | w # _ \<Rightarrow> capability_from_row w)"

definition sql_claim :: "datetime \<Rightarrow> string \<Rightarrow> string \<Rightarrow> string \<Rightarrow> (cap_table, capability) op" where
  "sql_claim now token flow_id expected_purpose rows =
     (case validate_claim token flow_id expected_purpose of
        Inl e \<Rightarrow> (Inl e, rows)
      | Inr _ \<Rightarrow>
          map_prod first_capability id
            (enroll_call (update_caps
               (\<lambda>w. er_token_hash w = token_hash token \<and> er_purpose w = expected_purpose
                  \<and> isoformat now < er_expires_at w \<and> er_consumed_at w = None \<and> er_revoked_at w = None
                  \<and> (er_claimed_flow_id w = None \<or> er_claimed_flow_id w = Some flow_id))
               (\<lambda>w. w\<lparr>er_claimed_flow_id := (case er_claimed_flow_id w of None \<Rightarrow> Some flow_id | Some f \<Rightarrow> Some f),
                       er_claimed_at := (case er_claimed_at w of None \<Rightarrow> Some (isoformat now) | Some t \<Rightarrow> Some t)\<rparr>))
              rows))"

definition sql_consume :: "datetime \<Rightarrow> string \<Rightarrow> (cap_table, capability) op" where
  "sql_consume now flow_id rows =
     map_prod first_capability id
       (enroll_call (update_caps
          (\<lambda>w. er_claimed_flow_id w = Some flow_id \<and> isoformat now < er_expires_at w
             \<and> er_consumed_at w = None \<and> er_revoked_at w = None)
          (\<lambda>w. w\<lparr>er_consumed_at := Some (isoformat now)\<rparr>)) rows)"

text \<open>\<open>rowcount == 1\<close>.\<close>

definition one_row :: "cap_row list result \<Rightarrow> bool result" where
  "one_row r = res_bind r (\<lambda>ws. Inr (length ws = 1))"

definition sql_release :: "string \<Rightarrow> (cap_table, bool) op" where
  "sql_release flow_id rows =
     map_prod one_row id
       (enroll_call (update_caps
          (\<lambda>w. er_claimed_flow_id w = Some flow_id \<and> er_consumed_at w = None \<and> er_revoked_at w = None)
          (\<lambda>w. w\<lparr>er_claimed_flow_id := None, er_claimed_at := None\<rparr>)) rows)"

definition sql_revoke :: "datetime \<Rightarrow> string \<Rightarrow> (cap_table, bool) op" where
  "sql_revoke now cid rows =
     map_prod one_row id
       (enroll_call (update_caps
          (\<lambda>w. er_capability_id w = cid \<and> er_consumed_at w = None \<and> er_revoked_at w = None)
          (\<lambda>w. w\<lparr>er_revoked_at := Some (isoformat now)\<rparr>)) rows)"

subsection \<open>The table as an encoded dictionary\<close>

definition cap_repr :: "capability \<Rightarrow> bool" where
  "cap_repr r \<longleftrightarrow> valid_datetime (ec_expires_at r)
     \<and> (\<forall>t \<in> set_option (ec_claimed_at r) \<union> set_option (ec_consumed_at r) \<union> set_option (ec_revoked_at r).
          valid_datetime t)
     \<and> (ec_claimed_at r = None \<longleftrightarrow> ec_claimed_flow_id r = None)"

definition enc :: "string \<times> string \<times> capability \<Rightarrow> cap_row" where
  "enc item = capability_values (fst (snd item)) (snd (snd item))"

definition item_ok :: "string \<times> string \<times> capability \<Rightarrow> bool" where
  "item_ok item \<longleftrightarrow> ec_capability_id (snd (snd item)) = fst item \<and> cap_repr (snd (snd item))"

definition cap_items_ok :: "cap_dict \<Rightarrow> bool" where
  "cap_items_ok d \<longleftrightarrow>
     dict_ok d \<and> distinct (map (\<lambda>item. fst (snd item)) d) \<and> distinct (flow_ids (map enc d))
     \<and> (\<forall>item \<in> set d. item_ok item)"

definition cap_table_ok :: "cap_table \<Rightarrow> bool" where
  "cap_table_ok rows \<longleftrightarrow> (\<exists>d. rows = map enc d \<and> cap_items_ok d)"

lemma optional_datetime_text [simp]:
  "\<forall>t \<in> set_option v. valid_datetime t \<Longrightarrow> optional_datetime (map_option isoformat v) = Inr v"
  by (cases v) (simp_all add: optional_datetime_def fromisoformat_text)

lemma capability_row_roundtrip: "cap_repr r \<Longrightarrow> capability_from_row (capability_values h r) = Inr r"
  by (simp add: capability_from_row_def capability_values_def cap_repr_def fromisoformat_text)

lemma enc_simps [simp]:
  "er_capability_id (enc item) = ec_capability_id (snd (snd item))"
  "er_token_hash (enc item) = fst (snd item)"
  "er_purpose (enc item) = ec_purpose (snd (snd item))"
  "er_expires_at (enc item) = isoformat (ec_expires_at (snd (snd item)))"
  "er_claimed_flow_id (enc item) = ec_claimed_flow_id (snd (snd item))"
  "er_claimed_at (enc item) = map_option isoformat (ec_claimed_at (snd (snd item)))"
  "er_consumed_at (enc item) = None \<longleftrightarrow> ec_consumed_at (snd (snd item)) = None"
  "er_revoked_at (enc item) = None \<longleftrightarrow> ec_revoked_at (snd (snd item)) = None"
  by (simp_all add: enc_def capability_values_def)

lemma flow_ids_Cons:
  "flow_ids (w # rows) = (case er_claimed_flow_id w of None \<Rightarrow> [] | Some f \<Rightarrow> [f]) @ flow_ids rows"
  by (simp add: flow_ids_def)

lemma flow_ids_mem: "f \<in> set (flow_ids rows) \<longleftrightarrow> (\<exists>w \<in> set rows. er_claimed_flow_id w = Some f)"
  by (induction rows) (auto simp: flow_ids_def split: option.splits)

lemma flow_ids_append: "flow_ids (xs @ ys) = flow_ids xs @ flow_ids ys"
  by (simp add: flow_ids_def)

text \<open>A flow id claims at most one item.\<close>

lemma flow_unique:
  assumes "distinct (flow_ids rows)" and "w \<in> set rows" and "v \<in> set rows"
    and "er_claimed_flow_id w = Some f" and "er_claimed_flow_id v = Some f"
  shows "w = v"
  using assms
proof (induction rows)
  case (Cons x rows)
  then show ?case by (auto simp: flow_ids_Cons flow_ids_mem split: option.splits)
qed simp

text \<open>Updating one item of the dictionary is updating one row.\<close>

lemma update_present:
  "dict_ok d \<Longrightarrow> map_of d k = Some v \<Longrightarrow> AList.update k v' d = map (\<lambda>p. if fst p = k then (k, v') else p) d"
proof (induction d)
  case (Cons p d)
  show ?case
  proof (cases "fst p = k")
    case True
    with Cons.prems have "k \<notin> fst ` set d" by auto
    then have "map (\<lambda>p. if fst p = k then (k, v') else p) d = d" by (intro map_idI) auto
    with True show ?thesis by (cases p) auto
  next
    case False
    with Cons show ?thesis by (cases p) auto
  qed
qed simp

lemma update_absent: "k \<notin> fst ` set d \<Longrightarrow> AList.update k v d = d @ [(k, v)]"
  by (induction d) auto

lemma update_rows:
  assumes ok: "cap_items_ok d" and mem: "map_of d cid = Some (h, r)"
    and hit: "\<And>item. item \<in> set d \<Longrightarrow> P (enc item) \<longleftrightarrow> fst item = cid"
    and f: "f (enc (cid, h, r)) = enc (cid, h, r')"
  shows "map (\<lambda>w. if P w then f w else w) (map enc d) = map enc (AList.update cid (h, r') d)"
    and "filter P (map enc d) = [enc (cid, h, r)]"
proof -
  have d: "dict_ok d" using ok by (simp add: cap_items_ok_def)
  have only: "item \<in> set d \<Longrightarrow> fst item = cid \<Longrightarrow> item = (cid, h, r)" for item
    using mem d by (metis map_of_Some_iff_dict option.inject prod.collapse)
  show "map (\<lambda>w. if P w then f w else w) (map enc d) = map enc (AList.update cid (h, r') d)"
    unfolding update_present [OF d mem] map_map
  proof (rule map_cong [OF refl])
    fix item assume "item \<in> set d"
    then have "P (enc item) \<longleftrightarrow> fst item = cid" "fst item = cid \<Longrightarrow> enc item = enc (cid, h, r)"
      using hit only by auto
    then show "((\<lambda>w. if P w then f w else w) \<circ> enc) item = (enc \<circ> (\<lambda>p. if fst p = cid then (cid, h, r') else p)) item"
      using f by simp
  qed
  have "filter (P \<circ> enc) d = filter (\<lambda>item. fst item = cid \<and> True) d"
    using hit by (intro filter_cong) auto
  also have "\<dots> = [(cid, h, r)]"
  proof -
    have sel: "select_by fst cid d = Some (cid, h, r)"
      using mem d by (simp add: select_by_Some map_of_Some_iff_dict)
    show ?thesis using filter_key_eq [OF d, of cid "\<lambda>_. True"] by (simp add: sel)
  qed
  finally show "filter P (map enc d) = [enc (cid, h, r)]" by (simp add: filter_map)
qed

lemma update_rows_none:
  assumes "\<And>item. item \<in> set d \<Longrightarrow> \<not> P (enc item)"
  shows "map (\<lambda>w. if P w then f w else w) (map enc d) = map enc d" and "filter P (map enc d) = []"
  using assms by (auto simp: filter_empty_conv)

text \<open>The dictionary around one item.\<close>

lemma update_split:
  assumes "dict_ok d" and "map_of d cid = Some v"
  obtains xs ys where "d = xs @ (cid, v) # ys" "\<And>v'. AList.update cid v' d = xs @ (cid, v') # ys"
proof -
  from assms have "(cid, v) \<in> set d" by (simp add: map_of_Some_iff_dict)
  then obtain xs ys where d: "d = xs @ (cid, v) # ys" by (auto dest: split_list)
  with assms(1) have "cid \<notin> fst ` set xs" by auto
  then have "AList.update cid v' (xs @ (cid, v) # ys) = xs @ (cid, v') # ys" for v'
    by (induction xs) auto
  with d that show thesis by blast
qed

lemma flows_update:
  assumes "dict_ok d" and "map_of d cid = Some (h, r)" and "distinct (flow_ids (map enc d))"
  shows "ec_claimed_flow_id r' = ec_claimed_flow_id r \<Longrightarrow>
      flow_ids (map enc (AList.update cid (h, r') d)) = flow_ids (map enc d)"
    and "ec_claimed_flow_id r' = None \<Longrightarrow> distinct (flow_ids (map enc (AList.update cid (h, r') d)))"
    and "ec_claimed_flow_id r = None \<Longrightarrow> ec_claimed_flow_id r' = Some f \<Longrightarrow>
      distinct (flow_ids (map enc (AList.update cid (h, r') d))) \<longleftrightarrow> f \<notin> set (flow_ids (map enc d))"
proof -
  obtain xs ys where d: "d = xs @ (cid, h, r) # ys"
    and upd: "AList.update cid (h, r') d = xs @ (cid, h, r') # ys"
    using update_split [OF assms(1,2)] by metis
  show "ec_claimed_flow_id r' = ec_claimed_flow_id r \<Longrightarrow>
      flow_ids (map enc (AList.update cid (h, r') d)) = flow_ids (map enc d)"
    unfolding upd unfolding d by (simp add: flow_ids_append flow_ids_Cons)
  show "ec_claimed_flow_id r' = None \<Longrightarrow> distinct (flow_ids (map enc (AList.update cid (h, r') d)))"
    unfolding upd using assms(3) unfolding d by (auto simp: flow_ids_append flow_ids_Cons split: option.splits)
  show "ec_claimed_flow_id r = None \<Longrightarrow> ec_claimed_flow_id r' = Some f \<Longrightarrow>
      distinct (flow_ids (map enc (AList.update cid (h, r') d))) \<longleftrightarrow> f \<notin> set (flow_ids (map enc d))"
    unfolding upd using assms(3) unfolding d by (auto simp: flow_ids_append flow_ids_Cons)
qed

lemma cap_itemsD:
  assumes "cap_items_ok d"
  shows "dict_ok d" and "distinct (flow_ids (map enc d))" and "distinct (map (\<lambda>item. fst (snd item)) d)"
    and "cap_dict_ok d" and "map_of d cid = Some (h, r) \<Longrightarrow> ec_capability_id r = cid \<and> cap_repr r"
  using assms by (auto simp: cap_items_ok_def cap_dict_ok_def item_ok_def map_of_Some_iff_dict)

lemma items_ok_update:
  assumes ok: "cap_items_ok d" and mem: "map_of d cid = Some (h, r)"
    and new: "ec_capability_id r' = cid" "cap_repr r'"
    and flows: "distinct (flow_ids (map enc (AList.update cid (h, r') d)))"
  shows "cap_items_ok (AList.update cid (h, r') d)"
proof -
  obtain xs ys where d: "d = xs @ (cid, h, r) # ys"
    and upd: "AList.update cid (h, r') d = xs @ (cid, h, r') # ys"
    using update_split [OF cap_itemsD(1) [OF ok] mem] by metis
  show ?thesis
    using ok flows new unfolding cap_items_ok_def upd unfolding d by (auto simp: item_ok_def)
qed

lemma find_digest_unique:
  assumes "cap_items_ok d" and "map_of d cid = Some (h, r)"
  shows "find_digest h d = Some (cid, h, r)"
proof -
  have mem: "(cid, h, r) \<in> set d" using assms cap_itemsD(1) by (simp add: map_of_Some_iff_dict)
  have "List.find (\<lambda>item. fst (snd item) = h \<and> True) d = Some (cid, h, r)"
    using find_key [OF cap_itemsD(3) [OF assms(1)], of h "\<lambda>_. True"]
      select_by_Some [OF cap_itemsD(3) [OF assms(1)], of h "(cid, h, r)"] mem by simp
  then show ?thesis by (simp add: find_digest_def)
qed

lemma find_flow_unique:
  assumes ok: "cap_items_ok d" and mem: "map_of d cid = Some (h, r)" and f: "ec_claimed_flow_id r = Some f"
  shows "find_flow f d = Some (cid, h, r)"
  unfolding find_flow_def
proof (rule find_cong_unique)
  show "(cid, h, r) \<in> set d" using mem cap_itemsD(1) [OF ok] by (simp add: map_of_Some_iff_dict)
  show "ec_claimed_flow_id (snd (snd (cid, h, r))) = Some f" using f by simp
  fix x y
  assume xy: "x \<in> set d" "y \<in> set d" "ec_claimed_flow_id (snd (snd x)) = Some f"
    "ec_claimed_flow_id (snd (snd y)) = Some f"
  then have "enc x = enc y"
    using flow_unique [OF cap_itemsD(2) [OF ok], of "enc x" "enc y" f] by simp
  then have "fst x = fst y" using xy ok
    unfolding cap_items_ok_def item_ok_def by (metis enc_simps(1))
  then show "x = y" using xy cap_itemsD(1) [OF ok]
    by (metis eq_key_imp_eq_value prod.collapse)
qed

lemma find_flow_NoneD: "find_flow f d = None \<Longrightarrow> item \<in> set d \<Longrightarrow> ec_claimed_flow_id (snd (snd item)) \<noteq> Some f"
  unfolding find_flow_def find_None_iff by blast

text \<open>An UPDATE that hits one item, or none.\<close>

lemma update_caps_hit:
  assumes ok: "cap_items_ok d" and mem: "map_of d cid = Some (h, r)"
    and hit: "\<And>item. item \<in> set d \<Longrightarrow> P (enc item) \<longleftrightarrow> fst item = cid"
    and f: "f (enc (cid, h, r)) = enc (cid, h, r')"
  shows "enroll_call (update_caps P f) (map enc d) =
    (if distinct (flow_ids (map enc (AList.update cid (h, r') d)))
     then (Inr [enc (cid, h, r')], map enc (AList.update cid (h, r') d))
     else (Inl (IntegrityError ''UNIQUE constraint failed: claimed_flow_id''), map enc d))"
  by (simp only: enroll_call_run update_caps_def Let_def update_rows [where P = P and f = f, OF ok mem hit f]
      list.map f) simp

lemma update_caps_none:
  assumes ok: "cap_items_ok d" and "\<And>item. item \<in> set d \<Longrightarrow> \<not> P (enc item)"
  shows "enroll_call (update_caps P f) (map enc d) = (Inr [], map enc d)"
  using cap_itemsD(2) [OF ok] by (simp only: enroll_call_run update_caps_def Let_def
      update_rows_none [where P = P, OF assms(2)]) simp

subsection \<open>Each operation against the memory store\<close>

lemma expires_item:
  "cap_items_ok d \<Longrightarrow> item \<in> set d \<Longrightarrow> valid_datetime now \<Longrightarrow>
   isoformat now < isoformat (ec_expires_at (snd (snd item))) \<longleftrightarrow> now < ec_expires_at (snd (snd item))"
  by (auto simp: cap_items_ok_def item_ok_def cap_repr_def isoformat_less)

lemma first_capability_enc:
  "cap_repr r \<Longrightarrow> first_capability (Inr [enc (cid, h, r)]) = Inr r"
  by (simp add: first_capability_def enc_def capability_row_roundtrip)

text \<open>The dictionary the table stands for, by key: an item is told by its id.\<close>

lemma item_of_key:
  "cap_items_ok d \<Longrightarrow> map_of d cid = Some (h, r) \<Longrightarrow> item \<in> set d \<Longrightarrow> fst item = cid \<longleftrightarrow> item = (cid, h, r)"
  using cap_itemsD(1) by (metis fst_conv map_of_Some_iff_dict option.inject prod.collapse)

lemma item_of_digest:
  assumes "cap_items_ok d" and "map_of d cid = Some (h, r)" and "item \<in> set d"
  shows "fst (snd item) = h \<longleftrightarrow> fst item = cid"
proof -
  obtain c h' r' where item: "item = (c, h', r')" by (cases item) auto
  with assms(1,3) have "map_of d c = Some (h', r')" using cap_itemsD(1) by (simp add: map_of_Some_iff_dict)
  then show ?thesis
    using find_digest_unique [OF assms(1), of c h' r'] find_digest_unique [OF assms(1,2)] assms(2)
    by (auto simp: item)
qed

lemma item_of_flow:
  assumes "cap_items_ok d" and "map_of d cid = Some (h, r)" and "ec_claimed_flow_id r = Some f" and "item \<in> set d"
  shows "ec_claimed_flow_id (snd (snd item)) = Some f \<longleftrightarrow> fst item = cid"
proof -
  obtain c h' r' where item: "item = (c, h', r')" by (cases item) auto
  with assms(1,4) have "map_of d c = Some (h', r')" using cap_itemsD(1) by (simp add: map_of_Some_iff_dict)
  then show ?thesis
    using find_flow_unique [OF assms(1), of c h' r' f] find_flow_unique [OF assms(1-3)] assms(2,3)
    by (auto simp: item)
qed

text \<open>
  The one pattern of consuming, releasing and revoking: a statement whose WHERE selects the row of one
  capability, or none when the condition \<open>G\<close> on that capability fails.
\<close>

lemma update_one_cap:
  assumes ok: "cap_items_ok d" and mem: "map_of d cid = Some (h, r)"
    and P: "\<And>x. x \<in> set d \<Longrightarrow> P (enc x) \<longleftrightarrow> fst x = cid \<and> G"
    and f: "f (enc (cid, h, r)) = enc (cid, h, r')"
    and r': "cap_repr r'" "ec_capability_id r' = ec_capability_id r"
      "ec_claimed_flow_id r' = None \<or> ec_claimed_flow_id r' = ec_claimed_flow_id r"
  shows "enroll_call (update_caps P f) (map enc d) =
      (if G then (Inr [enc (cid, h, r')], map enc (AList.update cid (h, r') d)) else (Inr [], map enc d))"
    and "cap_items_ok (AList.update cid (h, r') d)"
proof -
  note d = cap_itemsD(1,2) [OF ok]
  have flows: "distinct (flow_ids (map enc (AList.update cid (h, r') d)))"
    using r'(3) flows_update(1,2) [OF d(1) mem d(2), of r'] d(2) by auto
  show "enroll_call (update_caps P f) (map enc d) =
      (if G then (Inr [enc (cid, h, r')], map enc (AList.update cid (h, r') d)) else (Inr [], map enc d))"
  proof (cases G)
    case True
    then show ?thesis using update_caps_hit [OF ok mem, of P f r', OF _ f] P flows by simp
  next
    case False
    then show ?thesis using update_caps_none [OF ok, of P f] P by simp
  qed
  show "cap_items_ok (AList.update cid (h, r') d)"
    using cap_itemsD(5) [OF ok mem] r' flows by (intro items_ok_update [OF ok mem]) simp_all
qed

lemma sql_consume_step:
  assumes ok: "cap_items_ok d" and now: "valid_datetime now"
  shows "sql_consume now f (map enc d) = map_prod id (map enc) (mem_consume now f d)
    \<and> cap_items_ok (snd (mem_consume now f d))"
proof (cases "find_flow f d")
  case None
  then show ?thesis
    using ok update_caps_none [OF ok] find_flow_NoneD [OF None]
    by (simp add: sql_consume_def mem_consume_def first_capability_def)
next
  case (Some item)
  obtain cid h r where item: "find_flow f d = Some (cid, h, r)" using Some by (cases item) auto
  then have mem: "map_of d cid = Some (h, r)" and flow: "ec_claimed_flow_id r = Some f"
    using find_flow_SomeD [OF cap_itemsD(4) [OF ok] item] by simp_all
  let ?P = "\<lambda>w. er_claimed_flow_id w = Some f \<and> isoformat now < er_expires_at w
             \<and> er_consumed_at w = None \<and> er_revoked_at w = None"
  let ?f = "\<lambda>w. w\<lparr>er_consumed_at := Some (isoformat now)\<rparr>" and ?r = "r\<lparr>ec_consumed_at := Some now\<rparr>"
  have P: "?P (enc x) \<longleftrightarrow> fst x = cid \<and> now < ec_expires_at r \<and> cap_live r" if "x \<in> set d" for x
    using item_of_flow [OF ok mem flow that] item_of_key [OF ok mem that] expires_item [OF ok that now]
    by (auto simp: cap_live_def)
  have repr: "cap_repr ?r" using cap_itemsD(5) [OF ok mem] now by (auto simp: cap_repr_def)
  have f: "?f (enc (cid, h, r)) = enc (cid, h, ?r)" by (simp add: enc_def capability_values_def)
  have "mem_consume now f d = (if now < ec_expires_at r \<and> cap_live r
      then (Inr ?r, AList.update cid (h, ?r) d) else (Inl unavailable, d))"
    by (auto simp: mem_consume_def item cap_live_def Let_def)
  then show ?thesis
    using update_one_cap [where P = ?P and f = ?f and r' = ?r, OF ok mem P f repr] ok
    by (simp add: sql_consume_def first_capability_enc [OF repr] first_capability_def [of "Inr []"])
qed

lemma sql_release_step:
  assumes ok: "cap_items_ok d"
  shows "sql_release f (map enc d) = map_prod id (map enc) (mem_release f d)
    \<and> cap_items_ok (snd (mem_release f d))"
proof (cases "find_flow f d")
  case None
  then show ?thesis
    using ok update_caps_none [OF ok] find_flow_NoneD [OF None]
    by (simp add: sql_release_def mem_release_def one_row_def)
next
  case (Some item)
  obtain cid h r where item: "find_flow f d = Some (cid, h, r)" using Some by (cases item) auto
  then have mem: "map_of d cid = Some (h, r)" and flow: "ec_claimed_flow_id r = Some f"
    using find_flow_SomeD [OF cap_itemsD(4) [OF ok] item] by simp_all
  let ?P = "\<lambda>w. er_claimed_flow_id w = Some f \<and> er_consumed_at w = None \<and> er_revoked_at w = None"
  let ?f = "\<lambda>w. w\<lparr>er_claimed_flow_id := None, er_claimed_at := None\<rparr>"
    and ?r = "r\<lparr>ec_claimed_flow_id := None, ec_claimed_at := None\<rparr>"
  have P: "?P (enc x) \<longleftrightarrow> fst x = cid \<and> cap_live r" if "x \<in> set d" for x
    using item_of_flow [OF ok mem flow that] item_of_key [OF ok mem that] by (auto simp: cap_live_def)
  have repr: "cap_repr ?r" using cap_itemsD(5) [OF ok mem] by (auto simp: cap_repr_def)
  have f: "?f (enc (cid, h, r)) = enc (cid, h, ?r)" by (simp add: enc_def capability_values_def)
  have "mem_release f d = (if cap_live r then (Inr True, AList.update cid (h, ?r) d) else (Inr False, d))"
    by (auto simp: mem_release_def item cap_live_def)
  then show ?thesis
    using update_one_cap [where P = ?P and f = ?f and r' = ?r, OF ok mem P f repr] ok
    by (simp add: sql_release_def one_row_def)
qed

lemma sql_revoke_step:
  assumes ok: "cap_items_ok d" and now: "valid_datetime now"
  shows "sql_revoke now cid (map enc d) = map_prod id (map enc) (mem_revoke now cid d)
    \<and> cap_items_ok (snd (mem_revoke now cid d))"
proof -
  let ?P = "\<lambda>w. er_capability_id w = cid \<and> er_consumed_at w = None \<and> er_revoked_at w = None"
  let ?f = "\<lambda>w. w\<lparr>er_revoked_at := Some (isoformat now)\<rparr>"
  have key: "ec_capability_id (snd (snd x)) = fst x" if "x \<in> set d" for x
    using ok that by (simp add: cap_items_ok_def item_ok_def)
  show ?thesis
  proof (cases "map_of d cid")
    case None
    have "enroll_call (update_caps ?P ?f) (map enc d) = (Inr [], map enc d)"
      by (rule update_caps_none [OF ok]) (use None key in \<open>auto simp: map_of_eq_None_iff image_iff\<close>)
    then show ?thesis using ok None by (simp add: sql_revoke_def mem_revoke_def one_row_def)
  next
    case (Some v)
    obtain h r where mem: "map_of d cid = Some (h, r)" using Some by (cases v) auto
    let ?r = "r\<lparr>ec_revoked_at := Some now\<rparr>"
    have P: "?P (enc x) \<longleftrightarrow> fst x = cid \<and> cap_live r" if "x \<in> set d" for x
      using item_of_key [OF ok mem that] key [OF that] by (cases x) (auto simp: cap_live_def)
    have repr: "cap_repr ?r" using cap_itemsD(5) [OF ok mem] now by (auto simp: cap_repr_def)
    have f: "?f (enc (cid, h, r)) = enc (cid, h, ?r)" by (simp add: enc_def capability_values_def)
    have "mem_revoke now cid d = (if cap_live r then (Inr True, AList.update cid (h, ?r) d) else (Inr False, d))"
      by (auto simp: mem_revoke_def mem cap_live_def)
    then show ?thesis
      using update_one_cap [where P = ?P and f = ?f and r' = ?r, OF ok mem P f repr] ok
      by (simp add: sql_revoke_def one_row_def)
  qed
qed

text \<open>
  A claim is the claim on the dictionary, except that a flow which already holds another
  capability breaks the UNIQUE column.
\<close>

definition flow_held_elsewhere :: "string \<Rightarrow> string \<Rightarrow> cap_dict \<Rightarrow> bool" where
  "flow_held_elsewhere digest f d \<longleftrightarrow>
     (\<exists>item \<in> set d. ec_claimed_flow_id (snd (snd item)) = Some f \<and> fst (snd item) \<noteq> digest)"

text \<open>The WHERE and the SET of the claiming statement, and the condition as the memory store tests it.\<close>

abbreviation claim_where :: "datetime \<Rightarrow> string \<Rightarrow> string \<Rightarrow> string \<Rightarrow> cap_row \<Rightarrow> bool" where
  "claim_where now h f p \<equiv> \<lambda>w. er_token_hash w = h \<and> er_purpose w = p
     \<and> isoformat now < er_expires_at w \<and> er_consumed_at w = None \<and> er_revoked_at w = None
     \<and> (er_claimed_flow_id w = None \<or> er_claimed_flow_id w = Some f)"

abbreviation claim_set :: "datetime \<Rightarrow> string \<Rightarrow> cap_row \<Rightarrow> cap_row" where
  "claim_set now f \<equiv> \<lambda>w. w\<lparr>er_claimed_flow_id := (case er_claimed_flow_id w of None \<Rightarrow> Some f | Some f \<Rightarrow> Some f),
     er_claimed_at := (case er_claimed_at w of None \<Rightarrow> Some (isoformat now) | Some t \<Rightarrow> Some t)\<rparr>"

definition claimable :: "datetime \<Rightarrow> string \<Rightarrow> string \<Rightarrow> capability \<Rightarrow> bool" where
  "claimable now f p r \<longleftrightarrow> ec_purpose r = p \<and> now < ec_expires_at r \<and> cap_live r \<and> ec_claimed_flow_id r \<in> {None, Some f}"

definition claimed_now :: "datetime \<Rightarrow> string \<Rightarrow> capability \<Rightarrow> capability" where
  "claimed_now now f r =
     (if ec_claimed_flow_id r = None then r\<lparr>ec_claimed_flow_id := Some f, ec_claimed_at := Some now\<rparr> else r)"

lemma claimed_now_simps [simp]:
  "ec_capability_id (claimed_now now f r) = ec_capability_id r"
  "ec_claimed_flow_id r \<in> {None, Some f} \<Longrightarrow> ec_claimed_flow_id (claimed_now now f r) = Some f"
  by (auto simp: claimed_now_def)

lemma mem_claim_run:
  assumes "validate_claim token f p = Inr u" and "dict_ok d" and "find_digest (token_hash token) d = Some (cid, h', r)"
    and "map_of d cid = Some (token_hash token, r)"
  shows "mem_claim now token f p d =
    (if claimable now f p r
     then (Inr (claimed_now now f r), AList.update cid (token_hash token, claimed_now now f r) d)
     else (Inl unavailable, d))"
  using assms
  by (auto simp: mem_claim_def Let_def claimable_def claimed_now_def cap_live_def AList.update_triv)

lemma claim_where_item:
  assumes "cap_items_ok d" and "valid_datetime now" and "map_of d cid = Some (h, r)" and "item \<in> set d"
  shows "claim_where now h f p (enc item) \<longleftrightarrow> fst item = cid \<and> claimable now f p r"
  using item_of_digest [OF assms(1,3,4)] item_of_key [OF assms(1,3,4)] expires_item [OF assms(1,4,2)]
  by (cases item) (auto simp: claimable_def cap_live_def)

text \<open>A row is changed as its capability is: claimed now, or unchanged when its flow has it already.\<close>

lemma claim_set_item:
  assumes "cap_repr r" and "claimable now f p r"
  shows "claim_set now f (enc (cid, h, r)) = enc (cid, h, claimed_now now f r)"
proof (cases "ec_claimed_flow_id r")
  case None
  then show ?thesis using assms(1) by (simp add: enc_def capability_values_def cap_repr_def claimed_now_def)
next
  case (Some f')
  then obtain t where "ec_claimed_at r = Some t" using assms(1) by (auto simp: cap_repr_def)
  then show ?thesis using Some by (simp add: enc_def capability_values_def claimed_now_def)
qed

lemma claimed_now_flows:
  assumes "cap_items_ok d" and "map_of d cid = Some (h, r)" and "claimable now f p r"
  shows "distinct (flow_ids (map enc (AList.update cid (h, claimed_now now f r) d))) \<longleftrightarrow> \<not> flow_held_elsewhere h f d"
proof (cases "ec_claimed_flow_id r")
  case None
  have "f \<in> set (flow_ids (map enc d)) \<longleftrightarrow> flow_held_elsewhere h f d"
    using item_of_digest [OF assms(1,2)] item_of_key [OF assms(1,2)] None
    by (auto simp: flow_ids_mem flow_held_elsewhere_def)
  then show ?thesis
    using flows_update(3) [OF cap_itemsD(1) [OF assms(1)] assms(2) cap_itemsD(2) [OF assms(1)] None, of "claimed_now now f r" f] None
    by (simp add: claimed_now_def)
next
  case (Some f')
  then have f: "ec_claimed_flow_id r = Some f" and same: "claimed_now now f r = r"
    using assms(3) by (auto simp: claimable_def claimed_now_def)
  have "\<not> flow_held_elsewhere h f d"
    using item_of_flow [OF assms(1,2) f] item_of_digest [OF assms(1,2)] by (auto simp: flow_held_elsewhere_def)
  then show ?thesis using assms(2) cap_itemsD(2) [OF assms(1)] by (simp add: same AList.update_triv)
qed

lemma claimed_now_repr: "cap_repr r \<Longrightarrow> valid_datetime now \<Longrightarrow> cap_repr (claimed_now now f r)"
  by (auto simp: cap_repr_def claimed_now_def)

lemma sql_claim_step:
  assumes ok: "cap_items_ok d" and now: "valid_datetime now"
  shows "(if flow_held_elsewhere (token_hash token) f d \<and> is_ok (fst (mem_claim now token f p d))
      then sql_claim now token f p (map enc d) =
        (Inl (IntegrityError ''UNIQUE constraint failed: claimed_flow_id''), map enc d)
      else sql_claim now token f p (map enc d) = map_prod id (map enc) (mem_claim now token f p d)
        \<and> cap_items_ok (snd (mem_claim now token f p d)))"
proof (cases "validate_claim token f p")
  case (Inl e)
  with ok show ?thesis by (simp add: sql_claim_def mem_claim_def)
next
  case valid: (Inr u)
  let ?h = "token_hash token" and ?run = "enroll_call (update_caps (claim_where now (token_hash token) f p) (claim_set now f)) (map enc d)"
  have sql: "sql_claim now token f p (map enc d) = map_prod first_capability id ?run"
    by (simp add: sql_claim_def valid)
  have none: ?thesis if "?run = (Inr [], map enc d)" and "mem_claim now token f p d = (Inl unavailable, d)"
    using that ok by (simp add: sql first_capability_def)
  show ?thesis
  proof (cases "find_digest ?h d")
    case None
    have "?run = (Inr [], map enc d)"
      by (rule update_caps_none [OF ok]) (use None in \<open>auto simp: find_digest_def find_None_iff\<close>)
    then show ?thesis by (rule none) (simp add: mem_claim_def valid None Let_def)
  next
    case (Some item)
    obtain cid h' r where item: "find_digest ?h d = Some (cid, h', r)" using Some by (cases item) auto
    have mem: "map_of d cid = Some (?h, r)" using find_digest_SomeD [OF cap_itemsD(4) [OF ok] item] by simp
    note run = mem_claim_run [OF valid cap_itemsD(1) [OF ok] item mem, of now]
    note P = claim_where_item [OF ok now mem, where f = f and p = p]
    have repr: "cap_repr r" "ec_capability_id r = cid" using cap_itemsD(5) [OF ok mem] by simp_all
    show ?thesis
    proof (cases "claimable now f p r")
      case False
      then have "?run = (Inr [], map enc d)" by (intro update_caps_none [OF ok]) (simp only: P simp_thms)
      then show ?thesis by (rule none) (simp add: run False)
    next
      case True
      let ?r = "claimed_now now f r"
      note flows = claimed_now_flows [OF ok mem True]
      have P': "claim_where now ?h f p (enc item) \<longleftrightarrow> fst item = cid" if "item \<in> set d" for item
        using P [OF that] True by blast
      note hit = update_caps_hit [OF ok mem, of "claim_where now ?h f p" "claim_set now f" ?r,
          OF P' claim_set_item [OF repr(1) True]]
      have "?run = (if \<not> flow_held_elsewhere ?h f d then (Inr [enc (cid, ?h, ?r)], map enc (AList.update cid (?h, ?r) d))
           else (Inl (IntegrityError ''UNIQUE constraint failed: claimed_flow_id''), map enc d))"
        unfolding flows [symmetric]
        by (rule hit)
      moreover have "\<not> flow_held_elsewhere ?h f d \<Longrightarrow> cap_items_ok (AList.update cid (?h, ?r) d)"
        using repr claimed_now_repr [OF repr(1) now] flows by (intro items_ok_update [OF ok mem]) simp_all
      ultimately show ?thesis
        by (simp add: run True sql first_capability_enc [OF claimed_now_repr [OF repr(1) now]] first_capability_def [of "Inl _"])
    qed
  qed
qed

lemma cap_items_add:
  assumes "cap_items_ok d" and "cid \<notin> fst ` set d" and "h \<notin> (\<lambda>item. fst (snd item)) ` set d"
    and "item_ok (cid, h, r)" and "ec_claimed_flow_id r = None"
  shows "cap_items_ok (d @ [(cid, h, r)])"
  using assms by (auto simp: cap_items_ok_def flow_ids_append) (auto simp: flow_ids_def)

lemma new_issued_repr:
  "new_issued token cid subject p ttl issuer now = Inr (ic, h) \<Longrightarrow>
   item_ok (cid, h, ic_capability ic) \<and> ec_claimed_flow_id (ic_capability ic) = None
   \<and> h = token_hash token \<and> ec_capability_id (ic_capability ic) = cid"
  by (auto simp: new_issued_def res_bind_Inr item_ok_def cap_repr_def dest: add_seconds_Inr)

text \<open>An issue is that of the dictionary when its id and its token are new.\<close>

definition issue_fresh :: "string \<Rightarrow> string \<Rightarrow> cap_dict \<Rightarrow> bool" where
  "issue_fresh token cid d \<longleftrightarrow> cid \<notin> fst ` set d \<and> token_hash token \<notin> (\<lambda>item. fst (snd item)) ` set d"

lemma sql_issue_step:
  assumes ok: "cap_items_ok d"
  shows "(if issue_fresh token cid d
      then sql_issue token cid now subj p ttl issuer (map enc d) =
          map_prod id (map enc) (mem_issue token cid now subj p ttl issuer d)
        \<and> cap_items_ok (snd (mem_issue token cid now subj p ttl issuer d))
      else \<not> is_ok (fst (sql_issue token cid now subj p ttl issuer (map enc d)))
        \<and> snd (sql_issue token cid now subj p ttl issuer (map enc d)) = map enc d)"
proof (cases "validate_issue subj p ttl issuer")
  case (Inl e)
  with ok show ?thesis by (simp add: sql_issue_def mem_issue_def)
next
  case valid: (Inr u)
  show ?thesis
  proof (cases "new_issued token cid subj p ttl issuer now")
    case (Inl e)
    with ok valid show ?thesis by (simp add: sql_issue_def mem_issue_def)
  next
    case (Inr x)
    let ?h = "token_hash token"
    obtain ic where x: "x = (ic, ?h)" using Inr new_issued_repr by (cases x) blast
    note new = new_issued_repr [OF Inr [unfolded x]]
    have vals: "capability_values ?h (ic_capability ic) = enc (cid, ?h, ic_capability ic)" by (simp add: enc_def)
    have keys: "ec_capability_id (snd (snd y)) = fst y" if "y \<in> set d" for y
      using ok that by (simp add: cap_items_ok_def item_ok_def)
    have ids: "er_capability_id ` set (map enc d) = fst ` set d"
      using keys by (force simp: image_image)
    have hashes: "er_token_hash ` set (map enc d) = (\<lambda>item. fst (snd item)) ` set d"
      by (simp add: image_image)
    have run: "insert_cap (capability_values ?h (ic_capability ic)) (map enc d) =
      (if issue_fresh token cid d then (Inr (), map enc (d @ [(cid, ?h, ic_capability ic)]))
       else (Inl (IntegrityError (if cid \<in> fst ` set d then ''UNIQUE constraint failed: capability_id''
         else ''UNIQUE constraint failed: token_hash'')), map enc d))"
      unfolding vals insert_cap_def ids hashes using new by (auto simp: issue_fresh_def)
    show ?thesis
    proof (cases "issue_fresh token cid d")
      case True
      then have "cap_items_ok (d @ [(cid, ?h, ic_capability ic)])"
        using new by (intro cap_items_add [OF ok]) (auto simp: issue_fresh_def)
      moreover have "AList.update cid (?h, ic_capability ic) d = d @ [(cid, ?h, ic_capability ic)]"
        using True by (intro update_absent) (simp add: issue_fresh_def)
      ultimately show ?thesis
        using True new by (simp add: sql_issue_def mem_issue_def valid Inr x enroll_call_run run)
    next
      case False
      then show ?thesis by (simp add: sql_issue_def valid Inr x enroll_call_run run)
    qed
  qed
qed

subsection \<open>The table implements the interface\<close>

definition decode_item :: "cap_row \<Rightarrow> string \<times> string \<times> capability" where
  "decode_item w =
     (er_capability_id w, er_token_hash w,
      (case capability_from_row w of Inr r \<Rightarrow> r
       | Inl _ \<Rightarrow> \<lparr>ec_capability_id = er_capability_id w, ec_purpose = er_purpose w, ec_subject = er_subject w,
            ec_expires_at = 0, ec_issued_by = er_issued_by w, ec_claimed_flow_id = er_claimed_flow_id w,
            ec_claimed_at = None, ec_consumed_at = None, ec_revoked_at = None\<rparr>))"

definition cap_records :: "cap_table \<Rightarrow> cap_map" where
  "cap_records rows = map_of (map decode_item rows)"

lemma cap_records_enc: "cap_items_ok d \<Longrightarrow> cap_records (map enc d) = map_of d"
proof -
  assume ok: "cap_items_ok d"
  have "map decode_item (map enc d) = d"
    unfolding map_map
  proof (rule map_idI)
    fix item assume "item \<in> set d"
    then have "item_ok item" using ok by (simp add: cap_items_ok_def)
    then show "(decode_item \<circ> enc) item = item"
      by (cases item) (simp add: decode_item_def item_ok_def enc_def capability_row_roundtrip,
        simp add: capability_values_def)
  qed
  then show ?thesis by (simp add: cap_records_def)
qed

lemma cap_table_okE:
  assumes "cap_table_ok rows"
  obtains d where "rows = map enc d" "cap_items_ok d" "cap_dict_ok d"
  using assms by (auto simp: cap_table_ok_def dest: cap_itemsD(4))

lemma cap_table_okI: "cap_items_ok d \<Longrightarrow> cap_table_ok (map enc d)"
  by (auto simp: cap_table_ok_def)

lemma effect_fail:
  "\<not> is_ok r \<Longrightarrow> call_effect now (Issue t c s p l b) (map_sum id RIssued r) m m"
  "\<not> is_ok q \<Longrightarrow> call_effect now (ClaimCap t f p) (map_sum id RCapability q) m m"
  by (cases r; simp) (cases q; simp)

text \<open>The effect of a call on the decoded table is that of the memory store on the dictionary, or none.\<close>

lemma sql_issue_effect:
  assumes "cap_table_ok s" and "valid_datetime now"
  shows "call_effect now (Issue token cid subj p ttl iss) (map_sum id RIssued (fst (sql_issue token cid now subj p ttl iss s)))
    (cap_records s) (cap_records (snd (sql_issue token cid now subj p ttl iss s)))"
proof -
  obtain d where d: "s = map enc d" "cap_items_ok d" "cap_dict_ok d" using assms(1) by (auto elim: cap_table_okE)
  note step = sql_issue_step [OF d(2), of token cid now subj p ttl iss]
  show ?thesis
  proof (cases "issue_fresh token cid d")
    case True
    then show ?thesis
      using step memcap.issue_effect [OF d(3) assms(2), of token cid subj p ttl iss] d(2)
      by (simp only: d(1) if_True cap_records_enc fst_map_prod snd_map_prod id_apply)
  next
    case False
    then have fail: "\<not> is_ok (fst (sql_issue token cid now subj p ttl iss (map enc d)))"
      and same: "snd (sql_issue token cid now subj p ttl iss (map enc d)) = map enc d"
      using step by simp_all
    show ?thesis unfolding d(1) same by (rule effect_fail(1) [OF fail])
  qed
qed

lemma sql_claim_effect:
  assumes "cap_table_ok s" and "valid_datetime now"
  shows "call_effect now (ClaimCap token f p) (map_sum id RCapability (fst (sql_claim now token f p s)))
    (cap_records s) (cap_records (snd (sql_claim now token f p s)))"
proof -
  obtain d where d: "s = map enc d" "cap_items_ok d" "cap_dict_ok d" using assms(1) by (auto elim: cap_table_okE)
  note step = sql_claim_step [OF d(2) assms(2), of token f p]
  show ?thesis
  proof (cases "flow_held_elsewhere (token_hash token) f d \<and> is_ok (fst (mem_claim now token f p d))")
    case True
    then show ?thesis using step by (simp add: d(1))
  next
    case False
    then show ?thesis
      using step memcap.claim_effect [OF d(3) assms(2), of token f p] d(2)
      by (simp only: d(1) if_False cap_records_enc fst_map_prod snd_map_prod id_apply)
  qed
qed

lemma sql_cap_inv:
  assumes "cap_table_ok s"
  shows "cap_table_ok (snd (sql_release f s))" "cap_table_ok (snd (sql_issue token cid now subj p ttl iss s))"
    "valid_datetime now \<Longrightarrow> cap_table_ok (snd (sql_claim now token f p s))"
    "valid_datetime now \<Longrightarrow> cap_table_ok (snd (sql_consume now f s))"
    "valid_datetime now \<Longrightarrow> cap_table_ok (snd (sql_revoke now cid s))"
proof -
  obtain d where d: "s = map enc d" "cap_items_ok d" using assms by (auto elim: cap_table_okE)
  show "cap_table_ok (snd (sql_issue token cid now subj p ttl iss s))"
    using sql_issue_step [OF d(2), of token cid now subj p ttl iss] cap_table_okI d by (auto split: if_split_asm)
  show "valid_datetime now \<Longrightarrow> cap_table_ok (snd (sql_claim now token f p s))"
    using sql_claim_step [OF d(2), of now token f p] cap_table_okI d by (auto split: if_split_asm)
  show "cap_table_ok (snd (sql_release f s))" "valid_datetime now \<Longrightarrow> cap_table_ok (snd (sql_consume now f s))"
    "valid_datetime now \<Longrightarrow> cap_table_ok (snd (sql_revoke now cid s))"
    using sql_consume_step [OF d(2), of now f] sql_release_step [OF d(2), of f]
      sql_revoke_step [OF d(2), of now cid] cap_table_okI d by simp_all
qed

lemma sql_flow_effects:
  assumes "cap_table_ok s"
  shows "valid_datetime now \<Longrightarrow> call_effect now (ConsumeCap f) (map_sum id RCapability (fst (sql_consume now f s)))
      (cap_records s) (cap_records (snd (sql_consume now f s)))"
    and "call_effect now (ReleaseCap f) (map_sum id RFlag (fst (sql_release f s))) (cap_records s)
      (cap_records (snd (sql_release f s)))"
    and "valid_datetime now \<Longrightarrow> call_effect now (RevokeCap cid) (map_sum id RFlag (fst (sql_revoke now cid s)))
      (cap_records s) (cap_records (snd (sql_revoke now cid s)))"
proof -
  obtain d where d: "s = map enc d" "cap_items_ok d" "cap_dict_ok d" using assms by (auto elim: cap_table_okE)
  note step = sql_consume_step [OF d(2), of now f] sql_release_step [OF d(2), of f] sql_revoke_step [OF d(2), of now cid]
  note effect = memcap.consume_effect [OF d(3), of now f] memcap.release_effect [OF d(3), of now f]
    memcap.revoke_effect [OF d(3), of now cid]
  note simps = d(1) cap_records_enc fst_map_prod snd_map_prod id_apply
  show "valid_datetime now \<Longrightarrow> call_effect now (ConsumeCap f) (map_sum id RCapability (fst (sql_consume now f s)))
      (cap_records s) (cap_records (snd (sql_consume now f s)))"
    using step(1) effect(1) d(2) by (simp only: simps)
  show "call_effect now (ReleaseCap f) (map_sum id RFlag (fst (sql_release f s))) (cap_records s)
      (cap_records (snd (sql_release f s)))"
    using step(2) effect(2) d(2) by (simp only: simps)
  show "valid_datetime now \<Longrightarrow> call_effect now (RevokeCap cid) (map_sum id RFlag (fst (sql_revoke now cid s)))
      (cap_records s) (cap_records (snd (sql_revoke now cid s)))"
    using step(3) effect(3) d(2) by (simp only: simps)
qed

interpretation sqlcap: capability_store sql_issue sql_claim sql_consume sql_release sql_revoke
  cap_records cap_table_ok
  by unfold_locales (rule sql_cap_inv sql_issue_effect sql_claim_effect sql_flow_effects | assumption)+

end
