(* ===== verification/EnrollmentProperties.thy ===== *)
theory EnrollmentProperties
  imports EnrollmentSqlite
begin

section \<open>Properties of the two capability stores\<close>

text \<open>
  What both stores promise (\<open>memcap\<close>, \<open>sqlcap\<close>), when they agree, and the two places where a
  flow id that is used again makes them behave differently from the documented error.
\<close>

subsection \<open>Runs on which the stores agree\<close>

text \<open>
  New ids and tokens are new, and a flow id that holds a capability is not presented with the
  token of another one.
\<close>

fun call_disciplined :: "cap_call \<Rightarrow> cap_dict \<Rightarrow> bool" where
  "call_disciplined (Issue token cid _ _ _ _) d = issue_fresh token cid d"
| "call_disciplined (ClaimCap token f _) d = (\<not> flow_held_elsewhere (token_hash token) f d)"
| "call_disciplined _ d = True"

fun disciplined :: "(datetime \<times> cap_call) list \<Rightarrow> cap_dict \<Rightarrow> bool" where
  "disciplined [] d = True"
| "disciplined ((now, c) # cs) d =
     (call_disciplined c d \<and> disciplined cs (snd (memcap.cap_store_call now c d)))"

lemma disciplined_step:
  assumes "cap_items_ok d" and "valid_datetime now" and "call_disciplined c d"
  shows "sqlcap.cap_store_call now c (map enc d) = map_prod id (map enc) (memcap.cap_store_call now c d)
    \<and> cap_items_ok (snd (memcap.cap_store_call now c d))"
proof (cases c)
  case (Issue token cid subj p ttl iss)
  with assms sql_issue_step [OF assms(1), of token cid now subj p ttl iss] show ?thesis
    by (cases "mem_issue token cid now subj p ttl iss d") simp
next
  case (ClaimCap token f p)
  with assms sql_claim_step [OF assms(1,2), of token f p] show ?thesis
    by (cases "mem_claim now token f p d") simp
next
  case (ConsumeCap f)
  with sql_consume_step [OF assms(1,2), of f] show ?thesis by (cases "mem_consume now f d") simp
next
  case (ReleaseCap f)
  with sql_release_step [OF assms(1), of f] show ?thesis by (cases "mem_release f d") simp
next
  case (RevokeCap cid)
  with sql_revoke_step [OF assms(1,2), of cid] show ?thesis by (cases "mem_revoke now cid d") simp
qed

lemma disciplined_run:
  "cap_items_ok d \<Longrightarrow> \<forall>(t, c) \<in> set cs. valid_datetime t \<Longrightarrow> disciplined cs d \<Longrightarrow>
   fst (sqlcap.run_caps cs (map enc d)) = fst (memcap.run_caps cs d)"
proof (induction cs arbitrary: d)
  case (Cons tc cs)
  obtain t c where tc: "tc = (t, c)" by force
  from Cons.prems have step: "sqlcap.cap_store_call t c (map enc d) = map_prod id (map enc) (memcap.cap_store_call t c d)"
    "cap_items_ok (snd (memcap.cap_store_call t c d))"
    using disciplined_step [of d t c] by (auto simp: tc)
  have "fst (sqlcap.run_caps cs (map enc (snd (memcap.cap_store_call t c d)))) =
      fst (memcap.run_caps cs (snd (memcap.cap_store_call t c d)))"
    using Cons.prems step by (intro Cons.IH) (auto simp: tc)
  then show ?case by (simp add: tc step Let_def)
qed simp

lemma cap_empty [simp]: "cap_items_ok []" "cap_dict_ok []" "cap_table_ok []" "cap_records [] = (\<lambda>_. None)"
  by (auto simp: cap_items_ok_def cap_dict_ok_def cap_table_ok_def flow_ids_def cap_records_def)

subsection \<open>A concrete run\<close>

definition bob_calls :: "(datetime \<times> cap_call) list" where
  "bob_calls =
     [(0, Issue ''t'' ''c1'' ''bob'' ''invitation'' 600 None), (1, ClaimCap ''t'' ''flow'' ''invitation''),
      (2, ConsumeCap ''flow''), (3, ConsumeCap ''flow'')]"

lemma bob_valid: "\<forall>(t, c) \<in> set bob_calls. valid_datetime t"
  by (simp add: bob_calls_def valid_datetime_def datetime_max_def us_per_second_def)

lemmas mem_cap_defs = mem_issue_def mem_claim_def mem_consume_def mem_release_def mem_revoke_def
  find_digest_def find_flow_def validate_issue_def validate_claim_def new_issued_def purposes_def
  add_seconds_def valid_datetime_def datetime_max_def us_per_second_def res_bind_def

lemma strip_bob: "py_strip ''bob'' = ''bob''"
  by (simp add: py_strip_id py_isspace_def)

definition bob_cap :: capability where
  "bob_cap = \<lparr>ec_capability_id = ''c1'', ec_purpose = ''invitation'', ec_subject = ''bob'',
     ec_expires_at = 600000000, ec_issued_by = None, ec_claimed_flow_id = Some ''flow'',
     ec_claimed_at = Some 1, ec_consumed_at = Some 2, ec_revoked_at = None\<rparr>"

lemma bob_disciplined: "disciplined bob_calls []"
  by (simp add: bob_calls_def mem_cap_defs strip_bob issue_fresh_def flow_held_elsewhere_def)

lemma bob_replies: "map is_ok (fst (memcap.run_caps bob_calls [])) = [True, True, True, False]"
  by (simp add: bob_calls_def mem_cap_defs strip_bob Let_def)

lemma bob_before: "fst (memcap.run_caps (take 2 bob_calls) []) =
   [Inr (RIssued \<lparr>ic_capability = bob_cap\<lparr>ec_claimed_flow_id := None, ec_claimed_at := None, ec_consumed_at := None\<rparr>,
      ic_token = ''t''\<rparr>), Inr (RCapability (bob_cap\<lparr>ec_consumed_at := None\<rparr>))]"
  "snd (memcap.run_caps (take 2 bob_calls) []) = [(''c1'', token_hash ''t'', bob_cap\<lparr>ec_consumed_at := None\<rparr>)]"
  by (simp_all add: bob_calls_def mem_cap_defs strip_bob Let_def bob_cap_def)

subsection \<open>Properties\<close>

text \<open>
  C7: however the calls are interleaved and whatever the clocks of the store read, naive and
  overflowing readings included, a capability is consumed at most once, by either store, when the ids
  that are issued are distinct.
\<close>

theorem capability_consumed_at_most_once:
  assumes "distinct (issue_ids cs)"
  shows "length (filter (consumes cid) (zip (map snd cs) (fst (memcap.run_clocked cs [])))) \<le> 1
    \<and> length (filter (consumes cid) (zip (map snd cs) (fst (sqlcap.run_clocked cs [])))) \<le> 1"
  using memcap.run_consumes_once [OF cap_empty(2) _ assms, of cid]
    sqlcap.run_consumes_once [OF cap_empty(3) _ assms, of cid]
  by (simp add: ids_ok_def consumed_def)

definition bob_readings :: "(clock_reading \<times> cap_call) list" where
  "bob_readings = (NaiveReading 0, Issue ''u'' ''c0'' ''bob'' ''invitation'' 600 None)
     # map (\<lambda>(t, c). (AwareReading (t + 7200000000) 7200000000, c)) bob_calls"

lemma capability_consumed_at_most_once_witness:
  "map is_ok (fst (memcap.run_clocked bob_readings [])) = [False, True, True, True, False]
   \<and> length (filter (consumes ''c1'') (zip (map snd bob_readings) (fst (memcap.run_clocked bob_readings [])))) \<le> 1"
proof -
  have "map is_ok (fst (memcap.run_clocked bob_readings [])) = [False, True, True, True, False]"
    by (simp add: bob_readings_def bob_calls_def memcap.clocked_call_def at_clock_def mem_cap_defs strip_bob Let_def)
  moreover have "distinct (issue_ids bob_readings)" by (simp add: bob_readings_def bob_calls_def)
  from capability_consumed_at_most_once [OF this, of "''c1''"] have
    "length (filter (consumes ''c1'') (zip (map snd bob_readings) (fst (memcap.run_clocked bob_readings [])))) \<le> 1" by blast
  ultimately show ?thesis by blast
qed

text \<open>
  A flow that consumes a capability has claimed that capability before, with a token of the
  stored hash and for its purpose, and the capability has not expired; in both stores.
\<close>

theorem capability_consume_was_claimed:
  assumes "\<forall>(t, c) \<in> set cs. valid_datetime t" and "valid_datetime now"
  shows "(\<forall>c s'. mem_consume now f (snd (memcap.run_caps cs [])) = (Inr c, s') \<longrightarrow>
      now < ec_expires_at c \<and> (\<exists>cid h. map_of (snd (memcap.run_caps cs [])) cid = Some (h, c\<lparr>ec_consumed_at := None\<rparr>)
        \<and> claimed_by (zip (map snd cs) (fst (memcap.run_caps cs []))) cid h (ec_purpose c) f))
    \<and> (\<forall>c s'. sql_consume now f (snd (sqlcap.run_caps cs [])) = (Inr c, s') \<longrightarrow>
      now < ec_expires_at c \<and> (\<exists>cid h. cap_records (snd (sqlcap.run_caps cs [])) cid = Some (h, c\<lparr>ec_consumed_at := None\<rparr>)
        \<and> claimed_by (zip (map snd cs) (fst (sqlcap.run_caps cs []))) cid h (ec_purpose c) f))"
  using memcap.consume_was_claimed [OF cap_empty(2) _ assms]
    sqlcap.consume_was_claimed [OF cap_empty(3,4) assms] by (metis map_of.simps(1))

lemma capability_consume_was_claimed_witness:
  "\<exists>token c. (ClaimCap token ''flow'' ''invitation'', Inr (RCapability c)) \<in>
     set (zip (map snd (take 2 bob_calls)) (fst (memcap.run_caps (take 2 bob_calls) [])))"
proof -
  have valid: "\<forall>(t, c) \<in> set (take 2 bob_calls). valid_datetime t"
    using bob_valid set_take_subset by fastforce
  have now: "valid_datetime 2" by (simp add: valid_datetime_def datetime_max_def us_per_second_def)
  have run: "mem_consume 2 ''flow'' (snd (memcap.run_caps (take 2 bob_calls) [])) =
      (Inr bob_cap, [(''c1'', token_hash ''t'', bob_cap)])"
    unfolding bob_before by (simp add: mem_consume_def find_flow_def bob_cap_def Let_def)
  have "\<exists>cid h. claimed_by (zip (map snd (take 2 bob_calls)) (fst (memcap.run_caps (take 2 bob_calls) [])))
      cid h (ec_purpose bob_cap) ''flow''"
    using capability_consume_was_claimed [OF valid now, of "''flow''"] run by blast
  then show ?thesis by (auto simp: claimed_by_def bob_cap_def)
qed

text \<open>
  A capability that is consumed or revoked is never changed again, by any call of either
  store, as long as its id is not issued a second time.
\<close>

theorem dead_capability_is_final:
  assumes "cap_dict_ok d" and "cap_table_ok rows" and "valid_datetime now"
    and "map_of d cid = Some (h, r)" and "cap_records rows cid = Some (h', r')"
    and "\<not> cap_live r" and "\<not> cap_live r'" and "call_fresh (map_of d) call" and "call_fresh (cap_records rows) call"
  shows "map_of (snd (memcap.cap_store_call now call d)) cid = Some (h, r)
    \<and> cap_records (snd (sqlcap.cap_store_call now call rows)) cid = Some (h', r')"
  using effect_step [OF memcap.call_effect [OF assms(1,3)] assms(8,4)]
    effect_step [OF sqlcap.call_effect [OF assms(2,3)] assms(9,5)] assms(6,7)
  by (auto dest: cap_step_live)

lemma bob_items: "cap_items_ok [(''c1'', h, bob_cap)]"
  by (simp add: cap_items_ok_def flow_ids_def item_ok_def bob_cap_def cap_repr_def valid_datetime_def
      datetime_max_def us_per_second_def)

lemma dead_capability_is_final_witness:
  "cap_records (snd (sqlcap.cap_store_call 9 (RevokeCap ''c1'') (map enc [(''c1'', ''h'', bob_cap)]))) ''c1'' =
     Some (''h'', bob_cap)"
proof -
  let ?d = "[(''c1'', ''h'', bob_cap)]"
  have ok: "cap_dict_ok ?d" "cap_table_ok (map enc ?d)" "cap_records (map enc ?d) ''c1'' = Some (''h'', bob_cap)"
    using bob_items cap_table_okI cap_itemsD(4) cap_records_enc [OF bob_items, of "''h''"] by (blast, blast, simp)
  show ?thesis
    using dead_capability_is_final [OF ok(1,2) _ _ ok(3), of 9 "''h''" bob_cap "RevokeCap ''c1''"]
    by (simp add: bob_cap_def cap_live_def valid_datetime_def datetime_max_def us_per_second_def)
qed

text \<open>
  C20: on every run with new ids and tokens in which a flow id is used for one token only, the
  SQLite store gives the replies of the memory store.
\<close>

theorem enrollment_sqlite_refines_memory:
  assumes "\<forall>(t, c) \<in> set cs. valid_datetime t" and "disciplined cs []"
  shows "fst (sqlcap.run_caps cs []) = fst (memcap.run_caps cs [])"
  using disciplined_run [OF cap_empty(1) assms] by simp

lemma enrollment_sqlite_refines_memory_witness:
  "map is_ok (fst (sqlcap.run_caps bob_calls [])) = [True, True, True, False]"
  using enrollment_sqlite_refines_memory [OF bob_valid bob_disciplined] bob_replies by simp

text \<open>
  Exactly when a claim succeeds in the memory store: the token's capability has the expected
  purpose, is not expired, consumed or revoked, and is unclaimed or already held by this flow;
  the reply is then the capability held by the flow, and a second claim by it changes nothing.
\<close>

theorem mem_claim_iff:
  assumes "cap_items_ok d"
  shows "(\<exists>c. fst (mem_claim now token f p d) = Inr c) \<longleftrightarrow>
    token \<noteq> [] \<and> f \<noteq> [] \<and> p \<in> purposes
    \<and> (\<exists>cid r. map_of d cid = Some (token_hash token, r) \<and> ec_purpose r = p \<and> now < ec_expires_at r
         \<and> cap_live r \<and> ec_claimed_flow_id r \<in> {None, Some f})"
proof -
  have dig: "find_digest (token_hash token) d = Some (cid, h, r) \<longleftrightarrow>
      map_of d cid = Some (token_hash token, r) \<and> h = token_hash token" for cid h r
    using find_digest_unique [OF assms] find_digest_SomeD [OF cap_itemsD(4) [OF assms]] by blast
  show ?thesis
  proof (cases "find_digest (token_hash token) d")
    case None
    then have "map_of d cid \<noteq> Some (token_hash token, r)" for cid r using dig [of cid "token_hash token" r] by simp
    then show ?thesis by (simp add: mem_claim_def None validate_claim_def Let_def)
  next
    case (Some item)
    then obtain cid r where item: "find_digest (token_hash token) d = Some (cid, token_hash token, r)"
      using dig by (cases item) blast
    then have only: "map_of d cid' = Some (token_hash token, r') \<longleftrightarrow> cid' = cid \<and> r' = r" for cid' r'
      using dig [of cid' "token_hash token" r'] by auto
    show ?thesis
      unfolding only by (auto simp: mem_claim_def item validate_claim_def Let_def cap_live_def)
  qed
qed

lemma mem_claim_iff_witness:
  "\<not> (\<exists>c. fst (mem_claim 3 ''t'' ''flow'' ''invitation'' [(''c1'', token_hash ''t'', bob_cap)]) = Inr c)"
  unfolding mem_claim_iff [OF bob_items]
  by (auto simp: bob_cap_def cap_live_def split: if_splits)

subsection \<open>A flow id that is used again\<close>

text \<open>
  C21: when a flow that holds one capability (even a revoked, consumed or expired one) presents
  the valid token of another, the memory store grants the claim and the SQLite store raises
  the database's IntegrityError instead of EnrollmentCapabilityNotFound.
\<close>

theorem flow_reuse_raises_integrity_error:
  assumes "cap_items_ok d" and "valid_datetime now" and "mem_claim now token f p d = (Inr c, d')"
    and "map_of d cid = Some (h, r)" and "ec_claimed_flow_id r = Some f" and "h \<noteq> token_hash token"
  shows "sql_claim now token f p (map enc d) =
    (Inl (IntegrityError ''UNIQUE constraint failed: claimed_flow_id''), map enc d)"
proof -
  have "(cid, h, r) \<in> set d" using assms(4) cap_itemsD(1) [OF assms(1)] by (simp add: map_of_Some_iff_dict)
  then have "flow_held_elsewhere (token_hash token) f d"
    unfolding flow_held_elsewhere_def using assms(5,6) by (intro bexI [of _ "(cid, h, r)"]) simp_all
  with sql_claim_step [OF assms(1,2), of token f p] assms(3) show ?thesis by simp
qed

definition fresh_cap :: capability where
  "fresh_cap = bob_cap\<lparr>ec_capability_id := ''c2'', ec_claimed_flow_id := None, ec_claimed_at := None,
     ec_consumed_at := None\<rparr>"

definition revoked_cap :: capability where
  "revoked_cap = bob_cap\<lparr>ec_consumed_at := None, ec_revoked_at := Some 2\<rparr>"

lemma short_not_hash: "''h'' \<noteq> token_hash t"
proof
  assume "''h'' = token_hash t"
  then have "length ''h'' = length (token_hash t)" by simp
  then show False by (simp add: token_hash_def length_sha256_hex)
qed

lemma reuse_items: "cap_items_ok [(''c1'', ''h'', revoked_cap), (''c2'', token_hash ''t'', fresh_cap)]"
  using short_not_hash [of "''t''"]
  by (simp add: cap_items_ok_def flow_ids_def item_ok_def revoked_cap_def fresh_cap_def bob_cap_def cap_repr_def
      valid_datetime_def datetime_max_def us_per_second_def)

lemma reuse_claim:
  "mem_claim 3 ''t'' ''flow'' ''invitation'' [(''c1'', ''h'', revoked_cap), (''c2'', token_hash ''t'', fresh_cap)] =
   (Inr (fresh_cap\<lparr>ec_claimed_flow_id := Some ''flow'', ec_claimed_at := Some 3\<rparr>),
    [(''c1'', ''h'', revoked_cap),
     (''c2'', token_hash ''t'', fresh_cap\<lparr>ec_claimed_flow_id := Some ''flow'', ec_claimed_at := Some 3\<rparr>)])"
  using short_not_hash [of "''t''"]
  by (simp add: mem_claim_def validate_claim_def purposes_def find_digest_def Let_def fresh_cap_def bob_cap_def)

lemma flow_reuse_raises_integrity_error_witness:
  "\<exists>e. fst (sql_claim 3 ''t'' ''flow'' ''invitation''
      (map enc [(''c1'', ''h'', revoked_cap), (''c2'', token_hash ''t'', fresh_cap)])) = Inl (IntegrityError e)"
  using flow_reuse_raises_integrity_error [OF reuse_items _ reuse_claim, of "''c1''" "''h''" revoked_cap]
    short_not_hash [of "''t''"]
  by (simp add: valid_datetime_def datetime_max_def us_per_second_def revoked_cap_def bob_cap_def)

text \<open>
  In the memory store \<open>consume\<close> looks at the first item of its flow only: when that one is
  revoked, consumed or expired, the flow cannot consume the live capability it also holds.
\<close>

theorem memory_consume_sees_first_item_only:
  assumes "find_flow f d = Some (cid, h, r)" and "\<not> cap_live r \<or> ec_expires_at r \<le> now"
  shows "mem_consume now f d = (Inl unavailable, d)"
  using assms by (auto simp: mem_consume_def cap_live_def)

lemma memory_consume_sees_first_item_only_witness:
  "mem_consume 4 ''flow'' (snd (mem_claim 3 ''t'' ''flow'' ''invitation''
      [(''c1'', ''h'', revoked_cap), (''c2'', token_hash ''t'', fresh_cap)])) =
   (Inl unavailable, snd (mem_claim 3 ''t'' ''flow'' ''invitation''
      [(''c1'', ''h'', revoked_cap), (''c2'', token_hash ''t'', fresh_cap)]))"
  by (rule memory_consume_sees_first_item_only [where cid = "''c1''" and h = "''h''" and r = revoked_cap])
    (simp_all only: reuse_claim snd_conv, simp_all add: find_flow_def revoked_cap_def bob_cap_def cap_live_def)

end
