(* ===== verification/PyValues.thy ===== *)
theory PyValues
  imports Json Url
begin

section \<open>Python operations on JSON values\<close>

text \<open>
  What the code does with a value that came out of a JSON document or a mapping: its truth value,
  \<open>dict.get\<close>, \<open>str\<close> and \<open>int\<close>. The text and the integer part of a float are parameters, since
  a float is kept as its literal.
\<close>

type_synonym json_dict = "(string \<times> json) list"

text \<open>The truth value of a JSON value (a float literal is zero when its mantissa is).\<close>

fun json_true :: "json \<Rightarrow> bool" where
  "json_true JNull = False"
| "json_true (JBool b) = b"
| "json_true (JInt n) = (n \<noteq> 0)"
| "json_true (JFloat t) = (\<exists>c \<in> set (takeWhile (\<lambda>c. c \<noteq> CHR ''e'' \<and> c \<noteq> CHR ''E'') t). c \<notin> set ''-.0'')"
| "json_true (JStr s) = (s \<noteq> [])"
| "json_true (JArr xs) = (xs \<noteq> [])"
| "json_true (JObj d) = (d \<noteq> [])"

definition json_get :: "string \<Rightarrow> json_dict \<Rightarrow> json" where
  "json_get k d = (case map_of d k of None \<Rightarrow> JNull | Some v \<Rightarrow> v)"

definition int_text :: "int \<Rightarrow> string" where
  "int_text n = (if n < 0 then CHR ''-'' # nat_text (nat (- n)) else nat_text (nat n))"

fun json_str :: "(json \<Rightarrow> string) \<Rightarrow> json \<Rightarrow> string" where
  "json_str repr (JStr s) = s"
| "json_str repr JNull = ''None''"
| "json_str repr (JBool b) = (if b then ''True'' else ''False'')"
| "json_str repr (JInt n) = int_text n"
| "json_str repr v = repr v"

text \<open>
  \<open>int(text)\<close>: surrounding white space, a sign, decimal digits with single underscores between
  them; more than 4300 digits are refused.
\<close>

definition py_int_text :: "string \<Rightarrow> int result" where
  "py_int_text s =
     (let t = py_strip s;
          signed = (t \<noteq> [] \<and> hd t \<in> {CHR ''-'', CHR ''+''});
          groups = split_char (CHR ''_'') (if signed then tl t else t);
          ds = concat groups
      in if list_all (\<lambda>g. g \<noteq> [] \<and> list_all ascii_digit g) groups \<and> length ds \<le> 4300
         then Inr (if signed \<and> hd t = CHR ''-'' then - int (decimal ds) else int (decimal ds))
         else Inl (ValueError ''invalid literal for int() with base 10''))"

end
