(* ===== verification/PasskeyService.thy ===== *)
theory PasskeyService
  imports PasskeyConfig PyValues ChallengeStores CredMemory CredSqlite
begin

section \<open>The passkey service (\<open>passkeys.py\<close>)\<close>

text \<open>
  \<open>PasskeyService\<close> over any pair of stores. The stores are records of their operations, as the
  Python objects are; the state of a service is the pair of the store states. The \<open>webauthn\<close>
  package is a parameter: a record of the functions the service calls, each of which may raise.
  \<open>generate_...\<close> return the random challenge and the JSON text of the options.
\<close>

subsection \<open>The collaborators\<close>

record 'c challenge_ops =
  cs_save :: "datetime \<Rightarrow> string \<Rightarrow> challenge_kind \<Rightarrow> bytes \<Rightarrow> int \<Rightarrow> passkey_user option
      \<Rightarrow> registration_context option \<Rightarrow> ('c, challenge_record) op"
  cs_pop :: "datetime \<Rightarrow> string \<Rightarrow> challenge_kind \<Rightarrow> ('c, challenge_record) op"

record 'k credential_ops =
  ks_save :: "verified_registration \<Rightarrow> ('k, unit) op"
  ks_get_user :: "string \<Rightarrow> 'k \<Rightarrow> passkey_user option result"
  ks_by_handle :: "bytes \<Rightarrow> 'k \<Rightarrow> passkey_user option result"
  ks_list :: "string \<Rightarrow> 'k \<Rightarrow> passkey_credential list result"
  ks_get :: "bytes \<Rightarrow> 'k \<Rightarrow> passkey_credential option result"
  ks_cas :: "bytes \<Rightarrow> int \<Rightarrow> int \<Rightarrow> string option \<Rightarrow> bool option \<Rightarrow> ('k, passkey_credential) op"
  ks_label :: "bytes \<Rightarrow> string \<Rightarrow> string option \<Rightarrow> ('k, passkey_credential option) op"
  ks_delete :: "bytes \<Rightarrow> string option \<Rightarrow> bool \<Rightarrow> ('k, bool) op"

text \<open>An attribute read with \<open>getattr(verified, name, None)\<close>: absent or \<open>None\<close>, an enum member, or another value with its \<open>str\<close>.\<close>

datatype attribute = NoValue | EnumMember string | OtherValue string

record verified_credential =
  vg_credential_id :: bytes
  vg_public_key :: bytes
  vg_sign_count :: int
  vg_device_type :: attribute
  vg_backed_up :: "bool option"

record verified_login =
  vl_new_sign_count :: int
  vl_device_type :: attribute
  vl_backed_up :: "bool option"

record webauthn =
  wa_registration_options :: "string \<Rightarrow> string \<Rightarrow> string \<Rightarrow> bytes \<Rightarrow> string \<Rightarrow> int \<Rightarrow> string \<Rightarrow> bytes list
      \<Rightarrow> (bytes \<times> string) result"
  wa_authentication_options :: "string \<Rightarrow> int \<Rightarrow> (bytes \<times> string list option) list \<Rightarrow> string
      \<Rightarrow> (bytes \<times> string) result"
  wa_transport :: "string \<Rightarrow> bool"
  wa_verify_registration :: "json_dict \<Rightarrow> bytes \<Rightarrow> string \<Rightarrow> string list \<Rightarrow> bool
      \<Rightarrow> verified_credential result"
  wa_verify_authentication :: "json_dict \<Rightarrow> bytes \<Rightarrow> string \<Rightarrow> string list \<Rightarrow> bytes \<Rightarrow> int \<Rightarrow> bool
      \<Rightarrow> verified_login result"

text \<open>\<open>sv_repr\<close> is \<open>str\<close> of a float, list or dict, where the service only needs some text.\<close>

record ('c, 'k) service =
  sv_config :: passkey_config
  sv_challenges :: "'c challenge_ops"
  sv_credentials :: "'k credential_ops"
  sv_webauthn :: webauthn
  sv_repr :: "json \<Rightarrow> string"

definition on_challenges :: "('c, 'a) op \<Rightarrow> ('c \<times> 'k, 'a) op" where
  "on_challenges f s = (case f (fst s) of (r, c) \<Rightarrow> (r, (c, snd s)))"

definition on_credentials :: "('k, 'a) op \<Rightarrow> ('c \<times> 'k, 'a) op" where
  "on_credentials f s = (case f (snd s) of (r, k) \<Rightarrow> (r, (fst s, k)))"

definition pure_op :: "'a result \<Rightarrow> ('s, 'a) op" where
  "pure_op r s = (r, s)"

subsection \<open>Reading a credential response\<close>

fun enum_value :: "attribute \<Rightarrow> string option" where
  "enum_value NoValue = None"
| "enum_value (EnumMember v) = Some v"
| "enum_value (OtherValue t) = Some t"

definition credential_id_from_response :: "(json \<Rightarrow> string) \<Rightarrow> json_dict \<Rightarrow> bytes result" where
  "credential_id_from_response repr d =
     (let value = (if json_true (json_get ''rawId'' d) then json_get ''rawId'' d else json_get ''id'' d)
      in if \<not> json_true value then Inl (CredentialNotFound ''credential response has no id/rawId'')
         else b64url_to_bytes (json_str repr value))"

text \<open>\<open>credential.get("response") or {}\<close>, then \<open>.get\<close>: a value that is no dict has no \<open>get\<close>.\<close>

definition response_of :: "json_dict \<Rightarrow> json_dict result" where
  "response_of d =
     (let v = json_get ''response'' d in
      if json_true v then (case v of JObj r \<Rightarrow> Inr r | _ \<Rightarrow> Inl (AttributeError ''get'')) else Inr [])"

definition user_handle_from_response :: "json_dict \<Rightarrow> bytes option result" where
  "user_handle_from_response d =
     res_bind (response_of d) (\<lambda>r.
       let value = json_get ''userHandle'' r in
       if \<not> json_true value then Inr None
       else (case value of JStr t \<Rightarrow> map_sum id Some (b64url_to_bytes t)
         | _ \<Rightarrow> Inl (TypeError ''userHandle'')))"

definition transports_from_response :: "(json \<Rightarrow> string) \<Rightarrow> json_dict \<Rightarrow> string list result" where
  "transports_from_response repr d =
     res_bind (response_of d) (\<lambda>r.
       let values = json_get ''transports'' r in
       if \<not> json_true values then Inr []
       else (case values of
           JArr xs \<Rightarrow> Inr (map (json_str repr) xs)
         | JObj ms \<Rightarrow> Inr (map fst ms)
         | JStr t \<Rightarrow> Inr (map (\<lambda>c. [c]) t)
         | _ \<Rightarrow> Inl (TypeError ''object is not iterable'')))"

definition normalize_credential_label :: "string option \<Rightarrow> string option result" where
  "normalize_credential_label label =
     (case label of
        None \<Rightarrow> Inr None
      | Some l \<Rightarrow>
          (let normalized = py_strip l in
           if length normalized > 80
           then Inl (ValueError ''credential label must be at most 80 characters'')
           else Inr (if normalized = [] then None else Some normalized)))"

text \<open>\<open>credential: Mapping | str\<close>.\<close>

datatype credential_input = CMapping json_dict | CText string

fun credential_data :: "credential_input \<Rightarrow> json_dict result" where
  "credential_data (CMapping d) = Inr d"
| "credential_data (CText t) =
     res_bind (json_loads t) (\<lambda>v. case v of
        JObj d \<Rightarrow> Inr d | _ \<Rightarrow> Inl (ValueError ''credential JSON must be an object''))"

subsection \<open>The operations\<close>

definition list_credentials :: "('c, 'k) service \<Rightarrow> string \<Rightarrow> 'c \<times> 'k \<Rightarrow> passkey_credential list result" where
  "list_credentials sv uid s = ks_list (sv_credentials sv) uid (snd s)"

definition label_credential ::
  "('c, 'k) service \<Rightarrow> string \<Rightarrow> bytes \<Rightarrow> string option \<Rightarrow> ('c \<times> 'k, passkey_credential) op" where
  "label_credential sv uid cid label =
     op_bind (pure_op (normalize_credential_label label)) (\<lambda>l.
     op_bind (on_credentials (ks_label (sv_credentials sv) cid uid l)) (\<lambda>c.
     pure_op (case c of None \<Rightarrow> Inl (CredentialNotFound ''unknown passkey credential'') | Some c \<Rightarrow> Inr c)))"

definition remove_credential ::
  "('c, 'k) service \<Rightarrow> string \<Rightarrow> bytes \<Rightarrow> bool \<Rightarrow> ('c \<times> 'k, unit) op" where
  "remove_credential sv uid cid allow_final =
     op_bind (on_credentials (ks_delete (sv_credentials sv) cid (Some uid) (\<not> allow_final))) (\<lambda>deleted.
     if deleted then pure_op (Inr ())
     else (\<lambda>s. op_bind (pure_op (ks_get (sv_credentials sv) cid (snd s))) (\<lambda>found.
       pure_op (case found of
           None \<Rightarrow> Inl (CredentialNotFound ''unknown passkey credential'')
         | Some c \<Rightarrow>
             if pc_user_id c \<noteq> uid then Inl (CredentialNotFound ''unknown passkey credential'')
             else Inl (CredentialMutationDenied ''final passkey credential cannot be removed''))) s))"

definition registration_of ::
  "passkey_user option \<Rightarrow> registration_context option \<Rightarrow> registration_context result" where
  "registration_of user context =
     (case context of
        None \<Rightarrow> (case user of
            None \<Rightarrow> Inl (ValueError ''registration user or context is required'')
          | Some u \<Rightarrow> mk_registration_context SelfRegistration u None)
      | Some ctx \<Rightarrow>
          if user \<noteq> None \<and> user \<noteq> Some (rc_user ctx)
          then Inl (ValueError ''registration user does not match context'') else Inr ctx)"

definition begin_registration ::
  "('c, 'k) service \<Rightarrow> datetime \<Rightarrow> string \<Rightarrow> passkey_user option \<Rightarrow> registration_context option
   \<Rightarrow> ('c \<times> 'k, json) op" where
  "begin_registration sv now flow_id user context =
     op_bind (pure_op (registration_of user context)) (\<lambda>ctx.
     let u = rc_user ctx; cfg = sv_config sv in
     op_bind (\<lambda>s. (ks_list (sv_credentials sv) (pu_user_id u) (snd s), s)) (\<lambda>existing.
     op_bind (pure_op (wa_registration_options (sv_webauthn sv) (pk_rp_id cfg) (pk_rp_name cfg)
         (pu_name u) (pu_user_handle u) (if truthy (pu_display_name u) then the (pu_display_name u) else pu_name u)
         (pk_timeout_ms cfg) (pk_user_verification cfg) (map pc_credential_id existing))) (\<lambda>(challenge, options).
     op_bind (on_challenges (cs_save (sv_challenges sv) now flow_id Registration challenge
         (pk_challenge_ttl cfg) (Some u) (Some ctx))) (\<lambda>_.
     pure_op (json_loads options)))))"

text \<open>What \<open>verify_registration\<close> makes of the challenge it popped: no store is involved any more.\<close>

definition registration_outcome ::
  "('c, 'k) service \<Rightarrow> datetime \<Rightarrow> credential_input \<Rightarrow> challenge_record \<Rightarrow> verified_registration result" where
  "registration_outcome sv now credential r =
     (case ch_user r of
       None \<Rightarrow> Inl (ChallengeNotFound ''registration challenge has no user'')
     | Some u \<Rightarrow>
         res_bind (credential_data credential) (\<lambda>d.
         res_bind (wa_verify_registration (sv_webauthn sv) d (ch_challenge r) (pk_rp_id (sv_config sv))
             (pk_origins (sv_config sv)) (require_user_verification (sv_config sv))) (\<lambda>v.
         res_bind (transports_from_response (sv_repr sv) d) (\<lambda>transports.
         res_bind (registration_context_of r) (\<lambda>ctx.
         Inr \<lparr>vr_user = u,
              vr_credential = \<lparr>pc_credential_id = vg_credential_id v, pc_user_id = pu_user_id u,
                pc_public_key = vg_public_key v, pc_sign_count = vg_sign_count v,
                pc_transports = transports, pc_device_type = enum_value (vg_device_type v),
                pc_backed_up = vg_backed_up v, pc_label = None, pc_created_at = now\<rparr>,
              vr_context = ctx\<rparr>)))))"

definition verify_registration ::
  "('c, 'k) service \<Rightarrow> datetime \<Rightarrow> string \<Rightarrow> credential_input \<Rightarrow> ('c \<times> 'k, verified_registration) op" where
  "verify_registration sv now flow_id credential =
     op_bind (on_challenges (cs_pop (sv_challenges sv) now flow_id Registration))
       (\<lambda>r. pure_op (registration_outcome sv now credential r))"

definition descriptor ::
  "webauthn \<Rightarrow> passkey_credential \<Rightarrow> (bytes \<times> string list option) result" where
  "descriptor wa c =
     (if \<not> list_all (wa_transport wa) (pc_transports c)
      then Inl (ValueError ''not a valid AuthenticatorTransport'')
      else Inr (pc_credential_id c, if pc_transports c = [] then None else Some (pc_transports c)))"

definition begin_authentication ::
  "('c, 'k) service \<Rightarrow> datetime \<Rightarrow> string \<Rightarrow> passkey_credential list \<Rightarrow> ('c \<times> 'k, json) op" where
  "begin_authentication sv now flow_id allow_credentials =
     op_bind (pure_op (map_result (descriptor (sv_webauthn sv)) allow_credentials)) (\<lambda>descriptors.
     op_bind (pure_op (wa_authentication_options (sv_webauthn sv) (pk_rp_id (sv_config sv))
         (pk_timeout_ms (sv_config sv)) descriptors (pk_user_verification (sv_config sv)))) (\<lambda>(challenge, options).
     op_bind (on_challenges (cs_save (sv_challenges sv) now flow_id Authentication challenge
         (pk_challenge_ttl (sv_config sv)) None None)) (\<lambda>_.
     pure_op (json_loads options))))"

text \<open>
  The checks of \<open>finish_authentication\<close> that precede the pop of the challenge: they only read
  the credential store.
\<close>

definition login_subject ::
  "('c, 'k) service \<Rightarrow> credential_input \<Rightarrow> bool \<Rightarrow> 'k
   \<Rightarrow> (json_dict \<times> bytes \<times> passkey_credential \<times> passkey_user) result" where
  "login_subject sv credential require_user_handle k =
     res_bind (credential_data credential) (\<lambda>d.
     res_bind (credential_id_from_response (sv_repr sv) d) (\<lambda>cid.
     res_bind (ks_get (sv_credentials sv) cid k) (\<lambda>found.
     case found of
       None \<Rightarrow> Inl (CredentialNotFound ''unknown passkey credential'')
     | Some stored \<Rightarrow>
         res_bind (ks_get_user (sv_credentials sv) (pc_user_id stored) k) (\<lambda>owner.
         case owner of
           None \<Rightarrow> Inl (CredentialNotFound ''credential has no user'')
         | Some user \<Rightarrow>
             res_bind (user_handle_from_response d) (\<lambda>handle.
             if handle \<noteq> Some (pu_user_handle user) \<and> (require_user_handle \<or> handle \<noteq> None)
             then Inl (UserHandleMismatch ''credential userHandle does not match stored user'')
             else Inr (d, cid, stored, user))))))"

definition finish_authentication ::
  "('c, 'k) service \<Rightarrow> datetime \<Rightarrow> string \<Rightarrow> credential_input \<Rightarrow> bool
   \<Rightarrow> ('c \<times> 'k, authentication_result) op" where
  "finish_authentication sv now flow_id credential require_user_handle =
     op_bind (\<lambda>s. (login_subject sv credential require_user_handle (snd s), s)) (\<lambda>(d, cid, stored, user).
     op_bind (on_challenges (cs_pop (sv_challenges sv) now flow_id Authentication)) (\<lambda>r.
     op_bind (pure_op (wa_verify_authentication (sv_webauthn sv) d (ch_challenge r) (pk_rp_id (sv_config sv))
         (pk_origins (sv_config sv)) (pc_public_key stored) (pc_sign_count stored)
         (require_user_verification (sv_config sv)))) (\<lambda>v.
     op_bind (on_credentials (ks_cas (sv_credentials sv) cid (pc_sign_count stored) (vl_new_sign_count v)
         (enum_value (vl_device_type v)) (vl_backed_up v))) (\<lambda>updated.
     pure_op (Inr \<lparr>ar_user = user, ar_credential = updated\<rparr>)))))"

end
