(* ===== verification/PasskeyFlows.thy ===== *)
theory PasskeyFlows
  imports PasskeyService
begin

section \<open>Registration and login over the two pairs of stores\<close>

text \<open>
  What \<open>PasskeyService\<close> guarantees when its stores keep their contracts: the locale
  \<open>passkey_backend\<close> joins the contracts of a challenge store and a credential store, the lemmas
  about the operations are proved in it, and it is interpreted on the memory stores (\<open>memsvc\<close>)
  and the SQLite stores (\<open>sqlsvc\<close>) of the package.
\<close>

lemmas service_ops = op_bind_def on_challenges_def on_credentials_def pure_op_def

lemma normalize_label_Inr:
  assumes "normalize_credential_label label = Inr r"
  shows "r = None \<or> (\<exists>l. label = Some l \<and> r = Some (py_strip l) \<and> py_strip l \<noteq> [] \<and> length (py_strip l) \<le> 80)"
  using assms by (auto simp: normalize_credential_label_def Let_def split: option.splits if_splits)

lemma some_Inr: "(case x of None \<Rightarrow> Inl e | Some y \<Rightarrow> f y) = Inr r \<longleftrightarrow> (\<exists>y. x = Some y \<and> f y = Inr r)"
  by (cases x) auto

lemma map_reply_Inr:
  "map_prod (map_sum id g) h p = (Inr y, s') \<longleftrightarrow> (\<exists>u k. p = (Inr u, k) \<and> y = g u \<and> s' = h k)"
  by (cases p; cases "fst p") auto

lemma registration_of_Some: "registration_of None (Some ctx) = Inr ctx"
  by (simp add: registration_of_def)

locale passkey_backend =
  ch: challenge_store "cs_save (sv_challenges sv)" "cs_pop (sv_challenges sv)" cleanup live cinv +
  cr: credential_store "ks_save (sv_credentials sv)" "ks_get_user (sv_credentials sv)"
    "ks_by_handle (sv_credentials sv)" "ks_list (sv_credentials sv)" "ks_get (sv_credentials sv)"
    "ks_cas (sv_credentials sv)" "ks_label (sv_credentials sv)" "ks_delete (sv_credentials sv)"
    abs kinv reg_ok count_ok
  for sv :: "('c, 'k) service" and cleanup live cinv abs kinv reg_ok count_ok +
  assumes stored_count: "kinv k \<Longrightarrow> ks_get (sv_credentials sv) cid k = Inr (Some c) \<Longrightarrow> count_ok (pc_sign_count c)"
begin

subsection \<open>Registration\<close>

lemma verify_unfold:
  assumes "cinv (fst s)" and "valid_datetime now"
  shows "verify_registration sv now f credential s =
    ((case live (fst s) now f Registration of
        None \<Rightarrow> Inl (challenge_missing Registration)
      | Some r \<Rightarrow> registration_outcome sv now credential r),
     (snd (cs_pop (sv_challenges sv) now f Registration (fst s)), snd s))"
  using ch.pop_result [OF assms, of f Registration]
  by (cases "cs_pop (sv_challenges sv) now f Registration (fst s)")
    (auto simp: verify_registration_def service_ops split: option.splits)

lemma registration_outcome_Inr:
  assumes "registration_outcome sv now credential r = Inr vr"
  shows "\<exists>d v. ch_user r = Some (vr_user vr) \<and> registration_context_of r = Inr (vr_context vr)
    \<and> credential_data credential = Inr d
    \<and> wa_verify_registration (sv_webauthn sv) d (ch_challenge r) (pk_rp_id (sv_config sv))
        (pk_origins (sv_config sv)) (require_user_verification (sv_config sv)) = Inr v
    \<and> pc_credential_id (vr_credential vr) = vg_credential_id v
    \<and> pc_public_key (vr_credential vr) = vg_public_key v
    \<and> pc_user_id (vr_credential vr) = pu_user_id (vr_user vr)"
  using assms by (auto simp: registration_outcome_def verify_registration_def service_ops res_bind_Inr
      split: option.splits)

lemma verify_pops:
  assumes "cinv (fst s)" and "valid_datetime now" and "valid_datetime later" and "now \<le> later"
  shows "fst (verify_registration sv later f other (snd (verify_registration sv now f credential s))) =
    Inl (challenge_missing Registration)"
  using assms by (simp add: verify_unfold ch.pop_inv ch.pop_live)

subsection \<open>Login\<close>

lemma login_subject_Inr:
  assumes "kinv k"
  shows "login_subject sv credential rh k = Inr (d, cid, stored, user) \<longleftrightarrow>
    credential_data credential = Inr d \<and> credential_id_from_response (sv_repr sv) d = Inr cid
    \<and> sp_creds (abs k) cid = Some stored \<and> sp_users (abs k) (pc_user_id stored) = Some user
    \<and> (\<exists>handle. user_handle_from_response d = Inr handle
         \<and> (handle = Some (pu_user_handle user) \<or> \<not> rh \<and> handle = None))"
  by (auto simp: login_subject_def res_bind_Inr some_Inr guard_Inr cr.get_cred_spec [OF assms]
      cr.get_user_spec [OF assms])

lemma finish_unfold:
  assumes "cinv (fst s)" and "valid_datetime now"
  shows "finish_authentication sv now f credential rh s =
    (case login_subject sv credential rh (snd s) of
       Inl e \<Rightarrow> (Inl e, s)
     | Inr (d, cid, stored, user) \<Rightarrow>
         (let c' = snd (cs_pop (sv_challenges sv) now f Authentication (fst s)) in
          case live (fst s) now f Authentication of
            None \<Rightarrow> (Inl (challenge_missing Authentication), (c', snd s))
          | Some r \<Rightarrow>
              (case wa_verify_authentication (sv_webauthn sv) d (ch_challenge r) (pk_rp_id (sv_config sv))
                  (pk_origins (sv_config sv)) (pc_public_key stored) (pc_sign_count stored)
                  (require_user_verification (sv_config sv)) of
                Inl e \<Rightarrow> (Inl e, (c', snd s))
              | Inr v \<Rightarrow>
                  map_prod (map_sum id (\<lambda>u. \<lparr>ar_user = user, ar_credential = u\<rparr>)) (Pair c')
                    (ks_cas (sv_credentials sv) cid (pc_sign_count stored) (vl_new_sign_count v)
                      (enum_value (vl_device_type v)) (vl_backed_up v) (snd s)))))"
  using ch.pop_result [OF assms, of f Authentication]
  by (cases "cs_pop (sv_challenges sv) now f Authentication (fst s)")
    (auto simp: finish_authentication_def service_ops Let_def split: option.splits sum.splits prod.splits)

lemma finish_Inr:
  assumes "cinv (fst s)" and "kinv (snd s)" and "valid_datetime now"
    and "finish_authentication sv now f credential rh s = (Inr ar, s')"
  obtains d cid stored r v where "login_subject sv credential rh (snd s) = Inr (d, cid, stored, ar_user ar)"
    and "live (fst s) now f Authentication = Some r"
    and "wa_verify_authentication (sv_webauthn sv) d (ch_challenge r) (pk_rp_id (sv_config sv))
           (pk_origins (sv_config sv)) (pc_public_key stored) (pc_sign_count stored)
           (require_user_verification (sv_config sv)) = Inr v"
    and "ks_cas (sv_credentials sv) cid (pc_sign_count stored) (vl_new_sign_count v)
           (enum_value (vl_device_type v)) (vl_backed_up v) (snd s) = (Inr (ar_credential ar), snd s')"
    and "fst s' = snd (cs_pop (sv_challenges sv) now f Authentication (fst s))"
  using assms(4) unfolding finish_unfold [OF assms(1,3)] Let_def
  by (auto simp: map_reply_Inr split: sum.splits option.splits prod.splits)

lemma cas_Inr:
  assumes "kinv k" and "ks_get (sv_credentials sv) cid k = Inr (Some stored)" and "count_ok n"
    and "ks_cas (sv_credentials sv) cid (pc_sign_count stored) n dt bu k = (Inr c, k')"
  shows "pc_sign_count stored \<le> n \<and> kinv k'
    \<and> c = stored\<lparr>pc_sign_count := n, pc_device_type := dt, pc_backed_up := bu\<rparr>
    \<and> abs k' = (abs k)\<lparr>sp_creds := (sp_creds (abs k))(cid \<mapsto> c)\<rparr>"
proof -
  have stored: "sp_creds (abs k) cid = Some stored" using assms(1,2) by (simp add: cr.get_cred_spec)
  have ok: "count_ok (pc_sign_count stored)" using assms(1,2) by (rule stored_count)
  have "kinv k'" using cr.cas_inv [OF assms(1) ok assms(3), of cid dt bu] assms(4) by simp
  moreover have "spec_cas cid (pc_sign_count stored) n dt bu (abs k) = (Inr c, abs k')"
    using cr.cas_refines [OF assms(1) ok assms(3), of cid dt bu] assms(4) by simp
  ultimately show ?thesis
    using stored by (auto simp: spec_cas_def Let_def split: if_splits)
qed

lemma cas_Inl:
  assumes "kinv k" and "ks_get (sv_credentials sv) cid k = Inr (Some stored)" and "count_ok n"
    and "ks_cas (sv_credentials sv) cid (pc_sign_count stored) n dt bu k = (Inl e, k')"
  shows "kinv k' \<and> abs k' = abs k"
proof -
  have ok: "count_ok (pc_sign_count stored)" using assms(1,2) by (rule stored_count)
  have "kinv k'" using cr.cas_inv [OF assms(1) ok assms(3), of cid dt bu] assms(4) by simp
  moreover have "spec_cas cid (pc_sign_count stored) n dt bu (abs k) = (Inl (bare e), abs k')"
    using cr.cas_refines [OF assms(1) ok assms(3), of cid dt bu] assms(4) by simp
  ultimately show ?thesis
    by (auto simp: spec_cas_def Let_def split: if_splits option.splits)
qed

text \<open>A login that fails leaves every credential as it was.\<close>

lemma finish_Inl:
  assumes "cinv (fst s)" and "kinv (snd s)" and "valid_datetime now"
    and counts: "\<forall>d c p os pk n uv v. wa_verify_authentication (sv_webauthn sv) d c p os pk n uv = Inr v \<longrightarrow>
      count_ok (vl_new_sign_count v)"
    and fails: "finish_authentication sv now f credential rh s = (Inl e, s')"
  shows "abs (snd s') = abs (snd s) \<and> kinv (snd s')"
proof (cases "login_subject sv credential rh (snd s)")
  case (Inl e')
  then show ?thesis using fails assms(2) by (auto simp: finish_unfold [OF assms(1,3)])
next
  case (Inr q)
  obtain d cid stored user where q: "q = (d, cid, stored, user)" by (cases q)
  have stored: "ks_get (sv_credentials sv) cid (snd s) = Inr (Some stored)"
    using Inr assms(2) by (simp add: q login_subject_Inr cr.get_cred_spec)
  show ?thesis
  proof (cases "live (fst s) now f Authentication")
    case None
    then show ?thesis using fails Inr q assms(2) by (auto simp: finish_unfold [OF assms(1,3)] Let_def)
  next
    case (Some r)
    show ?thesis
    proof (cases "wa_verify_authentication (sv_webauthn sv) d (ch_challenge r) (pk_rp_id (sv_config sv))
          (pk_origins (sv_config sv)) (pc_public_key stored) (pc_sign_count stored)
          (require_user_verification (sv_config sv))")
      case (Inl e')
      then show ?thesis using fails Inr q Some assms(2) by (auto simp: finish_unfold [OF assms(1,3)] Let_def)
    next
      case (Inr v)
      obtain x k' where cas: "ks_cas (sv_credentials sv) cid (pc_sign_count stored) (vl_new_sign_count v)
          (enum_value (vl_device_type v)) (vl_backed_up v) (snd s) = (x, k')" by force
      have "count_ok (vl_new_sign_count v)" using counts Inr by blast
      moreover have "x = Inl e \<and> snd s' = k'"
        using fails \<open>login_subject sv credential rh (snd s) = Inr q\<close> Some Inr cas
        by (cases x) (auto simp: q finish_unfold [OF assms(1,3)] Let_def)
      ultimately show ?thesis using cas_Inl [OF assms(2) stored] cas by blast
    qed
  qed
qed

text \<open>Once a login has reached the pop, its flow id is used up, whatever its result was.\<close>

lemma finish_pops:
  assumes "cinv (fst s)" and "valid_datetime now" and "valid_datetime later" and "now \<le> later"
    and "login_subject sv credential rh (snd s) = Inr q"
  shows "\<exists>e. fst (finish_authentication sv later f other rh' (snd (finish_authentication sv now f credential rh s))) = Inl e"
proof -
  let ?c = "snd (cs_pop (sv_challenges sv) now f Authentication (fst s))"
  have "fst (snd (finish_authentication sv now f credential rh s)) = ?c"
    using assms(5) by (cases q) (auto simp: finish_unfold [OF assms(1,2)] Let_def split: option.splits sum.splits)
  then obtain k where s': "snd (finish_authentication sv now f credential rh s) = (?c, k)" by (metis prod.collapse)
  have "cinv ?c" "live ?c later f Authentication = None"
    using assms by (simp_all add: ch.pop_inv ch.pop_live)
  then show ?thesis
    unfolding s' by (subst finish_unfold) (auto simp: assms(3) Let_def split: sum.split)
qed

subsection \<open>Labels and removal\<close>

lemma label_Inr:
  assumes "kinv (snd s)" and "label_credential sv uid cid label s = (Inr c, s')"
  shows "\<exists>l stored. normalize_credential_label label = Inr l \<and> c = stored\<lparr>pc_label := l\<rparr>
    \<and> sp_creds (abs (snd s)) cid = Some stored \<and> pc_user_id stored = uid
    \<and> abs (snd s') = (abs (snd s))\<lparr>sp_creds := (sp_creds (abs (snd s)))(cid \<mapsto> c)\<rparr> \<and> kinv (snd s')"
proof -
  obtain l k' where l: "normalize_credential_label label = Inr l"
    and set: "ks_label (sv_credentials sv) cid uid l (snd s) = (Inr (Some c), k')" and s': "s' = (fst s, k')"
    using assms(2) by (auto simp: label_credential_def service_ops split: sum.splits prod.splits option.splits)
  have "kinv k'" using cr.label_inv [OF assms(1), of cid uid l] set by simp
  moreover have "spec_label cid uid l (abs (snd s)) = (Inr (Some c), abs k')"
    using cr.label_refines [OF assms(1), of cid uid l] set by simp
  ultimately show ?thesis
    using l s' by (auto simp: spec_label_def Let_def split: option.splits if_splits)
qed

lemma label_success:
  assumes "kinv (snd s)" and "normalize_credential_label label = Inr l"
    and "sp_creds (abs (snd s)) cid = Some stored" and "pc_user_id stored = uid"
  shows "fst (label_credential sv uid cid label s) = Inr (stored\<lparr>pc_label := l\<rparr>)"
proof -
  obtain x k' where set: "ks_label (sv_credentials sv) cid uid l (snd s) = (x, k')" by force
  have "map_sum bare id x = Inr (Some (stored\<lparr>pc_label := l\<rparr>))"
    using cr.label_refines [OF assms(1), of cid uid l] set assms(3,4) by (simp add: spec_label_def Let_def)
  then have "x = Inr (Some (stored\<lparr>pc_label := l\<rparr>))" by (cases x) auto
  then show ?thesis using set by (simp add: label_credential_def service_ops assms(2))
qed

lemma label_Inl:
  assumes "kinv (snd s)" and "label_credential sv uid cid label s = (Inl e, s')"
  shows "abs (snd s') = abs (snd s) \<and> kinv (snd s')"
proof (cases "normalize_credential_label label")
  case (Inl e')
  then show ?thesis using assms by (auto simp: label_credential_def service_ops)
next
  case (Inr l)
  obtain x k' where set: "ks_label (sv_credentials sv) cid uid l (snd s) = (x, k')" by force
  have "kinv k'" using cr.label_inv [OF assms(1), of cid uid l] set by simp
  moreover have "spec_label cid uid l (abs (snd s)) = (map_sum bare id x, abs k')"
    using cr.label_refines [OF assms(1), of cid uid l] set by simp
  moreover have "snd s' = k'" "x = Inl e \<or> x = Inr None"
    using assms(2) set by (auto simp: label_credential_def service_ops Inr split: sum.splits option.splits)
  ultimately show ?thesis
    by (auto simp: spec_label_def Let_def split: option.splits if_splits)
qed

lemma remove_cases:
  fixes uid :: string and cid :: bytes and allow_final :: bool
  assumes "kinv (snd s)"
  defines "st \<equiv> abs (snd s)" and "r \<equiv> remove_credential sv uid cid allow_final s"
  shows "fst (snd r) = fst s \<and> kinv (snd (snd r)) \<and>
    (if \<exists>c. sp_creds st cid = Some c \<and> pc_user_id c = uid
     then if \<not> allow_final \<and> card (owned st uid) \<le> 1
       then fst r = Inl (CredentialMutationDenied ''final passkey credential cannot be removed'')
         \<and> abs (snd (snd r)) = st
       else fst r = Inr () \<and> abs (snd (snd r)) = st\<lparr>sp_creds := (sp_creds st)(cid := None)\<rparr>
     else fst r = Inl (CredentialNotFound ''unknown passkey credential'') \<and> abs (snd (snd r)) = st)"
proof -
  obtain x k' where del: "ks_delete (sv_credentials sv) cid (Some uid) (\<not> allow_final) (snd s) = (x, k')"
    by force
  have k': "kinv k'" using cr.delete_inv [OF assms(1), of cid "Some uid" "\<not> allow_final"] del by simp
  have spec: "spec_delete cid (Some uid) (\<not> allow_final) st = (map_sum bare id x, abs k')"
    using cr.delete_refines [OF assms(1), of cid "Some uid" "\<not> allow_final"] del by (simp add: st_def)
  then obtain b where x: "x = Inr b"
    by (cases x) (auto simp: spec_delete_def split: option.splits if_splits)
  have r: "r = (if b then Inr () else
      (case sp_creds (abs k') cid of
         None \<Rightarrow> Inl (CredentialNotFound ''unknown passkey credential'')
       | Some c \<Rightarrow> if pc_user_id c \<noteq> uid then Inl (CredentialNotFound ''unknown passkey credential'')
           else Inl (CredentialMutationDenied ''final passkey credential cannot be removed'')), (fst s, k'))"
    by (simp add: r_def remove_credential_def service_ops del x cr.get_cred_spec [OF k'])
  show ?thesis
  proof (cases "sp_creds st cid")
    case None
    then have "b = False" "abs k' = st" using spec x by (simp_all add: spec_delete_def)
    then show ?thesis using None k' by (simp add: r)
  next
    case (Some c)
    have "b = (pc_user_id c = uid \<and> (allow_final \<or> \<not> card (owned st uid) \<le> 1))"
      "abs k' = (if b then st\<lparr>sp_creds := (sp_creds st)(cid := None)\<rparr> else st)"
      using spec x unfolding spec_delete_def Some by (auto split: if_split_asm)
    then show ?thesis using Some k' by (simp add: r)
  qed
qed

subsection \<open>A whole session\<close>

lemma begin_registration_Inr:
  assumes "cinv (fst s)" and "kinv (snd s)" and "registration_of user ctxo = Inr ctx"
    and "spec_list (abs (snd s)) (pu_user_id (rc_user ctx)) = {}"
    and "wa_registration_options (sv_webauthn sv) (pk_rp_id (sv_config sv)) (pk_rp_name (sv_config sv))
         (pu_name (rc_user ctx)) (pu_user_handle (rc_user ctx))
         (if truthy (pu_display_name (rc_user ctx)) then the (pu_display_name (rc_user ctx)) else pu_name (rc_user ctx))
         (pk_timeout_ms (sv_config sv)) (pk_user_verification (sv_config sv)) [] = Inr (c, options)"
    and "challenge_record_for now f Registration c (pk_challenge_ttl (sv_config sv))
         (Some (rc_user ctx)) (Some ctx) = Inr r" and "json_loads options = Inr j"
  shows "\<exists>c'. begin_registration sv now f user ctxo s = (Inr j, (c', snd s)) \<and> cinv c'
    \<and> (\<forall>t. live c' t f Registration = (if t < ch_expires_at r then Some r else None))"
proof -
  have "ks_list (sv_credentials sv) (pu_user_id (rc_user ctx)) (snd s) = Inr []"
    using cr.list_spec [OF assms(2), of "pu_user_id (rc_user ctx)"] assms(4) by auto
  moreover obtain x c' where save: "cs_save (sv_challenges sv) now f Registration c
      (pk_challenge_ttl (sv_config sv)) (Some (rc_user ctx)) (Some ctx) (fst s) = (x, c')" by force
  then have "x = Inr r" using ch.save_result [OF assms(1)] assms(6) by (metis fst_conv)
  moreover have "cinv c'" using ch.save_inv [OF assms(1)] save by (metis snd_conv)
  moreover have "live c' t f Registration = (if t < ch_expires_at r then Some r else None)" for t
    using ch.save_live [OF assms(1,6), of t f Registration] save by simp
  ultimately show ?thesis
    using assms(3,5,7) save by (simp add: begin_registration_def service_ops Let_def)
qed

lemma begin_authentication_Inr:
  assumes "cinv (fst s)"
    and "wa_authentication_options (sv_webauthn sv) (pk_rp_id (sv_config sv)) (pk_timeout_ms (sv_config sv)) []
         (pk_user_verification (sv_config sv)) = Inr (c, options)"
    and "challenge_record_for now f Authentication c (pk_challenge_ttl (sv_config sv)) None None = Inr r"
    and "json_loads options = Inr j"
  shows "\<exists>c'. begin_authentication sv now f [] s = (Inr j, (c', snd s)) \<and> cinv c'
    \<and> (\<forall>t. live c' t f Authentication = (if t < ch_expires_at r then Some r else None))"
proof -
  obtain x c' where save: "cs_save (sv_challenges sv) now f Authentication c
      (pk_challenge_ttl (sv_config sv)) None None (fst s) = (x, c')" by force
  then have "x = Inr r" using ch.save_result [OF assms(1)] assms(3) by (metis fst_conv)
  moreover have "cinv c'" using ch.save_inv [OF assms(1)] save by (metis snd_conv)
  moreover have "live c' t f Authentication = (if t < ch_expires_at r then Some r else None)" for t
    using ch.save_live [OF assms(1,3), of t f Authentication] save by simp
  ultimately show ?thesis
    using assms(2,4) save by (simp add: begin_authentication_def service_ops)
qed

lemma finish_success:
  assumes "cinv (fst s)" and "kinv (snd s)" and "valid_datetime now"
    and "login_subject sv credential rh (snd s) = Inr (d, cid, stored, user)"
    and "live (fst s) now f Authentication = Some r"
    and "wa_verify_authentication (sv_webauthn sv) d (ch_challenge r) (pk_rp_id (sv_config sv))
           (pk_origins (sv_config sv)) (pc_public_key stored) (pc_sign_count stored)
           (require_user_verification (sv_config sv)) = Inr v"
    and "count_ok (vl_new_sign_count v)" and "pc_sign_count stored \<le> vl_new_sign_count v"
  shows "fst (finish_authentication sv now f credential rh s) = Inr \<lparr>ar_user = user,
      ar_credential = stored\<lparr>pc_sign_count := vl_new_sign_count v,
        pc_device_type := enum_value (vl_device_type v), pc_backed_up := vl_backed_up v\<rparr>\<rparr>"
proof -
  have stored: "sp_creds (abs (snd s)) cid = Some stored"
    using assms(4) by (simp add: login_subject_Inr [OF assms(2)])
  then have ok: "count_ok (pc_sign_count stored)"
    using stored_count [OF assms(2), of cid stored] by (simp add: cr.get_cred_spec [OF assms(2)])
  obtain x k' where cas: "ks_cas (sv_credentials sv) cid (pc_sign_count stored) (vl_new_sign_count v)
      (enum_value (vl_device_type v)) (vl_backed_up v) (snd s) = (x, k')" by force
  have "map_sum bare id x = Inr (stored\<lparr>pc_sign_count := vl_new_sign_count v,
      pc_device_type := enum_value (vl_device_type v), pc_backed_up := vl_backed_up v\<rparr>)"
    using cr.cas_refines [OF assms(2) ok assms(7), of cid "enum_value (vl_device_type v)" "vl_backed_up v"]
      cas stored assms(8) by (simp add: spec_cas_def Let_def)
  then have "x = Inr (stored\<lparr>pc_sign_count := vl_new_sign_count v,
      pc_device_type := enum_value (vl_device_type v), pc_backed_up := vl_backed_up v\<rparr>)"
    by (cases x) auto
  then show ?thesis
    by (simp add: finish_unfold [OF assms(1,3)] assms(4-6) cas Let_def)
qed

end

section \<open>The services of the package\<close>

definition memory_challenges :: "challenge_dict challenge_ops" where
  "memory_challenges = \<lparr>cs_save = mem_save_challenge, cs_pop = mem_pop_challenge\<rparr>"

definition sqlite_challenges :: "challenge_table challenge_ops" where
  "sqlite_challenges = \<lparr>cs_save = sql_save_challenge, cs_pop = sql_pop_challenge\<rparr>"

definition memory_credentials :: "mem_creds credential_ops" where
  "memory_credentials = \<lparr>ks_save = mem_save_registration, ks_get_user = mem_get_user,
     ks_by_handle = mem_get_user_by_handle, ks_list = mem_list_credentials, ks_get = mem_get_credential,
     ks_cas = mem_cas, ks_label = mem_label, ks_delete = mem_delete\<rparr>"

definition sqlite_credentials :: "cred_db credential_ops" where
  "sqlite_credentials = \<lparr>ks_save = sql_save_registration, ks_get_user = sql_get_user,
     ks_by_handle = sql_get_user_by_handle, ks_list = sql_list_credentials, ks_get = sql_get_credential,
     ks_cas = sql_cas, ks_label = sql_label, ks_delete = sql_delete\<rparr>"

definition mem_service :: "passkey_config \<Rightarrow> webauthn \<Rightarrow> (json \<Rightarrow> string) \<Rightarrow> (challenge_dict, mem_creds) service" where
  "mem_service cfg wa repr = \<lparr>sv_config = cfg, sv_challenges = memory_challenges,
     sv_credentials = memory_credentials, sv_webauthn = wa, sv_repr = repr\<rparr>"

definition sql_service :: "passkey_config \<Rightarrow> webauthn \<Rightarrow> (json \<Rightarrow> string) \<Rightarrow> (challenge_table, cred_db) service" where
  "sql_service cfg wa repr = \<lparr>sv_config = cfg, sv_challenges = sqlite_challenges,
     sv_credentials = sqlite_credentials, sv_webauthn = wa, sv_repr = repr\<rparr>"

lemma mem_service_simps [simp]:
  "sv_config (mem_service cfg wa repr) = cfg" "sv_webauthn (mem_service cfg wa repr) = wa"
  "sv_repr (mem_service cfg wa repr) = repr"
  "cs_save (sv_challenges (mem_service cfg wa repr)) = mem_save_challenge"
  "cs_pop (sv_challenges (mem_service cfg wa repr)) = mem_pop_challenge"
  "ks_save (sv_credentials (mem_service cfg wa repr)) = mem_save_registration"
  "ks_get_user (sv_credentials (mem_service cfg wa repr)) = mem_get_user"
  "ks_by_handle (sv_credentials (mem_service cfg wa repr)) = mem_get_user_by_handle"
  "ks_list (sv_credentials (mem_service cfg wa repr)) = mem_list_credentials"
  "ks_get (sv_credentials (mem_service cfg wa repr)) = mem_get_credential"
  "ks_cas (sv_credentials (mem_service cfg wa repr)) = mem_cas"
  "ks_label (sv_credentials (mem_service cfg wa repr)) = mem_label"
  "ks_delete (sv_credentials (mem_service cfg wa repr)) = mem_delete"
  by (simp_all add: mem_service_def memory_challenges_def memory_credentials_def)

lemma sql_service_simps [simp]:
  "sv_config (sql_service cfg wa repr) = cfg" "sv_webauthn (sql_service cfg wa repr) = wa"
  "sv_repr (sql_service cfg wa repr) = repr"
  "cs_save (sv_challenges (sql_service cfg wa repr)) = sql_save_challenge"
  "cs_pop (sv_challenges (sql_service cfg wa repr)) = sql_pop_challenge"
  "ks_save (sv_credentials (sql_service cfg wa repr)) = sql_save_registration"
  "ks_get_user (sv_credentials (sql_service cfg wa repr)) = sql_get_user"
  "ks_by_handle (sv_credentials (sql_service cfg wa repr)) = sql_get_user_by_handle"
  "ks_list (sv_credentials (sql_service cfg wa repr)) = sql_list_credentials"
  "ks_get (sv_credentials (sql_service cfg wa repr)) = sql_get_credential"
  "ks_cas (sv_credentials (sql_service cfg wa repr)) = sql_cas"
  "ks_label (sv_credentials (sql_service cfg wa repr)) = sql_label"
  "ks_delete (sv_credentials (sql_service cfg wa repr)) = sql_delete"
  by (simp_all add: sql_service_def sqlite_challenges_def sqlite_credentials_def)

lemma sql_stored_count:
  assumes "cred_db_ok k" and "sql_get_credential cid k = Inr (Some c)"
  shows "sqlite_int_ok (pc_sign_count c)"
proof -
  obtain us cs where k: "k = db_of us cs" and ok: "lists_ok us cs" using assms(1) by (rule cred_db_okE)
  have "sp_creds (lists_abs us cs) cid = Some c"
    using assms by (simp add: sqlc.get_cred_spec k sql_cred_abs_db_of [OF ok])
  then have "c \<in> set cs" by (auto simp: lists_abs_def dest: select_by_SomeD)
  then show ?thesis using ok by (simp add: lists_ok_def cred_repr_def)
qed

interpretation memsvc: passkey_backend "mem_service cfg wa repr" mem_cleanup_challenges mem_live dict_ok
  mem_cred_abs mem_cred_ok mem_reg_ok "\<lambda>_. True" for cfg wa repr
  by (rule passkey_backend.intro)
    (simp_all add: mem.challenge_store_axioms memc.credential_store_axioms passkey_backend_axioms_def)

interpretation sqlsvc: passkey_backend "sql_service cfg wa repr" sql_cleanup_challenges sql_live challenge_table_ok
  sql_cred_abs cred_db_ok sql_reg_ok sqlite_int_ok for cfg wa repr
  by (rule passkey_backend.intro)
    (simp_all add: sql.challenge_store_axioms sqlc.credential_store_axioms passkey_backend_axioms_def sql_stored_count)

end
