(* ===== verification/PasskeyProperties.thy ===== *)
theory PasskeyProperties
  imports PasskeyFlows CredProperties
begin

section \<open>Properties of registration and login\<close>

text \<open>
  The guarantees of \<open>PasskeyService\<close> over the SQLite stores, for any \<open>webauthn\<close> package: they
  hold of the memory stores by the same lemmas (\<open>memsvc\<close>).
\<close>

subsection \<open>A concrete service\<close>

definition demo_cfg :: passkey_config where
  "demo_cfg = \<lparr>pk_rp_id = ''a.io'', pk_rp_name = ''Example'', pk_origins = [''https://a.io''],
     pk_timeout_ms = 60000, pk_challenge_ttl = 300, pk_user_verification = ''required''\<rparr>"

definition demo_wa :: webauthn where
  "demo_wa = \<lparr>wa_registration_options = (\<lambda>_ _ _ _ _ _ _ _. Inr ([7], ''{}'')),
     wa_authentication_options = (\<lambda>_ _ _ _. Inr ([8], ''{}'')), wa_transport = (\<lambda>t. t = ''usb''),
     wa_verify_registration = (\<lambda>d c _ _ _.
       if c = [7] then Inr \<lparr>vg_credential_id = [1], vg_public_key = [9], vg_sign_count = 0,
         vg_device_type = EnumMember ''single_device'', vg_backed_up = Some False\<rparr>
       else Inl (WebAuthnException ''challenge'')),
     wa_verify_authentication = (\<lambda>d c _ _ pk _ _.
       if c = [8] \<and> pk = [9] then Inr \<lparr>vl_new_sign_count = 5, vl_device_type = NoValue, vl_backed_up = None\<rparr>
       else Inl (WebAuthnException ''signature''))\<rparr>"

abbreviation demo_repr :: "json \<Rightarrow> string" where
  "demo_repr \<equiv> (\<lambda>_. [])"

definition demo_context :: registration_context where
  "demo_context = \<lparr>rc_kind = SelfRegistration, rc_user = ann, rc_capability_id = None\<rparr>"

definition demo_response :: json_dict where
  "demo_response = [(''id'', JStr (bytes_to_b64url [1])),
     (''response'', JObj [(''userHandle'', JStr (bytes_to_b64url [1]))])]"

text \<open>The signature counter of WebAuthn is a 32-bit number.\<close>

definition counters_32_bit :: "webauthn \<Rightarrow> bool" where
  "counters_32_bit wa \<longleftrightarrow> (\<forall>d c p os pk n uv v. wa_verify_authentication wa d c p os pk n uv = Inr v \<longrightarrow>
     0 \<le> vl_new_sign_count v \<and> vl_new_sign_count v < 2 ^ 32)"

lemma counters_fit: "counters_32_bit wa \<Longrightarrow> wa_verify_authentication wa d c p os pk n uv = Inr v \<Longrightarrow>
    sqlite_int_ok (vl_new_sign_count v)"
  by (fastforce simp: counters_32_bit_def sqlite_int_ok_def)

lemma demo_counters: "counters_32_bit demo_wa"
  by (auto simp: counters_32_bit_def demo_wa_def split: if_splits)

subsection \<open>Registration then login\<close>

text \<open>A host that registers a passkey and then logs in with it: the calls of the service in order.\<close>

definition register ::
  "('c, 'k) service \<Rightarrow> datetime \<Rightarrow> datetime \<Rightarrow> string \<Rightarrow> registration_context \<Rightarrow> credential_input
   \<Rightarrow> ('c \<times> 'k, unit) op" where
  "register sv t0 t1 f ctx resp =
     op_bind (begin_registration sv t0 f None (Some ctx)) (\<lambda>_.
     op_bind (verify_registration sv t1 f resp) (\<lambda>vr.
     on_credentials (ks_save (sv_credentials sv) vr)))"

definition login_session ::
  "('c, 'k) service \<Rightarrow> datetime \<Rightarrow> datetime \<Rightarrow> string \<Rightarrow> credential_input \<Rightarrow> ('c \<times> 'k, authentication_result) op" where
  "login_session sv t2 t3 g resp =
     op_bind (begin_authentication sv t2 g []) (\<lambda>_. finish_authentication sv t3 g resp True)"

text \<open>The authenticator's side of the session: what the package makes of its two responses.\<close>

definition registration_answered ::
  "passkey_config \<Rightarrow> webauthn \<Rightarrow> (json \<Rightarrow> string) \<Rightarrow> passkey_user \<Rightarrow> credential_input \<Rightarrow> verified_credential \<Rightarrow> bool" where
  "registration_answered cfg wa repr u resp v \<longleftrightarrow>
     (\<exists>c options j d ts.
        wa_registration_options wa (pk_rp_id cfg) (pk_rp_name cfg) (pu_name u) (pu_user_handle u)
          (if truthy (pu_display_name u) then the (pu_display_name u) else pu_name u)
          (pk_timeout_ms cfg) (pk_user_verification cfg) [] = Inr (c, options) \<and> json_loads options = Inr j
      \<and> credential_data resp = Inr d \<and> transports_from_response repr d = Inr ts
      \<and> wa_verify_registration wa d c (pk_rp_id cfg) (pk_origins cfg) (require_user_verification cfg) = Inr v)"

definition login_answered ::
  "passkey_config \<Rightarrow> webauthn \<Rightarrow> (json \<Rightarrow> string) \<Rightarrow> passkey_user \<Rightarrow> credential_input \<Rightarrow> verified_credential
   \<Rightarrow> verified_login \<Rightarrow> bool" where
  "login_answered cfg wa repr u resp v l \<longleftrightarrow>
     (\<exists>c options j d.
        wa_authentication_options wa (pk_rp_id cfg) (pk_timeout_ms cfg) [] (pk_user_verification cfg) =
          Inr (c, options) \<and> json_loads options = Inr j
      \<and> credential_data resp = Inr d \<and> credential_id_from_response repr d = Inr (vg_credential_id v)
      \<and> user_handle_from_response d = Inr (Some (pu_user_handle u))
      \<and> wa_verify_authentication wa d c (pk_rp_id cfg) (pk_origins cfg) (vg_public_key v) (vg_sign_count v)
          (require_user_verification cfg) = Inr l)"

lemma challenge_record_ok:
  "add_seconds now ttl = Inr t \<Longrightarrow> challenge_record_for now key Registration c ttl (Some (rc_user ctx)) (Some ctx) =
     Inr \<lparr>ch_challenge = c, ch_kind = Registration, ch_key = key, ch_expires_at = t, ch_user = Some (rc_user ctx),
          ch_registration_kind = Some (rc_kind ctx), ch_capability_id = rc_capability_id ctx\<rparr>"
  "add_seconds now ttl = Inr t \<Longrightarrow> challenge_record_for now key Authentication c ttl None None =
     Inr \<lparr>ch_challenge = c, ch_kind = Authentication, ch_key = key, ch_expires_at = t, ch_user = None,
          ch_registration_kind = None, ch_capability_id = None\<rparr>"
  by (simp_all add: challenge_record_for_def)

lemma unknown_user:
  assumes "cred_db_ok k" and "sql_get_user (pu_user_id u) k = Inr None"
    and "sql_get_user_by_handle (pu_user_handle u) k = Inr None"
  shows "sp_users (sql_cred_abs k) (pu_user_id u) = None" "sp_handles (sql_cred_abs k) (pu_user_handle u) = None"
    "spec_list (sql_cred_abs k) (pu_user_id u) = {}"
proof -
  have wf: "spec_wf (sql_cred_abs k)" using assms(1) by (rule sqlc.abs_wf)
  show new: "sp_users (sql_cred_abs k) (pu_user_id u) = None"
    using assms(2) by (simp add: sqlc.get_user_spec assms(1))
  show "spec_list (sql_cred_abs k) (pu_user_id u) = {}"
    using wf new unfolding spec_list_def spec_wf_def by force
  show "sp_handles (sql_cred_abs k) (pu_user_handle u) = None"
  proof (cases "sp_handles (sql_cred_abs k) (pu_user_handle u)")
    case (Some uid)
    with wf obtain w where "sp_users (sql_cred_abs k) uid = Some w" unfolding spec_wf_def by blast
    then show ?thesis
      using assms(3) Some by (simp add: sqlc.by_handle_spec assms(1) spec_by_handle_def)
  qed
qed

text \<open>The credential that a registration stores.\<close>

definition registered ::
  "datetime \<Rightarrow> passkey_user \<Rightarrow> string list \<Rightarrow> verified_credential \<Rightarrow> passkey_credential" where
  "registered now u ts v = \<lparr>pc_credential_id = vg_credential_id v, pc_user_id = pu_user_id u,
     pc_public_key = vg_public_key v, pc_sign_count = vg_sign_count v, pc_transports = ts,
     pc_device_type = enum_value (vg_device_type v), pc_backed_up = vg_backed_up v,
     pc_label = None, pc_created_at = now\<rparr>"

lemma register_ok:
  assumes "challenge_table_ok (fst s)" and "cred_db_ok (snd s)" and "context_ok ctx"
    and "sql_get_user (pu_user_id (rc_user ctx)) (snd s) = Inr None"
    and "sql_get_user_by_handle (pu_user_handle (rc_user ctx)) (snd s) = Inr None"
    and "sql_get_credential (vg_credential_id v) (snd s) = Inr None"
    and "registration_answered cfg wa repr (rc_user ctx) resp v" and "sqlite_int_ok (vg_sign_count v)"
    and "valid_datetime t1" and "add_seconds t0 (pk_challenge_ttl cfg) = Inr e1" and "t1 < e1"
  shows "\<exists>s' ts. register (sql_service cfg wa repr) t0 t1 f ctx resp s = (Inr (), s')
    \<and> challenge_table_ok (fst s') \<and> cred_db_ok (snd s')
    \<and> sp_users (sql_cred_abs (snd s')) (pu_user_id (rc_user ctx)) = Some (rc_user ctx)
    \<and> sp_creds (sql_cred_abs (snd s')) (vg_credential_id v) = Some (registered t1 (rc_user ctx) ts v)"
proof -
  let ?sv = "sql_service cfg wa repr" and ?u = "rc_user ctx" and ?st = "sql_cred_abs (snd s)"
  obtain c o1 j1 d ts where a:
    "wa_registration_options wa (pk_rp_id cfg) (pk_rp_name cfg) (pu_name ?u) (pu_user_handle ?u)
       (if truthy (pu_display_name ?u) then the (pu_display_name ?u) else pu_name ?u)
       (pk_timeout_ms cfg) (pk_user_verification cfg) [] = Inr (c, o1)" "json_loads o1 = Inr j1"
    "credential_data resp = Inr d" "transports_from_response repr d = Inr ts"
    "wa_verify_registration wa d c (pk_rp_id cfg) (pk_origins cfg) (require_user_verification cfg) = Inr v"
    using assms(7) unfolding registration_answered_def by blast
  note new = unknown_user [OF assms(2,4,5)]
  have fresh: "sp_creds ?st (vg_credential_id v) = None"
    using assms(6) by (simp add: sqlc.get_cred_spec assms(2))
  note rec = challenge_record_ok(1) [OF assms(10), of f c ctx]
  let ?r = "\<lparr>ch_challenge = c, ch_kind = Registration, ch_key = f, ch_expires_at = e1, ch_user = Some ?u,
      ch_registration_kind = Some (rc_kind ctx), ch_capability_id = rc_capability_id ctx\<rparr>"
  obtain c1 where begin1: "begin_registration ?sv t0 f None (Some ctx) s = (Inr j1, (c1, snd s))"
    and c1: "challenge_table_ok c1" and live1: "sql_live c1 t1 f Registration = Some ?r"
    using sqlsvc.begin_registration_Inr [of s None "Some ctx" ctx cfg wa repr, OF assms(1,2)
        registration_of_Some new(3), simplified, OF a(1) rec a(2)] assms(11) by auto
  define vr where "vr = \<lparr>vr_user = ?u, vr_credential = registered t1 ?u ts v, vr_context = Some ctx\<rparr>"
  have out: "registration_outcome ?sv t1 resp ?r = Inr vr"
    using a(3-5) context_ok_rebuild [OF assms(3)]
    by (simp add: registration_outcome_def registration_context_of_def vr_def registered_def)
  obtain c2 where verify: "verify_registration ?sv t1 f resp (c1, snd s) = (Inr vr, (c2, snd s))"
    and c2: "challenge_table_ok c2"
    using sqlsvc.verify_unfold [of "(c1, snd s)" t1 cfg wa repr f resp] c1 assms(9) live1 out sql.pop_inv [OF c1]
    by auto
  have reg: "sql_reg_ok vr" using assms(8,9) by (simp add: sql_reg_ok_def cred_repr_def vr_def registered_def)
  obtain x k where save: "sql_save_registration vr (snd s) = (x, k)" by force
  have k: "cred_db_ok k" using sqlc.save_inv [OF assms(2) reg] save by simp
  have "spec_save vr ?st = (map_sum bare id x, sql_cred_abs k)"
    using sqlc.save_refines [OF assms(2) reg] save by simp
  moreover have "spec_save vr ?st = (Inr (), \<lparr>sp_users = (sp_users ?st)(pu_user_id ?u \<mapsto> ?u),
      sp_handles = (sp_handles ?st)(pu_user_handle ?u \<mapsto> pu_user_id ?u),
      sp_creds = (sp_creds ?st)(vg_credential_id v \<mapsto> registered t1 ?u ts v)\<rparr>)"
    using new fresh by (simp add: spec_save_def Let_def vr_def registered_def)
  ultimately have x: "map_sum bare id x = Inr ()" and kept: "sp_users (sql_cred_abs k) (pu_user_id ?u) = Some ?u"
      "sp_creds (sql_cred_abs k) (vg_credential_id v) = Some (registered t1 ?u ts v)"
    by (simp_all only: prod.inject) (metis cred_spec.select_convs fun_upd_same)+
  from x have x: "x = Inr ()" by (cases x) auto
  have "register ?sv t0 t1 f ctx resp s = (Inr (), (c2, k))"
    unfolding register_def op_bind_def begin1 verify prod.case sum.case
    using save x by (simp add: on_credentials_def)
  then show ?thesis using c2 k kept by auto
qed

lemma login_steps:
  assumes "challenge_table_ok (fst s)" and "cred_db_ok (snd s)"
    and "sp_users (sql_cred_abs (snd s)) (pu_user_id u) = Some u"
    and "sp_creds (sql_cred_abs (snd s)) (vg_credential_id v) = Some (registered t1 u ts v)"
    and "login_answered cfg wa repr u resp v l"
    and "vg_sign_count v \<le> vl_new_sign_count l" and "sqlite_int_ok (vl_new_sign_count l)"
    and "valid_datetime t3" and "add_seconds t2 (pk_challenge_ttl cfg) = Inr e2" and "t3 < e2"
  shows "\<exists>j c. begin_authentication (sql_service cfg wa repr) t2 g [] s = (Inr j, (c, snd s))
    \<and> fst (finish_authentication (sql_service cfg wa repr) t3 g resp rh (c, snd s)) = Inr \<lparr>ar_user = u,
      ar_credential = (registered t1 u ts v)\<lparr>pc_sign_count := vl_new_sign_count l,
        pc_device_type := enum_value (vl_device_type l), pc_backed_up := vl_backed_up l\<rparr>\<rparr>"
proof -
  let ?sv = "sql_service cfg wa repr"
  obtain c o2 j2 d where a:
    "wa_authentication_options wa (pk_rp_id cfg) (pk_timeout_ms cfg) [] (pk_user_verification cfg) = Inr (c, o2)"
    "json_loads o2 = Inr j2" "credential_data resp = Inr d"
    "credential_id_from_response repr d = Inr (vg_credential_id v)"
    "user_handle_from_response d = Inr (Some (pu_user_handle u))"
    "wa_verify_authentication wa d c (pk_rp_id cfg) (pk_origins cfg) (vg_public_key v) (vg_sign_count v)
       (require_user_verification cfg) = Inr l"
    using assms(5) unfolding login_answered_def by blast
  note rec = challenge_record_ok(2) [OF assms(9), of g c]
  let ?q = "\<lparr>ch_challenge = c, ch_kind = Authentication, ch_key = g, ch_expires_at = e2, ch_user = None,
      ch_registration_kind = None, ch_capability_id = None\<rparr>"
  obtain c3 where begin2: "begin_authentication ?sv t2 g [] s = (Inr j2, (c3, snd s))"
    and c3: "challenge_table_ok c3" and live2: "sql_live c3 t3 g Authentication = Some ?q"
    using sqlsvc.begin_authentication_Inr [of s cfg wa repr c o2 t2 g ?q j2] assms(1) a(1,2) rec assms(10)
    by auto
  have subject: "login_subject ?sv resp rh (snd s) =
      Inr (d, vg_credential_id v, registered t1 u ts v, u)"
    using sqlsvc.login_subject_Inr [OF assms(2), of cfg wa repr resp rh d "vg_credential_id v"
        "registered t1 u ts v" u] a(3-5) assms(3,4) by (simp add: registered_def)
  show ?thesis
    using sqlsvc.finish_success [of "(c3, snd s)" t3 cfg wa repr resp rh d "vg_credential_id v"
        "registered t1 u ts v" u g ?q l] c3 assms(2,6-8) subject live2 a(6) begin2 by (simp add: registered_def)
qed

lemma login_ok:
  assumes "challenge_table_ok (fst s)" and "cred_db_ok (snd s)"
    and "sp_users (sql_cred_abs (snd s)) (pu_user_id u) = Some u"
    and "sp_creds (sql_cred_abs (snd s)) (vg_credential_id v) = Some (registered t1 u ts v)"
    and "login_answered cfg wa repr u resp v l"
    and "vg_sign_count v \<le> vl_new_sign_count l" and "sqlite_int_ok (vl_new_sign_count l)"
    and "valid_datetime t3" and "add_seconds t2 (pk_challenge_ttl cfg) = Inr e2" and "t3 < e2"
  shows "fst (login_session (sql_service cfg wa repr) t2 t3 g resp s) = Inr \<lparr>ar_user = u,
      ar_credential = (registered t1 u ts v)\<lparr>pc_sign_count := vl_new_sign_count l,
        pc_device_type := enum_value (vl_device_type l), pc_backed_up := vl_backed_up l\<rparr>\<rparr>"
  using login_steps [OF assms, of g True] by (auto simp: login_session_def op_bind_def)

text \<open>
  A new user whose authenticator answers both challenges in time can register and log in:
  every step of the session succeeds, and the login returns the registered user with the
  credential at its new counter.
\<close>

theorem register_then_login:
  assumes "challenge_table_ok (fst s)" and "cred_db_ok (snd s)" and "context_ok ctx"
    and "sql_get_user (pu_user_id (rc_user ctx)) (snd s) = Inr None"
    and "sql_get_user_by_handle (pu_user_handle (rc_user ctx)) (snd s) = Inr None"
    and "sql_get_credential (vg_credential_id v) (snd s) = Inr None"
    and "registration_answered cfg wa repr (rc_user ctx) resp v" and "sqlite_int_ok (vg_sign_count v)"
    and "valid_datetime t1" and "add_seconds t0 (pk_challenge_ttl cfg) = Inr e1" and "t1 < e1"
    and "login_answered cfg wa repr (rc_user ctx) login v l"
    and "vg_sign_count v \<le> vl_new_sign_count l" and "sqlite_int_ok (vl_new_sign_count l)"
    and "valid_datetime t3" and "add_seconds t2 (pk_challenge_ttl cfg) = Inr e2" and "t3 < e2"
  shows "\<exists>s' ar. register (sql_service cfg wa repr) t0 t1 f ctx resp s = (Inr (), s')
    \<and> fst (login_session (sql_service cfg wa repr) t2 t3 g login s') = Inr ar
    \<and> ar_user ar = rc_user ctx \<and> pc_credential_id (ar_credential ar) = vg_credential_id v
    \<and> pc_user_id (ar_credential ar) = pu_user_id (rc_user ctx)
    \<and> pc_sign_count (ar_credential ar) = vl_new_sign_count l"
proof -
  obtain s' ts where run: "register (sql_service cfg wa repr) t0 t1 f ctx resp s = (Inr (), s')"
    and ok: "challenge_table_ok (fst s')" "cred_db_ok (snd s')"
      "sp_users (sql_cred_abs (snd s')) (pu_user_id (rc_user ctx)) = Some (rc_user ctx)"
      "sp_creds (sql_cred_abs (snd s')) (vg_credential_id v) = Some (registered t1 (rc_user ctx) ts v)"
    using register_ok [OF assms(1-11)] by blast
  show ?thesis
    using run login_ok [OF ok assms(12-17), of g] by (simp add: registered_def)
qed

lemma demo_context_ann: "rc_user demo_context = ann"
  by (simp add: demo_context_def)

lemma demo_answers:
  "registration_answered demo_cfg demo_wa demo_repr ann (CMapping demo_response)
     \<lparr>vg_credential_id = [1], vg_public_key = [9], vg_sign_count = 0,
      vg_device_type = EnumMember ''single_device'', vg_backed_up = Some False\<rparr>"
  "login_answered demo_cfg demo_wa demo_repr ann (CMapping demo_response)
     \<lparr>vg_credential_id = [1], vg_public_key = [9], vg_sign_count = 0,
      vg_device_type = EnumMember ''single_device'', vg_backed_up = Some False\<rparr>
     \<lparr>vl_new_sign_count = 5, vl_device_type = NoValue, vl_backed_up = None\<rparr>"
proof -
  have braces: "json_loads ''{}'' = Inr (JObj [])"
    by (simp add: json_loads_def numeral_eq_Suc json_ws_def)
  have "bytes_to_b64url [] = []" by (simp add: bytes_to_b64url_def rstrip_pad_def)
  then have ne: "bytes_to_b64url [1] \<noteq> []" by (metis b64url_inj not_Cons_self2)
  show "registration_answered demo_cfg demo_wa demo_repr ann (CMapping demo_response)
     \<lparr>vg_credential_id = [1], vg_public_key = [9], vg_sign_count = 0,
      vg_device_type = EnumMember ''single_device'', vg_backed_up = Some False\<rparr>"
    using braces ne by (simp add: registration_answered_def demo_wa_def demo_response_def
        transports_from_response_def response_of_def json_get_def)
  show "login_answered demo_cfg demo_wa demo_repr ann (CMapping demo_response)
     \<lparr>vg_credential_id = [1], vg_public_key = [9], vg_sign_count = 0,
      vg_device_type = EnumMember ''single_device'', vg_backed_up = Some False\<rparr>
     \<lparr>vl_new_sign_count = 5, vl_device_type = NoValue, vl_backed_up = None\<rparr>"
    using braces ne by (simp add: login_answered_def demo_wa_def demo_response_def ann_def
        credential_id_from_response_def user_handle_from_response_def response_of_def json_get_def)
qed

lemma register_then_login_witness:
  "\<exists>s' ar. register (sql_service demo_cfg demo_wa demo_repr) 0 1 ''f'' demo_context (CMapping demo_response)
       ([], \<lparr>cd_users = [], cd_creds = []\<rparr>) = (Inr (), s')
    \<and> fst (login_session (sql_service demo_cfg demo_wa demo_repr) 2 3 ''g'' (CMapping demo_response) s') = Inr ar
    \<and> ar_user ar = ann \<and> pc_sign_count (ar_credential ar) = 5"
proof -
  have db: "cred_db_ok \<lparr>cd_users = [], cd_creds = []\<rparr>" by simp
  have times: "add_seconds 0 (pk_challenge_ttl demo_cfg) = Inr 300000000"
    "add_seconds 2 (pk_challenge_ttl demo_cfg) = Inr 300000002" "valid_datetime 1" "valid_datetime 3"
    by (simp_all add: add_seconds_def demo_cfg_def valid_datetime_def datetime_max_def us_per_second_def Let_def)
  have reads: "sql_get_user ''ann'' \<lparr>cd_users = [], cd_creds = []\<rparr> = Inr None"
    "sql_get_user_by_handle [1] \<lparr>cd_users = [], cd_creds = []\<rparr> = Inr None"
    "sql_get_credential [1] \<lparr>cd_users = [], cd_creds = []\<rparr> = Inr None"
    by (simp_all add: sqlc.get_user_spec [OF db] sqlc.by_handle_spec [OF db] sqlc.get_cred_spec [OF db]
        spec_empty_def spec_by_handle_def)
  have start: "challenge_table_ok (fst ([], \<lparr>cd_users = [], cd_creds = []\<rparr>))" "context_ok demo_context"
    by (simp_all add: challenge_table_ok_def demo_context_def context_ok_def)
  show ?thesis
    using register_then_login [where f = "''f''" and g = "''g''" and s = "([], \<lparr>cd_users = [], cd_creds = []\<rparr>)",
        OF start(1) _ start(2) _ _ _ demo_answers(1) [folded demo_context_ann] _ times(3,1) _
        demo_answers(2) [folded demo_context_ann] _ _ times(4,2)] reads db
    by (simp add: demo_context_ann ann_def sqlite_int_ok_def) metis
qed

text \<open>A state with one registered user and a running registration \<open>f\<close> and login \<open>g\<close>.\<close>

abbreviation demo_sv :: "(challenge_table, cred_db) service" where
  "demo_sv \<equiv> sql_service demo_cfg demo_wa demo_repr"

definition demo_registration :: challenge_record where
  "demo_registration = \<lparr>ch_challenge = [7], ch_kind = Registration, ch_key = ''f'', ch_expires_at = 100,
     ch_user = Some ann, ch_registration_kind = Some SelfRegistration, ch_capability_id = None\<rparr>"

definition demo_login :: challenge_record where
  "demo_login = \<lparr>ch_challenge = [8], ch_kind = Authentication, ch_key = ''g'', ch_expires_at = 100,
     ch_user = None, ch_registration_kind = None, ch_capability_id = None\<rparr>"

definition demo_state :: "challenge_table \<times> cred_db" where
  "demo_state = (map sqlite_challenge_values [demo_registration, demo_login], ann_db)"

lemma demo_valid: "valid_datetime (ch_expires_at demo_registration)" "valid_datetime (ch_expires_at demo_login)"
  by (simp_all add: demo_registration_def demo_login_def valid_datetime_def datetime_max_def us_per_second_def)

lemma demo_state_ok: "challenge_table_ok (fst demo_state)" "cred_db_ok (snd demo_state)" "valid_datetime 3" "valid_datetime 4"
proof -
  show "challenge_table_ok (fst demo_state)"
    unfolding challenge_table_ok_def
  proof (intro conjI ballI)
    show "distinct (map row_key (fst demo_state))"
      by (simp add: demo_state_def demo_registration_def demo_login_def)
    fix w assume "w \<in> set (fst demo_state)"
    then consider "w = sqlite_challenge_values demo_registration" | "w = sqlite_challenge_values demo_login"
      by (auto simp: demo_state_def)
    then show "\<exists>r. valid_datetime (ch_expires_at r) \<and> w = sqlite_challenge_values r"
      using demo_valid by cases blast+
  qed
  show "cred_db_ok (snd demo_state)" by (simp add: demo_state_def ann_db_ok)
qed (simp_all add: valid_datetime_def datetime_max_def us_per_second_def)

lemma demo_live:
  "sql_live (fst demo_state) 3 ''f'' Registration = Some demo_registration"
  "sql_live (fst demo_state) 3 ''g'' Authentication = Some demo_login"
  "sql_live (fst demo_state) 3 ''h'' Authentication = None"
  using demo_valid by (simp_all add: demo_state_def sql_live_def)
    (simp_all add: demo_registration_def demo_login_def)

lemma demo_subject:
  "login_subject demo_sv (CMapping demo_response) True (snd demo_state) = Inr (demo_response, [1], ann_key 1, ann)"
proof -
  obtain c o1 j d where "credential_id_from_response demo_repr demo_response = Inr [1]"
    and "user_handle_from_response demo_response = Inr (Some [1])"
    using demo_answers(2) by (auto simp: login_answered_def ann_def)
  moreover have "sp_creds (sql_cred_abs ann_db) [1] = Some (ann_key 1)"
    using ann_db_get by (simp add: sqlc.get_cred_spec ann_db_ok)
  moreover have "sp_users (sql_cred_abs ann_db) ''ann'' = Some ann"
  proof -
    have "sql_get_user ''ann'' ann_db = Inr (Some ann)"
      by (simp add: ann_db_lists sql_get_user_def db_of_def sqlite_user_values_def sqlite_user_def opt_user_def
          select_by_Cons ann_def)
    then show ?thesis by (simp add: sqlc.get_user_spec ann_db_ok)
  qed
  ultimately show ?thesis
    by (simp add: sqlsvc.login_subject_Inr demo_state_def ann_db_ok ann_key_def ann_def)
qed

subsection \<open>What a successful registration means\<close>

text \<open>
  C2: a verified registration is for the user and the context that were fixed when the flow began,
  its response was accepted by the package against the stored challenge, the configured relying
  party and origins; nothing is written to the credential store, and the flow cannot be
  verified a second time, with any response.
\<close>

theorem verified_registration_bound:
  assumes "challenge_table_ok (fst s)" and "valid_datetime now"
    and "verify_registration (sql_service cfg wa repr) now f resp s = (Inr vr, s')"
  shows "(\<exists>r d v. sql_live (fst s) now f Registration = Some r \<and> ch_user r = Some (vr_user vr)
      \<and> registration_context_of r = Inr (vr_context vr) \<and> credential_data resp = Inr d
      \<and> wa_verify_registration wa d (ch_challenge r) (pk_rp_id cfg) (pk_origins cfg)
          (require_user_verification cfg) = Inr v
      \<and> pc_credential_id (vr_credential vr) = vg_credential_id v
      \<and> pc_public_key (vr_credential vr) = vg_public_key v
      \<and> pc_user_id (vr_credential vr) = pu_user_id (vr_user vr))
    \<and> snd s' = snd s
    \<and> (\<forall>later other. valid_datetime later \<and> now \<le> later \<longrightarrow>
        fst (verify_registration (sql_service cfg wa repr) later f other s') = Inl (challenge_missing Registration))"
proof -
  note run = sqlsvc.verify_unfold [OF assms(1,2), of cfg wa repr f resp, unfolded assms(3), simplified]
  obtain r where r: "sql_live (fst s) now f Registration = Some r"
    and out: "registration_outcome (sql_service cfg wa repr) now resp r = Inr vr"
    using run by (auto split: option.splits)
  have "\<forall>later other. valid_datetime later \<and> now \<le> later \<longrightarrow>
      fst (verify_registration (sql_service cfg wa repr) later f other s') = Inl (challenge_missing Registration)"
    using sqlsvc.verify_pops [OF assms(1,2), where f = f and credential = resp and cfg = cfg and wa = wa
        and repr = repr] assms(3) by simp
  then show ?thesis
    using r run sqlsvc.registration_outcome_Inr [OF out] by auto
qed

lemma verified_registration_bound_witness:
  "\<exists>vr s'. verify_registration demo_sv 3 ''f'' (CMapping demo_response) demo_state = (Inr vr, s')
    \<and> vr_user vr = ann \<and> pc_user_id (vr_credential vr) = ''ann''
    \<and> fst (verify_registration demo_sv 4 ''f'' (CMapping demo_response) s') = Inl (challenge_missing Registration)"
proof -
  have "is_ok (registration_outcome demo_sv 3 (CMapping demo_response) demo_registration)"
    by (simp add: registration_outcome_def demo_registration_def demo_wa_def demo_response_def
        transports_from_response_def response_of_def json_get_def registration_context_of_def
        mk_registration_context_def Let_def)
  then obtain vr where out: "registration_outcome demo_sv 3 (CMapping demo_response) demo_registration = Inr vr"
    by (auto simp: is_ok_iff)
  have names: "ch_user demo_registration = Some ann" "pu_user_id ann = ''ann''"
    by (simp_all add: demo_registration_def ann_def)
  obtain s' where run: "verify_registration demo_sv 3 ''f'' (CMapping demo_response) demo_state = (Inr vr, s')"
    using sqlsvc.verify_unfold [OF demo_state_ok(1,3), of demo_cfg demo_wa demo_repr "''f''" "CMapping demo_response"]
    by (simp add: demo_live out)
  show ?thesis
    using verified_registration_bound [OF demo_state_ok(1,3) run] run demo_live(1) demo_state_ok(4) names by auto
qed

subsection \<open>What a successful login means\<close>

lemma sql_reads_eq:
  assumes "cred_db_ok k" and "cred_db_ok k'" and "sql_cred_abs k' = sql_cred_abs k"
  shows "sql_get_credential cid k' = sql_get_credential cid k" "sql_get_user uid k' = sql_get_user uid k"
  by (simp_all add: sqlc.get_cred_spec sqlc.get_user_spec assms)

text \<open>
  C1: a successful login was made with a stored credential of the returned user, whose handle the
  response carries; the package accepted it against the stored challenge and public key; the
  counter did not fall; exactly this credential was updated, and the flow id cannot be used again.
\<close>

theorem login_sound:
  assumes "challenge_table_ok (fst s)" and "cred_db_ok (snd s)" and "valid_datetime now" and "counters_32_bit wa"
    and "finish_authentication (sql_service cfg wa repr) now f resp rh s = (Inr ar, s')"
  shows "\<exists>d cid stored r v. credential_data resp = Inr d \<and> credential_id_from_response repr d = Inr cid
    \<and> sql_get_credential cid (snd s) = Inr (Some stored)
    \<and> sql_get_user (pc_user_id stored) (snd s) = Inr (Some (ar_user ar))
    \<and> (user_handle_from_response d = Inr (Some (pu_user_handle (ar_user ar)))
        \<or> \<not> rh \<and> user_handle_from_response d = Inr None)
    \<and> sql_live (fst s) now f Authentication = Some r
    \<and> wa_verify_authentication wa d (ch_challenge r) (pk_rp_id cfg) (pk_origins cfg) (pc_public_key stored)
        (pc_sign_count stored) (require_user_verification cfg) = Inr v
    \<and> pc_sign_count stored \<le> vl_new_sign_count v
    \<and> ar_credential ar = stored\<lparr>pc_sign_count := vl_new_sign_count v,
        pc_device_type := enum_value (vl_device_type v), pc_backed_up := vl_backed_up v\<rparr>
    \<and> (\<forall>c. sql_get_credential c (snd s') =
        (if c = cid then Inr (Some (ar_credential ar)) else sql_get_credential c (snd s)))
    \<and> (\<forall>later other rh'. valid_datetime later \<and> now \<le> later \<longrightarrow>
        (\<exists>e. fst (finish_authentication (sql_service cfg wa repr) later f other rh' s') = Inl e))"
proof -
  obtain d cid stored r v where
    subject: "login_subject (sql_service cfg wa repr) resp rh (snd s) = Inr (d, cid, stored, ar_user ar)"
    and rest: "sql_live (fst s) now f Authentication = Some r"
    "wa_verify_authentication wa d (ch_challenge r) (pk_rp_id cfg) (pk_origins cfg) (pc_public_key stored)
        (pc_sign_count stored) (require_user_verification cfg) = Inr v"
    "sql_cas cid (pc_sign_count stored) (vl_new_sign_count v) (enum_value (vl_device_type v)) (vl_backed_up v)
        (snd s) = (Inr (ar_credential ar), snd s')"
    by (rule sqlsvc.finish_Inr [OF assms(1,2,3,5)]) simp
  note sub = subject [unfolded sqlsvc.login_subject_Inr [OF assms(2)], simplified]
  have get: "sql_get_credential cid (snd s) = Inr (Some stored)"
    using sub by (simp add: sqlc.get_cred_spec assms(2))
  note cas = sqlsvc.cas_Inr [OF assms(2), simplified, OF get counters_fit [OF assms(4) rest(2)] rest(3)]
  have "\<forall>c. sql_get_credential c (snd s') =
      (if c = cid then Inr (Some (ar_credential ar)) else sql_get_credential c (snd s))"
    using cas by (simp add: sqlc.get_cred_spec assms(2))
  moreover have "\<forall>later other rh'. valid_datetime later \<and> now \<le> later \<longrightarrow>
      (\<exists>e. fst (finish_authentication (sql_service cfg wa repr) later f other rh' s') = Inl e)"
    using sqlsvc.finish_pops [where f = f, OF assms(1,3) _ _ subject] assms(5) by simp
  ultimately show ?thesis
    using sub get rest cas by (intro exI [of _ d] exI [of _ cid] exI [of _ stored] exI [of _ r] exI [of _ v])
      (auto simp: sqlc.get_user_spec assms(2))
qed

lemma login_sound_witness:
  "\<exists>ar s'. finish_authentication demo_sv 3 ''g'' (CMapping demo_response) True demo_state = (Inr ar, s')
    \<and> sql_get_user ''ann'' (snd demo_state) = Inr (Some (ar_user ar))
    \<and> sql_get_credential [1] (snd s') = Inr (Some (ar_credential ar))
    \<and> (\<exists>e. fst (finish_authentication demo_sv 4 ''g'' (CMapping demo_response) True s') = Inl e)"
proof -
  have "is_ok (fst (finish_authentication demo_sv 3 ''g'' (CMapping demo_response) True demo_state))"
    using sqlsvc.finish_success [OF demo_state_ok(1,2,3) demo_subject
        demo_live(2), of "\<lparr>vl_new_sign_count = 5, vl_device_type = NoValue, vl_backed_up = None\<rparr>"]
    by (simp add: demo_wa_def demo_login_def ann_key_def sqlite_int_ok_def)
  then obtain ar s' where run: "finish_authentication demo_sv 3 ''g'' (CMapping demo_response) True demo_state = (Inr ar, s')"
    by (auto simp: is_ok_iff) (metis prod.collapse)
  have "credential_id_from_response demo_repr demo_response = Inr [1]"
    using demo_subject [unfolded sqlsvc.login_subject_Inr [OF demo_state_ok(2)]] by simp
  moreover have "sql_get_credential [1] (snd demo_state) = Inr (Some (ann_key 1))" "pc_user_id (ann_key 1) = ''ann''"
    using ann_db_get by (simp_all add: demo_state_def ann_key_def)
  ultimately show ?thesis
    using login_sound [OF demo_state_ok(1,2,3) demo_counters run] run demo_state_ok(4) by auto
qed

text \<open>
  A login that fails, for whatever reason, leaves every user and credential as they were; one
  that is refused before the challenge is looked up changes nothing at all.
\<close>

theorem failed_login_changes_no_credential:
  assumes "challenge_table_ok (fst s)" and "cred_db_ok (snd s)" and "valid_datetime now" and "counters_32_bit wa"
    and "finish_authentication (sql_service cfg wa repr) now f resp rh s = (Inl e, s')"
  shows "sql_get_credential cid (snd s') = sql_get_credential cid (snd s)
    \<and> sql_get_user uid (snd s') = sql_get_user uid (snd s)
    \<and> (login_subject (sql_service cfg wa repr) resp rh (snd s) = Inl e' \<longrightarrow> s' = s \<and> e = e')"
proof -
  have "sql_cred_abs (snd s') = sql_cred_abs (snd s) \<and> cred_db_ok (snd s')"
    using sqlsvc.finish_Inl [OF assms(1,2,3) _ assms(5)] counters_fit [OF assms(4)] by simp
  then show ?thesis
    using sql_reads_eq [OF assms(2)] assms(5) by (auto simp: sqlsvc.finish_unfold [OF assms(1,3)])
qed

lemma failed_login_changes_no_credential_witness:
  "\<exists>e s'. finish_authentication demo_sv 3 ''h'' (CMapping demo_response) True demo_state = (Inl e, s')
    \<and> sql_get_credential [1] (snd s') = Inr (Some (ann_key 1))"
proof -
  obtain s' where run: "finish_authentication demo_sv 3 ''h'' (CMapping demo_response) True demo_state =
      (Inl (challenge_missing Authentication), s')"
    using sqlsvc.finish_unfold [OF demo_state_ok(1,3), of demo_cfg demo_wa demo_repr "''h''" "CMapping demo_response" True]
    by (simp add: demo_subject demo_live Let_def)
  show ?thesis
    using failed_login_changes_no_credential [OF demo_state_ok(1,2,3) demo_counters run, of "[1]"] run ann_db_get
    by (simp add: demo_state_def)
qed

subsection \<open>Managing credentials\<close>

text \<open>
  C22: removing a credential succeeds exactly when the user owns it and, unless the removal of the
  last one is allowed, owns another; an unknown or foreign credential is reported as not found
  and the last one as denied, and then nothing is removed.
\<close>

theorem remove_credential_outcomes:
  assumes "cred_db_ok (snd s)" and "sql_list_credentials uid (snd s) = Inr cs"
  shows "fst (remove_credential (sql_service cfg wa repr) uid cid allow_final s) =
      (if cid \<notin> pc_credential_id ` set cs then Inl (CredentialNotFound ''unknown passkey credential'')
       else if \<not> allow_final \<and> length cs \<le> 1
       then Inl (CredentialMutationDenied ''final passkey credential cannot be removed'') else Inr ())
    \<and> (\<exists>cs'. sql_list_credentials uid (snd (snd (remove_credential (sql_service cfg wa repr) uid cid allow_final s))) = Inr cs'
        \<and> set cs' = (if is_ok (fst (remove_credential (sql_service cfg wa repr) uid cid allow_final s))
             then {c \<in> set cs. pc_credential_id c \<noteq> cid} else set cs))"
proof -
  let ?st = "sql_cred_abs (snd s)"
  let ?r = "remove_credential (sql_service cfg wa repr) uid cid allow_final s"
  have cs: "distinct cs" "set cs = spec_list ?st uid"
    using sqlc.list_spec [OF assms(1), of uid] assms(2) by auto
  have wf: "spec_wf ?st" using assms(1) by (rule sqlc.abs_wf)
  have ids: "sp_creds ?st i = Some c \<Longrightarrow> pc_credential_id c = i" for i c
    using wf by (simp add: spec_wf_def)
  have owned: "owned ?st uid = pc_credential_id ` set cs"
    using ids by (force simp: owned_def cs(2) spec_list_def)
  have "inj_on pc_credential_id (set cs)"
    using ids unfolding cs(2) spec_list_def inj_on_def by force
  then have card: "card (owned ?st uid) = length cs"
    using cs(1) by (simp add: owned card_image distinct_card)
  have mem: "(\<exists>c. sp_creds ?st cid = Some c \<and> pc_user_id c = uid) \<longleftrightarrow> cid \<in> pc_credential_id ` set cs"
    unfolding owned [symmetric] by (simp add: owned_def)
  note cases = sqlsvc.remove_cases [OF assms(1), of cfg wa repr uid cid allow_final, unfolded mem card]
  have ok': "cred_db_ok (snd (snd ?r))" using cases by blast
  obtain cs' where cs': "sql_list_credentials uid (snd (snd ?r)) = Inr cs'"
    "set cs' = spec_list (sql_cred_abs (snd (snd ?r))) uid"
    using sqlc.list_spec [OF ok', of uid] by blast
  have "spec_list (?st\<lparr>sp_creds := (sp_creds ?st)(cid := None)\<rparr>) uid = {c \<in> set cs. pc_credential_id c \<noteq> cid}"
    using ids unfolding cs(2) spec_list_def by (auto split: if_splits)
  then show ?thesis
    using cases cs' cs(2) by (cases "cid \<in> pc_credential_id ` set cs"; cases "\<not> allow_final \<and> length cs \<le> 1") simp_all
qed

lemma remove_credential_outcomes_witness:
  "fst (remove_credential demo_sv ''ann'' [1] False demo_state) =
     Inl (CredentialMutationDenied ''final passkey credential cannot be removed'')
   \<and> fst (remove_credential demo_sv ''ann'' [1] True demo_state) = Inr ()"
proof -
  have "sp_creds (sql_cred_abs (snd demo_state)) cid = (if cid = [1] then Some (ann_key 1) else None)" for cid
    using sql_cred_abs_db_of [of "[ann]" "[ann_key 1]"] ann_repr(1) [of 1]
    by (simp add: demo_state_def ann_db_lists lists_abs_def lists_ok_def select_by_Cons ann_key_def ann_def)
  then have one: "spec_list (sql_cred_abs (snd demo_state)) ''ann'' = {ann_key 1}"
    by (auto simp: spec_list_def ann_key_def)
  then obtain cs where cs: "sql_list_credentials ''ann'' (snd demo_state) = Inr cs" "distinct cs" "set cs = {ann_key 1}"
    using sqlc.list_spec [OF demo_state_ok(2), of "''ann''"] by auto
  then have "cs = [ann_key 1]" by (cases cs) (auto simp: subset_singleton_iff)
  then show ?thesis
    using remove_credential_outcomes [OF demo_state_ok(2) cs(1), of demo_cfg demo_wa demo_repr "[1]"]
    by (simp add: ann_key_def)
qed

text \<open>
  C23: a label that is stored is trimmed, not empty and at most 80 characters long, on a credential
  of the caller; a label that is too long or a foreign credential leaves every credential as it was.
\<close>

theorem label_credential_bounds:
  assumes "cred_db_ok (snd s)"
  shows "case label_credential (sql_service cfg wa repr) uid cid label s of
      (Inr c, s') \<Rightarrow> pc_user_id c = uid \<and> sql_get_credential cid (snd s') = Inr (Some c)
        \<and> (case pc_label c of None \<Rightarrow> True | Some l \<Rightarrow> l \<noteq> [] \<and> length l \<le> 80 \<and> py_strip l = l)
    | (Inl e, s') \<Rightarrow> sql_get_credential other (snd s') = sql_get_credential other (snd s)"
proof -
  obtain r s' where Pair: "label_credential (sql_service cfg wa repr) uid cid label s = (r, s')" by (rule prod.exhaust)
  show ?thesis
  proof (cases r)
    case (Inl e)
    show ?thesis
      using sqlsvc.label_Inl [OF assms Pair [unfolded Inl]] sql_reads_eq(1) [OF assms] by (simp add: Pair Inl)
  next
    case (Inr c)
    obtain l stored where l: "normalize_credential_label label = Inr l" "c = stored\<lparr>pc_label := l\<rparr>"
      "pc_user_id stored = uid" "cred_db_ok (snd s')" "sp_creds (sql_cred_abs (snd s')) cid = Some c"
      using sqlsvc.label_Inr [OF assms Pair [unfolded Inr]] by auto
    then show ?thesis
      using normalize_label_Inr [OF l(1)] by (auto simp: Pair Inr sqlc.get_cred_spec)
  qed
qed

lemma label_credential_bounds_witness:
  "\<exists>c s'. label_credential demo_sv ''ann'' [1] (Some '' phone '') demo_state = (Inr c, s')
    \<and> pc_label c = Some ''phone'' \<and> sql_get_credential [1] (snd s') = Inr (Some c)"
proof -
  have "normalize_credential_label (Some '' phone '') = Inr (Some ''phone'')"
    by (simp add: normalize_credential_label_def py_strip_def py_isspace_def)
  moreover have "sp_creds (sql_cred_abs (snd demo_state)) [1] = Some (ann_key 1)"
    using ann_db_get by (simp add: demo_state_def sqlc.get_cred_spec ann_db_ok)
  ultimately have "fst (label_credential demo_sv ''ann'' [1] (Some '' phone '') demo_state) =
      Inr ((ann_key 1)\<lparr>pc_label := Some ''phone''\<rparr>)"
    by (rule sqlsvc.label_success [OF demo_state_ok(2)]) (simp add: ann_key_def)
  then show ?thesis
    using label_credential_bounds [OF demo_state_ok(2), where cfg = demo_cfg and wa = demo_wa and repr = demo_repr
        and uid = "''ann''" and cid = "[1]" and label = "Some '' phone ''"]
    by (cases "label_credential demo_sv ''ann'' [1] (Some '' phone '') demo_state") auto
qed

end
