(* ===== verification/Oidc.thy ===== *)
theory Oidc
  imports Sha256 Base64 PyValues
begin

section \<open>OpenID Connect values (\<open>oidc.py\<close>)\<close>

text \<open>
  The configuration of the provider and its clients with every check of their constructors, the
  scope and PKCE helpers, and the authorization code with \<open>issue\<close> and \<open>redeem\<close>. Times are whole
  seconds, as \<open>int(time())\<close>. The host's user objects are of an arbitrary type \<open>'u\<close>.
\<close>

definition supported_scopes :: "string list" where
  "supported_scopes = [''openid'', ''profile'', ''email'']"

subsection \<open>URLs and origins\<close>

definition absolute_https_url :: "string \<Rightarrow> string \<Rightarrow> bool \<Rightarrow> unit result" where
  "absolute_https_url value field_name allow_query =
     (if value \<noteq> py_strip value \<or> value = []
      then Inl (OIDCConfigurationError (field_name @ '' must be a non-empty URL''))
      else res_bind (urlsplit value) (\<lambda>parts.
        if su_scheme parts \<noteq> ''https'' \<or> \<not> truthy (hostname parts) \<or> username parts \<noteq> None
           \<or> password parts \<noteq> None \<or> (su_query parts \<noteq> [] \<and> \<not> allow_query) \<or> su_fragment parts \<noteq> []
        then Inl (OIDCConfigurationError (field_name @ '' must be an absolute HTTPS URL''
          @ (if allow_query then '' without fragment'' else '' without query or fragment'')))
        else (case url_port parts of
            Inl _ \<Rightarrow> Inl (OIDCConfigurationError (field_name @ '' has an invalid port''))
          | Inr _ \<Rightarrow> Inr ())))"

text \<open>\<open>parts.port or default\<close>: port 0 counts as the default port.\<close>

definition url_origin :: "string \<Rightarrow> (string \<times> nat list \<times> nat) result" where
  "url_origin value =
     res_bind (urlsplit value) (\<lambda>parts.
     res_bind (url_port parts) (\<lambda>port.
       let default = (if su_scheme parts = ''https'' then 443 else 80) in
       Inr (su_scheme parts, py_casefold (case hostname parts of None \<Rightarrow> [] | Some h \<Rightarrow> h),
            case port of None \<Rightarrow> default | Some p \<Rightarrow> if p = 0 then default else p)))"

subsection \<open>Scopes\<close>

text \<open>\<open>scope: str | Iterable[str] | None\<close>.\<close>

datatype scope_arg = ScopeNone | ScopeText string | ScopeItems "string list"

fun scope_string :: "scope_arg \<Rightarrow> string" where
  "scope_string ScopeNone = []"
| "scope_string (ScopeText s) = py_strip s"
| "scope_string (ScopeItems items) = py_join '' '' items"

definition scope_tuple :: "scope_arg \<Rightarrow> string list result" where
  "scope_tuple scope =
     (let value = scope_string scope in
      if value = [] then Inr []
      else (let values = py_split value in
        if \<not> distinct values then Inl (OIDCProtocolError ''scope must not contain duplicate values'')
        else Inr values))"

subsection \<open>PKCE\<close>

definition verifier_char :: "char \<Rightarrow> bool" where
  "verifier_char c \<longleftrightarrow> ascii_alpha c \<or> ascii_digit c \<or> c \<in> set ''._~-''"

text \<open>\<open>_CODE_VERIFIER_PATTERN.fullmatch\<close>.\<close>

definition verifier_match :: "string \<Rightarrow> bool" where
  "verifier_match s \<longleftrightarrow> 43 \<le> length s \<and> length s \<le> 128 \<and> list_all verifier_char s"

definition validate_code_challenge :: "string \<Rightarrow> string result" where
  "validate_code_challenge s =
     (if verifier_match s then Inr s
      else Inl (OIDCProtocolError ''code_challenge must be a base64url value of 43-128 characters''))"

definition validate_code_verifier :: "string \<Rightarrow> string result" where
  "validate_code_verifier s =
     (if verifier_match s then Inr s
      else Inl (OIDCProtocolError ''code_verifier must be 43-128 RFC 7636 characters''))"

text \<open>The verifier is ASCII, so \<open>encode("ascii")\<close> gives one byte per character.\<close>

definition create_s256_code_challenge :: "string \<Rightarrow> string result" where
  "create_s256_code_challenge code_verifier =
     res_bind (validate_code_verifier code_verifier) (\<lambda>verifier.
       Inr (rstrip_pad (urlsafe_b64encode (sha256 (map (\<lambda>c. of_nat (of_char c)) verifier)))))"

subsection \<open>\<open>OIDCProviderConfig\<close>\<close>

record provider_config =
  op_issuer :: string
  op_authorization_endpoint :: string
  op_token_endpoint :: string
  op_jwks_uri :: string
  op_userinfo_endpoint :: "string option"
  op_revocation_endpoint :: "string option"

definition endpoints :: "provider_config \<Rightarrow> (string \<times> string option) list" where
  "endpoints c =
     [(''authorization_endpoint'', Some (op_authorization_endpoint c)),
      (''token_endpoint'', Some (op_token_endpoint c)), (''jwks_uri'', Some (op_jwks_uri c)),
      (''userinfo_endpoint'', op_userinfo_endpoint c), (''revocation_endpoint'', op_revocation_endpoint c)]"

fun check_endpoints :: "string \<times> nat list \<times> nat \<Rightarrow> (string \<times> string option) list \<Rightarrow> unit result" where
  "check_endpoints issuer_origin [] = Inr ()"
| "check_endpoints issuer_origin ((name, None) # rest) = check_endpoints issuer_origin rest"
| "check_endpoints issuer_origin ((name, Some value) # rest) =
     res_bind (absolute_https_url value name False) (\<lambda>_.
     res_bind (url_origin value) (\<lambda>o1.
       if o1 \<noteq> issuer_origin then Inl (OIDCConfigurationError (name @ '' must use the issuer origin''))
       else check_endpoints issuer_origin rest))"

definition mk_provider_config :: "provider_config \<Rightarrow> provider_config result" where
  "mk_provider_config c =
     res_bind (absolute_https_url (op_issuer c) ''issuer'' False) (\<lambda>_.
     res_bind (url_origin (op_issuer c)) (\<lambda>issuer_origin.
     res_bind (check_endpoints issuer_origin (endpoints c)) (\<lambda>_. Inr c)))"

definition rstrip_slash :: "string \<Rightarrow> string" where
  "rstrip_slash s = rev (dropWhile (\<lambda>c. c = CHR ''/'') (rev s))"

definition discovery_endpoint :: "provider_config \<Rightarrow> string" where
  "discovery_endpoint c = rstrip_slash (op_issuer c) @ ''/.well-known/openid-configuration''"

definition provider_metadata :: "provider_config \<Rightarrow> json_dict" where
  "provider_metadata c =
     [(''issuer'', JStr (op_issuer c)),
      (''authorization_endpoint'', JStr (op_authorization_endpoint c)),
      (''token_endpoint'', JStr (op_token_endpoint c)),
      (''jwks_uri'', JStr (op_jwks_uri c)),
      (''response_types_supported'', JArr [JStr ''code'']),
      (''response_modes_supported'', JArr [JStr ''query'']),
      (''grant_types_supported'', JArr [JStr ''authorization_code'']),
      (''subject_types_supported'', JArr [JStr ''public'']),
      (''id_token_signing_alg_values_supported'', JArr [JStr ''RS256'']),
      (''scopes_supported'', JArr (map JStr supported_scopes)),
      (''token_endpoint_auth_methods_supported'', JArr [JStr ''none'', JStr ''client_secret_basic'']),
      (''code_challenge_methods_supported'', JArr [JStr ''S256'']),
      (''claims_supported'', JArr (map JStr [''sub'', ''iss'', ''aud'', ''exp'', ''iat'', ''nonce'',
         ''auth_time'', ''amr'', ''acr'', ''name'', ''email'', ''email_verified''])),
      (''claim_types_supported'', JArr [JStr ''normal'']),
      (''request_parameter_supported'', JBool False),
      (''request_uri_parameter_supported'', JBool False)]
     @ (case op_userinfo_endpoint c of None \<Rightarrow> [] | Some e \<Rightarrow> [(''userinfo_endpoint'', JStr e)])
     @ (case op_revocation_endpoint c of None \<Rightarrow> [] | Some e \<Rightarrow> [(''revocation_endpoint'', JStr e)])"

subsection \<open>\<open>OIDCClient\<close>\<close>

record oidc_client =
  oc_client_id :: string
  oc_redirect_uris :: "string list"
  oc_scopes :: "string list"
  oc_secret_hash :: "string option"
  oc_auth_method :: string

definition hex_sha256_match :: "string \<Rightarrow> bool" where
  "hex_sha256_match s \<longleftrightarrow> length s = 64 \<and> list_all (\<lambda>c. c \<in> set ''0123456789abcdef'') s"

fun check_redirects :: "string list \<Rightarrow> unit result" where
  "check_redirects [] = Inr ()"
| "check_redirects (uri # uris) =
     res_bind (absolute_https_url uri ''redirect URI'' True) (\<lambda>_. check_redirects uris)"

definition mk_client ::
  "string \<Rightarrow> string list \<Rightarrow> string list \<Rightarrow> string option \<Rightarrow> string option \<Rightarrow> oidc_client result" where
  "mk_client cid uris scopes hash0 method0 =
     (if cid = [] then Inl (OIDCConfigurationError ''client_id is required'')
      else if \<exists>c \<in> set cid. py_isspace c
      then Inl (OIDCConfigurationError ''client_id must not contain whitespace'')
      else if uris = [] then Inl (OIDCConfigurationError ''at least one redirect URI is required'')
      else if ''openid'' \<notin> set scopes
      then Inl (OIDCConfigurationError ''OIDC client must allow openid scope'')
      else if \<not> distinct scopes
      then Inl (OIDCConfigurationError ''client scopes must not contain duplicates'')
      else (let unknown = filter (\<lambda>s. s \<notin> set supported_scopes) scopes in
        if unknown \<noteq> []
        then Inl (OIDCConfigurationError (''unsupported client scopes: '' @ py_join '', '' (sort unknown)))
        else res_bind (check_redirects uris) (\<lambda>_.
          if hash0 \<noteq> None \<and> \<not> hex_sha256_match (the hash0)
          then Inl (OIDCConfigurationError ''client_secret_hash must be a lowercase SHA-256 hex digest'')
          else (let method = (case method0 of Some m \<Rightarrow> m
                  | None \<Rightarrow> if truthy hash0 then ''client_secret_basic'' else ''none'') in
            if method \<notin> {''none'', ''client_secret_basic''}
            then Inl (OIDCConfigurationError ''unsupported token endpoint auth method'')
            else if method = ''none'' \<and> hash0 \<noteq> None
            then Inl (OIDCConfigurationError ''public clients must not have a client secret hash'')
            else if method = ''client_secret_basic'' \<and> hash0 = None
            then Inl (OIDCConfigurationError ''client_secret_basic clients require a client secret hash'')
            else Inr \<lparr>oc_client_id = cid, oc_redirect_uris = uris, oc_scopes = scopes,
                      oc_secret_hash = hash0, oc_auth_method = method\<rparr>))))"

definition client_metadata :: "oidc_client \<Rightarrow> json_dict" where
  "client_metadata c =
     [(''client_id'', JStr (oc_client_id c)), (''redirect_uris'', JArr (map JStr (oc_redirect_uris c))),
      (''scope'', JStr (py_join '' '' (oc_scopes c))), (''response_types'', JArr [JStr ''code'']),
      (''grant_types'', JArr [JStr ''authorization_code'']),
      (''token_endpoint_auth_method'', JStr (oc_auth_method c)),
      (''id_token_signed_response_alg'', JStr ''RS256'')]"

definition get_default_redirect_uri :: "oidc_client \<Rightarrow> string" where
  "get_default_redirect_uri c = hd (oc_redirect_uris c)"

definition get_allowed_scope :: "oidc_client \<Rightarrow> string option \<Rightarrow> string option result" where
  "get_allowed_scope c scope =
     res_bind (scope_tuple (case scope of None \<Rightarrow> ScopeNone | Some s \<Rightarrow> ScopeText s)) (\<lambda>requested.
       if requested = [] then Inr (Some (py_join '' '' (oc_scopes c)))
       else if \<not> set requested \<subseteq> set (oc_scopes c) then Inr None
       else Inr (Some (py_join '' '' requested)))"

definition validate_client_redirect :: "oidc_client \<Rightarrow> string \<Rightarrow> bool" where
  "validate_client_redirect c uri \<longleftrightarrow> uri \<in> set (oc_redirect_uris c)"

definition check_client_secret :: "oidc_client \<Rightarrow> string \<Rightarrow> bool" where
  "check_client_secret c secret =
     (case oc_secret_hash c of None \<Rightarrow> False | Some h \<Rightarrow> sha256_hex (utf8_encode secret) = h)"

definition check_endpoint_auth_method :: "oidc_client \<Rightarrow> string \<Rightarrow> string \<Rightarrow> bool" where
  "check_endpoint_auth_method c method endpoint =
     (if endpoint \<noteq> ''token'' then True else method = oc_auth_method c)"

definition check_response_type :: "string \<Rightarrow> bool" where
  "check_response_type t \<longleftrightarrow> t = ''code''"

definition check_grant_type :: "string \<Rightarrow> bool" where
  "check_grant_type t \<longleftrightarrow> t = ''authorization_code''"

definition hash_client_secret :: "string \<Rightarrow> string result" where
  "hash_client_secret secret =
     (if secret = [] then Inl (ValueError ''client_secret must be a non-empty string'')
      else Inr (sha256_hex (utf8_encode secret)))"

subsection \<open>\<open>AuthorizationCode\<close>\<close>

record 'u auth_code =
  ac_value :: string
  ac_client_id :: string
  ac_redirect_uri :: string
  ac_subject :: string
  ac_scope :: "string list"
  ac_nonce :: string
  ac_code_challenge :: string
  ac_expires_at :: int
  ac_method :: string
  ac_auth_time :: "int option"
  ac_acr :: "string option"
  ac_amr :: "string list"
  ac_user :: "'u option"
  ac_redeemed :: bool

text \<open>The arguments of \<open>issue\<close> after \<open>value\<close> are those of the request and of the provider.\<close>

definition issue_code ::
  "string option \<Rightarrow> string \<Rightarrow> string \<Rightarrow> string \<Rightarrow> string \<Rightarrow> string list \<Rightarrow> string \<Rightarrow> string \<Rightarrow> string
   \<Rightarrow> int \<Rightarrow> int \<Rightarrow> int option \<Rightarrow> string option \<Rightarrow> string list \<Rightarrow> 'u option \<Rightarrow> 'u auth_code result" where
  "issue_code value random client_id redirect_uri subject scope nonce code_challenge method
     now lifetime auth_time acr amr user =
     (if ''openid'' \<notin> set scope \<or> nonce = []
      then Inl (OIDCProtocolError ''authorization code requires openid and nonce'')
      else if method \<noteq> ''S256'' then Inl (OIDCProtocolError ''only S256 PKCE is supported'')
      else res_bind (validate_code_challenge code_challenge) (\<lambda>_.
        if lifetime \<le> 0 \<or> 600 < lifetime
        then Inl (OIDCProtocolError ''authorization code lifetime must be 1-600 seconds'')
        else if subject = [] then Inl (OIDCProtocolError ''authorization code subject is required'')
        else if value = Some [] then Inl (OIDCProtocolError ''authorization code value is required'')
        else Inr \<lparr>ac_value = (case value of None \<Rightarrow> random | Some v \<Rightarrow> v), ac_client_id = client_id,
          ac_redirect_uri = redirect_uri, ac_subject = subject, ac_scope = scope, ac_nonce = nonce,
          ac_code_challenge = code_challenge, ac_expires_at = now + lifetime, ac_method = method,
          ac_auth_time = auth_time, ac_acr = acr, ac_amr = amr, ac_user = user, ac_redeemed = False\<rparr>))"

definition code_expired :: "int \<Rightarrow> 'u auth_code \<Rightarrow> bool" where
  "code_expired now c \<longleftrightarrow> ac_expires_at c \<le> now"

definition get_scope :: "'u auth_code \<Rightarrow> string" where
  "get_scope c = py_join '' '' (ac_scope c)"

definition get_amr :: "'u auth_code \<Rightarrow> string list option" where
  "get_amr c = (if ac_amr c = [] then None else Some (ac_amr c))"

text \<open>
  \<open>redeem\<close>, with the short-circuit order of the tests; \<open>compare_digest\<close> refuses a string that is
  not ASCII. An absent redirect URI of the token request is \<open>None\<close>.
\<close>

definition redeem :: "string \<Rightarrow> string option \<Rightarrow> string \<Rightarrow> int \<Rightarrow> ('u auth_code, string) op" where
  "redeem client_id redirect_uri code_verifier now c =
     (case create_s256_code_challenge code_verifier of
        Inl e \<Rightarrow> (Inl e, c)
      | Inr actual \<Rightarrow>
          if ac_redeemed c \<or> code_expired now c \<or> ac_client_id c \<noteq> client_id
             \<or> Some (ac_redirect_uri c) \<noteq> redirect_uri \<or> ac_method c \<noteq> ''S256''
          then (Inl (PermissionError ''invalid authorization code''), c)
          else if \<not> list_all (\<lambda>x. (of_char x :: nat) < 128) (ac_code_challenge c)
          then (Inl (TypeError ''comparing strings with non-ASCII characters is not supported''), c)
          else if actual \<noteq> ac_code_challenge c
          then (Inl (PermissionError ''invalid authorization code''), c)
          else (Inr (ac_subject c), c\<lparr>ac_redeemed := True\<rparr>))"

subsection \<open>Lemmas\<close>

text \<open>An S256 challenge has 43 characters of the base64url alphabet and is itself a valid challenge.\<close>

lemma s256_success:
  assumes "verifier_match v"
  shows "create_s256_code_challenge v = Inr (bytes_to_b64url (sha256 (map (\<lambda>c. of_nat (of_char c)) v)))"
  using assms by (simp add: create_s256_code_challenge_def validate_code_verifier_def bytes_to_b64url_def)

lemma s256_iff:
  "create_s256_code_challenge v = Inr r \<longleftrightarrow>
   verifier_match v \<and> r = bytes_to_b64url (sha256 (map (\<lambda>c. of_nat (of_char c)) v))"
  by (auto simp: create_s256_code_challenge_def validate_code_verifier_def bytes_to_b64url_def)

lemma redeem_Inr:
  "redeem cid uri v now c = (Inr sub, c') \<longleftrightarrow>
     create_s256_code_challenge v = Inr (ac_code_challenge c) \<and> \<not> ac_redeemed c \<and> now < ac_expires_at c
     \<and> ac_client_id c = cid \<and> uri = Some (ac_redirect_uri c) \<and> ac_method c = ''S256''
     \<and> list_all (\<lambda>x. (of_char x :: nat) < 128) (ac_code_challenge c)
     \<and> sub = ac_subject c \<and> c' = c\<lparr>ac_redeemed := True\<rparr>"
  by (auto simp: redeem_def code_expired_def split: sum.splits if_splits)

lemma redeem_Inl: "redeem cid uri v now c = (Inl e, c') \<Longrightarrow> c' = c"
  by (auto simp: redeem_def split: sum.splits if_splits)

lemma issue_code_Inr:
  assumes "issue_code value random cid uri sub scope nonce ch method now lifetime at acr amr user = Inr c"
  shows "''openid'' \<in> set scope \<and> nonce \<noteq> [] \<and> method = ''S256'' \<and> verifier_match ch \<and> 0 < lifetime
    \<and> lifetime \<le> 600 \<and> sub \<noteq> [] \<and> c = \<lparr>ac_value = (case value of None \<Rightarrow> random | Some v \<Rightarrow> v),
      ac_client_id = cid, ac_redirect_uri = uri, ac_subject = sub, ac_scope = scope, ac_nonce = nonce,
      ac_code_challenge = ch, ac_expires_at = now + lifetime, ac_method = method, ac_auth_time = at,
      ac_acr = acr, ac_amr = amr, ac_user = user, ac_redeemed = False\<rparr>"
  using assms by (auto simp: issue_code_def validate_code_challenge_def guards not_le split: if_splits)

lemma verifier_match_ascii: "verifier_match s \<Longrightarrow> list_all (\<lambda>x. (of_char x :: nat) < 128) s"
  by (auto simp: verifier_match_def list_all_iff verifier_char_def ascii_alpha_def ascii_digit_def Let_def)

end
