(* ===== verification/OidcStores.thy ===== *)
theory OidcStores
  imports Oidc
begin

section \<open>Authorization codes and tokens at rest (\<open>oidc.py\<close>)\<close>

text \<open>
  The protocols \<open>AuthorizationCodeStore\<close> and \<open>TokenStore\<close> as locales, what follows from them on
  every sequence of calls, and their memory implementations. The stores keep the code objects
  themselves; no code of the package changes one outside the store, so values model them.
\<close>

subsection \<open>Calls on a code store\<close>

datatype 'u code_call =
    SaveCode "'u auth_code"
  | GetCode string string
  | ConsumeCode string string "string option" string
  | HasNonce string string

datatype 'u code_reply = RSaved | RFound "'u auth_code option" | RConsumed "'u auth_code" | RSeen bool

fun saves_code :: "string \<Rightarrow> 'u code_call \<times> 'u code_reply result \<Rightarrow> bool" where
  "saves_code v (SaveCode c, Inr _) = (ac_value c = v)"
| "saves_code v _ = False"

fun consumes_code :: "string \<Rightarrow> 'u code_call \<times> 'u code_reply result \<Rightarrow> bool" where
  "consumes_code v (ConsumeCode w _ _ _, Inr _) = (w = v)"
| "consumes_code v _ = False"

text \<open>Codes come from \<open>issue\<close>, which makes them unredeemed.\<close>

fun code_call_ok :: "'u code_call \<Rightarrow> bool" where
  "code_call_ok (SaveCode c) = (\<not> ac_redeemed c)"
| "code_call_ok _ = True"

fun reuses_nonce :: "string \<times> string \<Rightarrow> 'u code_call \<Rightarrow> bool" where
  "reuses_nonce k (SaveCode c) = (k = (ac_client_id c, ac_nonce c))"
| "reuses_nonce k _ = False"

abbreviation invalid_code :: exn where
  "invalid_code \<equiv> PermissionError ''invalid authorization code''"

locale code_store =
  fixes save :: "int \<Rightarrow> 'u auth_code \<Rightarrow> ('s, unit) op"
    and get :: "int \<Rightarrow> string \<Rightarrow> string \<Rightarrow> 's \<Rightarrow> 'u auth_code option \<times> 's"
    and consume :: "string \<Rightarrow> string \<Rightarrow> string option \<Rightarrow> string \<Rightarrow> int \<Rightarrow> ('s, 'u auth_code) op"
    and has_nonce :: "string \<Rightarrow> string \<Rightarrow> int \<Rightarrow> 's \<Rightarrow> bool \<times> 's"
    and live :: "'s \<Rightarrow> int \<Rightarrow> string \<Rightarrow> 'u auth_code option"
    and seen :: "'s \<Rightarrow> int \<Rightarrow> string \<times> string \<Rightarrow> bool"
    and inv :: "'s \<Rightarrow> bool"
  assumes live_code: "inv s \<Longrightarrow> live s t v = Some c \<Longrightarrow> ac_value c = v \<and> t < ac_expires_at c \<and> \<not> ac_redeemed c"
    and live_earlier: "t \<le> t' \<Longrightarrow> live s t' v = Some c \<Longrightarrow> live s t v = Some c"
    and save_inv: "inv s \<Longrightarrow> \<not> ac_redeemed c \<Longrightarrow> inv (snd (save now c s))"
    and get_inv: "inv s \<Longrightarrow> inv (snd (get now v cid s))"
    and consume_inv: "inv s \<Longrightarrow> inv (snd (consume v cid uri ver now s))"
    and nonce_inv: "inv s \<Longrightarrow> inv (snd (has_nonce cid n now s))"
    and save_fresh: "inv s \<Longrightarrow> is_ok (fst (save now c s)) \<longleftrightarrow> live s now (ac_value c) = None"
    and save_live: "inv s \<Longrightarrow> now \<le> t \<Longrightarrow> live (snd (save now c s)) t v =
      (if is_ok (fst (save now c s)) \<and> v = ac_value c then (if t < ac_expires_at c then Some c else None)
       else live s t v)"
    and save_seen: "inv s \<Longrightarrow> now \<le> t \<Longrightarrow> seen (snd (save now c s)) t k =
      (if is_ok (fst (save now c s)) \<and> k = (ac_client_id c, ac_nonce c) then t < max (ac_expires_at c) (now + 1)
       else seen s t k)"
    and get_result: "inv s \<Longrightarrow> fst (get now v cid s) =
      (case live s now v of None \<Rightarrow> None | Some c \<Rightarrow> if ac_client_id c = cid then Some c else None)"
    and get_live: "inv s \<Longrightarrow> now \<le> t \<Longrightarrow> live (snd (get now v cid s)) t w = live s t w"
    and get_seen: "inv s \<Longrightarrow> now \<le> t \<Longrightarrow> seen (snd (get now v cid s)) t k = seen s t k"
    and consume_result: "inv s \<Longrightarrow> fst (consume v cid uri ver now s) =
      (case live s now v of None \<Rightarrow> Inl invalid_code
       | Some c \<Rightarrow> (case redeem cid uri ver now c of (Inl e, _) \<Rightarrow> Inl e | (Inr _, c') \<Rightarrow> Inr c'))"
    and consume_live: "inv s \<Longrightarrow> now \<le> t \<Longrightarrow> live (snd (consume v cid uri ver now s)) t w =
      (if is_ok (fst (consume v cid uri ver now s)) \<and> w = v then None else live s t w)"
    and consume_seen: "inv s \<Longrightarrow> now \<le> t \<Longrightarrow> seen (snd (consume v cid uri ver now s)) t k = seen s t k"
    and nonce_result: "inv s \<Longrightarrow> fst (has_nonce cid n now s) = seen s now (cid, n)"
    and nonce_live: "inv s \<Longrightarrow> live (snd (has_nonce cid n now s)) t w = live s t w"
    and nonce_seen: "inv s \<Longrightarrow> now \<le> t \<Longrightarrow> seen (snd (has_nonce cid n now s)) t k = seen s t k"
begin

fun store_code_call :: "int \<Rightarrow> 'u code_call \<Rightarrow> ('s, 'u code_reply) op" where
  "store_code_call now (SaveCode c) s = map_prod (map_sum id (\<lambda>_. RSaved)) id (save now c s)"
| "store_code_call now (GetCode v cid) s = map_prod (\<lambda>r. Inr (RFound r)) id (get now v cid s)"
| "store_code_call now (ConsumeCode v cid uri ver) s =
     map_prod (map_sum id RConsumed) id (consume v cid uri ver now s)"
| "store_code_call now (HasNonce cid n) s = map_prod (\<lambda>r. Inr (RSeen r)) id (has_nonce cid n now s)"

fun run_codes :: "(int \<times> 'u code_call) list \<Rightarrow> 's \<Rightarrow> 'u code_reply result list \<times> 's" where
  "run_codes [] s = ([], s)"
| "run_codes ((t, c) # cs) s =
     (case store_code_call t c s of (r, s') \<Rightarrow> case run_codes cs s' of (rs, s'') \<Rightarrow> (r # rs, s''))"

lemma call_inv: "inv s \<Longrightarrow> code_call_ok c \<Longrightarrow> inv (snd (store_code_call now c s))"
  by (cases c) (simp_all add: save_inv get_inv consume_inv nonce_inv)

lemma consume_was_live: "inv s \<Longrightarrow> is_ok (fst (consume v cid uri ver now s)) \<Longrightarrow> live s now v \<noteq> None"
  by (cases "live s now v") (simp_all add: consume_result)

text \<open>How a call changes what is live: a save adds a code that was not there, a consume removes one.\<close>

lemma call_balance:
  assumes "inv s" and "now \<le> t"
  shows "(if consumes_code v (c, fst (store_code_call now c s)) then 1 else 0)
      + (if live (snd (store_code_call now c s)) t v = None then 0 else 1)
    \<le> (if saves_code v (c, fst (store_code_call now c s)) then 1 else 0)
      + (if live s now v = None then 0 else (1 :: nat))"
proof -
  have older: "live s t v = None \<or> (\<exists>y. live s t v = Some y \<and> live s now v = Some y)"
    using live_earlier [OF assms(2), of s v] by (cases "live s t v") auto
  show ?thesis
  proof (cases c)
    case (SaveCode d)
    then show ?thesis
      using save_live [OF assms, of d v] save_fresh [OF assms(1), of now d] older
      by (cases "fst (save now d s)") auto
  next
    case (GetCode w cid)
    then show ?thesis using get_live [OF assms, of w cid v] older by auto
  next
    case (ConsumeCode w cid uri ver)
    then show ?thesis
      using consume_live [OF assms, of w cid uri ver v] consume_was_live [OF assms(1), of w cid uri ver now] older
      by (cases "fst (consume w cid uri ver now s)") auto
  next
    case (HasNonce cid n)
    then show ?thesis using nonce_live [OF assms(1), of cid n now t v] older by auto
  qed
qed

lemma consumes_le_saves:
  "inv s \<Longrightarrow> sorted (map fst cs) \<Longrightarrow> \<forall>(t, c) \<in> set cs. code_call_ok c \<and> t0 \<le> t \<Longrightarrow>
   length (filter (consumes_code v) (zip (map snd cs) (fst (run_codes cs s))))
     \<le> length (filter (saves_code v) (zip (map snd cs) (fst (run_codes cs s))))
       + (if live s t0 v = None then 0 else 1)"
proof (induction cs arbitrary: s t0)
  case (Cons tc cs)
  obtain t c where tc: "tc = (t, c)" by force
  let ?r = "fst (store_code_call t c s)" and ?s = "snd (store_code_call t c s)"
  from Cons.prems have ok: "code_call_ok c" "t0 \<le> t" "sorted (map fst cs)"
      "\<forall>(u, d) \<in> set cs. code_call_ok d \<and> t \<le> u" by (auto simp: tc)
  have IH: "length (filter (consumes_code v) (zip (map snd cs) (fst (run_codes cs ?s))))
     \<le> length (filter (saves_code v) (zip (map snd cs) (fst (run_codes cs ?s))))
       + (if live ?s t v = None then 0 else 1)"
    using Cons.IH [OF call_inv [OF Cons.prems(1) ok(1)] ok(3,4)] .
  have step: "(if consumes_code v (c, ?r) then 1 else 0) + (if live ?s t v = None then 0 else 1)
     \<le> (if saves_code v (c, ?r) then 1 else 0) + (if live s t v = None then 0 else (1 :: nat))"
    by (rule call_balance [OF Cons.prems(1)]) simp
  have "live s t0 v = None \<Longrightarrow> live s t v = None"
    using live_earlier [OF ok(2), of s v] by (cases "live s t v") auto
  then show ?case
    using IH step by (auto simp: tc case_prod_beta split: if_split_asm)
qed simp

lemma call_seen:
  assumes "inv s" and "now \<le> t" and "\<not> reuses_nonce k c"
  shows "seen (snd (store_code_call now c s)) t k = seen s t k"
  using assms by (cases c) (auto simp: save_seen get_seen consume_seen nonce_seen)

lemma run_seen:
  "inv s \<Longrightarrow> \<forall>(u, c) \<in> set cs. code_call_ok c \<and> \<not> reuses_nonce k c \<and> u \<le> t \<Longrightarrow>
   seen (snd (run_codes cs s)) t k = seen s t k \<and> inv (snd (run_codes cs s))"
proof (induction cs arbitrary: s)
  case (Cons uc cs)
  obtain u c where uc: "uc = (u, c)" by force
  from Cons.prems show ?case
    using Cons.IH [OF call_inv [of s c u]] call_seen [of s u t k c] by (auto simp: uc case_prod_beta)
qed simp

end

subsection \<open>\<open>MemoryAuthorizationCodeStore\<close>\<close>

record 'u mem_codes =
  mk_codes :: "(string, 'u auth_code) dict"
  mk_nonces :: "(string \<times> string, int) dict"

definition mem_codes_init :: "'u mem_codes" where
  "mem_codes_init = \<lparr>mk_codes = [], mk_nonces = []\<rparr>"

definition codes_cleanup :: "int \<Rightarrow> 'u mem_codes \<Rightarrow> 'u mem_codes" where
  "codes_cleanup now st =
     \<lparr>mk_codes = filter (\<lambda>(v, c). \<not> (code_expired now c \<and> \<not> ac_redeemed c)) (mk_codes st),
      mk_nonces = filter (\<lambda>(k, e). \<not> e \<le> now) (mk_nonces st)\<rparr>"

definition mem_save_code :: "int \<Rightarrow> 'u auth_code \<Rightarrow> ('u mem_codes, unit) op" where
  "mem_save_code now code st0 =
     (let st = codes_cleanup now st0 in
      if map_of (mk_codes st) (ac_value code) \<noteq> None
      then (Inl (OIDCProtocolError ''authorization code already exists''), st)
      else (Inr (), \<lparr>mk_codes = AList.update (ac_value code) code (mk_codes st),
        mk_nonces = AList.update (ac_client_id code, ac_nonce code) (max (ac_expires_at code) (now + 1))
          (mk_nonces st)\<rparr>))"

definition mem_get_code :: "int \<Rightarrow> string \<Rightarrow> string \<Rightarrow> 'u mem_codes \<Rightarrow> 'u auth_code option \<times> 'u mem_codes" where
  "mem_get_code now value client_id st0 =
     (let st = codes_cleanup now st0 in
      ((case map_of (mk_codes st) value of
          None \<Rightarrow> None
        | Some code \<Rightarrow>
            if ac_client_id code \<noteq> client_id \<or> ac_redeemed code \<or> code_expired now code
            then None else Some code), st))"

definition mem_consume_code ::
  "string \<Rightarrow> string \<Rightarrow> string option \<Rightarrow> string \<Rightarrow> int \<Rightarrow> ('u mem_codes, 'u auth_code) op" where
  "mem_consume_code value client_id redirect_uri code_verifier now st0 =
     (let st = codes_cleanup now st0 in
      case map_of (mk_codes st) value of
        None \<Rightarrow> (Inl invalid_code, st)
      | Some code \<Rightarrow>
          (case redeem client_id redirect_uri code_verifier now code of
             (Inl e, code') \<Rightarrow> (Inl e, st\<lparr>mk_codes := AList.update value code' (mk_codes st)\<rparr>)
           | (Inr _, code') \<Rightarrow> (Inr code', st\<lparr>mk_codes := AList.delete value (mk_codes st)\<rparr>)))"

definition mem_has_nonce :: "string \<Rightarrow> string \<Rightarrow> int \<Rightarrow> 'u mem_codes \<Rightarrow> bool \<times> 'u mem_codes" where
  "mem_has_nonce client_id nonce now st =
     (case map_of (mk_nonces st) (client_id, nonce) of
        None \<Rightarrow> (False, st)
      | Some e \<Rightarrow>
          if e \<le> now then (False, st\<lparr>mk_nonces := AList.delete (client_id, nonce) (mk_nonces st)\<rparr>)
          else (True, st))"

definition mem_live_code :: "'u mem_codes \<Rightarrow> int \<Rightarrow> string \<Rightarrow> 'u auth_code option" where
  "mem_live_code st t v =
     (case map_of (mk_codes st) v of None \<Rightarrow> None | Some c \<Rightarrow> if t < ac_expires_at c then Some c else None)"

definition mem_nonce_seen :: "'u mem_codes \<Rightarrow> int \<Rightarrow> string \<times> string \<Rightarrow> bool" where
  "mem_nonce_seen st t k \<longleftrightarrow> (\<exists>e. map_of (mk_nonces st) k = Some e \<and> t < e)"

definition mem_codes_ok :: "'u mem_codes \<Rightarrow> bool" where
  "mem_codes_ok st \<longleftrightarrow> dict_ok (mk_codes st) \<and> dict_ok (mk_nonces st)
     \<and> (\<forall>v c. map_of (mk_codes st) v = Some c \<longrightarrow> ac_value c = v \<and> \<not> ac_redeemed c)"

lemma cleanup_codes:
  assumes "mem_codes_ok st"
  shows "mem_codes_ok (codes_cleanup now st)"
    and "map_of (mk_codes (codes_cleanup now st)) v = mem_live_code st now v"
    and "map_of (mk_nonces (codes_cleanup now st)) k =
      (case map_of (mk_nonces st) k of None \<Rightarrow> None | Some e \<Rightarrow> if now < e then Some e else None)"
proof -
  have c: "map_of (mk_codes (codes_cleanup now st)) v = mem_live_code st now v" for v
    using assms by (auto simp: mem_codes_ok_def codes_cleanup_def map_of_filter_item mem_live_code_def
        code_expired_def split: option.splits)
  then show "map_of (mk_codes (codes_cleanup now st)) v = mem_live_code st now v" .
  show "map_of (mk_nonces (codes_cleanup now st)) k =
      (case map_of (mk_nonces st) k of None \<Rightarrow> None | Some e \<Rightarrow> if now < e then Some e else None)"
    using assms by (auto simp: mem_codes_ok_def codes_cleanup_def map_of_filter_item not_le split: option.splits)
  have "dict_ok (mk_codes (codes_cleanup now st))" "dict_ok (mk_nonces (codes_cleanup now st))"
    using assms by (simp_all add: mem_codes_ok_def codes_cleanup_def dict_ok_filter)
  then show "mem_codes_ok (codes_cleanup now st)"
    using assms unfolding mem_codes_ok_def c by (auto simp: mem_live_code_def split: option.splits if_splits)
qed

lemma cleanup_observers:
  assumes "mem_codes_ok st" and "now \<le> t"
  shows "mem_live_code (codes_cleanup now st) t v = mem_live_code st t v"
    and "mem_nonce_seen (codes_cleanup now st) t k = mem_nonce_seen st t k"
  using assms cleanup_codes(2) [OF assms(1), of now v] cleanup_codes(3) [OF assms(1), of now k]
  by (auto simp: mem_live_code_def mem_nonce_seen_def split: option.splits)

lemma update_same: "map_of d k = Some v \<Longrightarrow> AList.update k v d = d"
  by (induction d) (auto split: if_splits)

lemma mem_consume_eq:
  assumes "mem_codes_ok st"
  shows "mem_consume_code v cid uri ver now st =
    (case mem_live_code st now v of
       None \<Rightarrow> (Inl invalid_code, codes_cleanup now st)
     | Some c \<Rightarrow>
         (case redeem cid uri ver now c of
            (Inl e, _) \<Rightarrow> (Inl e, codes_cleanup now st)
          | (Inr _, c') \<Rightarrow>
              (Inr c', (codes_cleanup now st)\<lparr>mk_codes := AList.delete v (mk_codes (codes_cleanup now st))\<rparr>)))"
proof (cases "mem_live_code st now v")
  case None
  then show ?thesis by (simp add: mem_consume_code_def Let_def cleanup_codes(2) [OF assms])
next
  case (Some c)
  then have c: "map_of (mk_codes (codes_cleanup now st)) v = Some c" by (simp add: cleanup_codes(2) [OF assms])
  obtain r c' where r: "redeem cid uri ver now c = (r, c')" by force
  show ?thesis
  proof (cases r)
    case (Inl e)
    then have "c' = c" using redeem_Inl [of cid uri ver now c e c'] r by simp
    then show ?thesis by (simp add: mem_consume_code_def Let_def c r Some Inl update_same [OF c])
  next
    case (Inr x)
    then show ?thesis by (simp add: mem_consume_code_def Let_def c r Some)
  qed
qed

lemma mem_codes_delete: "mem_codes_ok st \<Longrightarrow> mem_codes_ok (st\<lparr>mk_codes := AList.delete v (mk_codes st)\<rparr>)"
  by (auto simp: mem_codes_ok_def dict_simps)

subsection \<open>The laws of the interface, operation by operation\<close>

lemma mem_live_code_alive:
  "mem_codes_ok s \<Longrightarrow> mem_live_code s t v = Some c \<Longrightarrow> ac_value c = v \<and> t < ac_expires_at c \<and> \<not> ac_redeemed c"
  by (auto simp: mem_codes_ok_def mem_live_code_def split: option.splits if_splits)

lemma mem_live_code_earlier: "t \<le> t' \<Longrightarrow> mem_live_code s t' v = Some c \<Longrightarrow> mem_live_code s t v = Some c"
  by (auto simp: mem_live_code_def split: option.splits if_splits)

lemma mem_save_code_ok:
  assumes "mem_codes_ok s" and "\<not> ac_redeemed c"
  shows "mem_codes_ok (snd (mem_save_code now c s))"
  using cleanup_codes(1) [OF assms(1), of now] assms(2)
  unfolding mem_codes_ok_def mem_save_code_def Let_def by (auto simp: dict_simps)

lemma mem_save_code_fresh:
  "mem_codes_ok s \<Longrightarrow> is_ok (fst (mem_save_code now c s)) \<longleftrightarrow> mem_live_code s now (ac_value c) = None"
  by (simp add: mem_save_code_def Let_def cleanup_codes(2))

lemma mem_save_code_live:
  assumes "mem_codes_ok s" and "now \<le> t"
  shows "mem_live_code (snd (mem_save_code now c s)) t v =
      (if is_ok (fst (mem_save_code now c s)) \<and> v = ac_value c then (if t < ac_expires_at c then Some c else None)
       else mem_live_code s t v)"
  using cleanup_observers(1) [OF assms, of v] by (auto simp: mem_save_code_def Let_def mem_live_code_def dict_simps)

lemma mem_save_code_seen:
  assumes "mem_codes_ok s" and "now \<le> t"
  shows "mem_nonce_seen (snd (mem_save_code now c s)) t k =
      (if is_ok (fst (mem_save_code now c s)) \<and> k = (ac_client_id c, ac_nonce c)
       then t < max (ac_expires_at c) (now + 1) else mem_nonce_seen s t k)"
  using cleanup_observers(2) [OF assms, of k] by (auto simp: mem_save_code_def Let_def mem_nonce_seen_def dict_simps)

lemma mem_get_code_state: "snd (mem_get_code now v cid s) = codes_cleanup now s"
  by (simp add: mem_get_code_def Let_def)

lemma mem_get_code_result:
  assumes "mem_codes_ok s"
  shows "fst (mem_get_code now v cid s) =
      (case mem_live_code s now v of None \<Rightarrow> None | Some c \<Rightarrow> if ac_client_id c = cid then Some c else None)"
  using mem_live_code_alive [OF assms, of now v]
  by (auto simp: mem_get_code_def Let_def cleanup_codes(2) [OF assms] code_expired_def split: option.split)

lemma mem_consume_code_ok:
  assumes "mem_codes_ok s"
  shows "mem_codes_ok (snd (mem_consume_code v cid uri ver now s))"
  unfolding mem_consume_eq [OF assms]
  using cleanup_codes(1) [OF assms, of now] mem_codes_delete [OF cleanup_codes(1) [OF assms, of now], of v]
  by (simp split: option.split prod.split sum.split)

lemma mem_consume_code_result:
  "mem_codes_ok s \<Longrightarrow> fst (mem_consume_code v cid uri ver now s) =
      (case mem_live_code s now v of None \<Rightarrow> Inl invalid_code
       | Some c \<Rightarrow> (case redeem cid uri ver now c of (Inl e, _) \<Rightarrow> Inl e | (Inr _, c') \<Rightarrow> Inr c'))"
  by (simp add: mem_consume_eq split: option.split prod.split sum.split)

lemma mem_deleted_code:
  "mem_live_code (st\<lparr>mk_codes := AList.delete v (mk_codes st)\<rparr>) t w = (if w = v then None else mem_live_code st t w)"
  "mem_nonce_seen (st\<lparr>mk_codes := AList.delete v (mk_codes st)\<rparr>) t k = mem_nonce_seen st t k"
  by (simp_all add: mem_live_code_def mem_nonce_seen_def dict_simps)

lemma mem_consume_code_observers:
  assumes "mem_codes_ok s" and "now \<le> t"
  shows "mem_live_code (snd (mem_consume_code v cid uri ver now s)) t w =
      (if is_ok (fst (mem_consume_code v cid uri ver now s)) \<and> w = v then None else mem_live_code s t w)"
    and "mem_nonce_seen (snd (mem_consume_code v cid uri ver now s)) t k = mem_nonce_seen s t k"
  unfolding mem_consume_eq [OF assms(1)]
  by (auto simp: mem_deleted_code cleanup_observers [OF assms] split: option.split prod.split sum.split)

lemma mem_has_nonce_ok: "mem_codes_ok s \<Longrightarrow> mem_codes_ok (snd (mem_has_nonce cid n now s))"
  by (auto simp: mem_codes_ok_def mem_has_nonce_def split: option.splits)

lemma mem_has_nonce_result: "fst (mem_has_nonce cid n now s) = mem_nonce_seen s now (cid, n)"
  by (auto simp: mem_has_nonce_def mem_nonce_seen_def split: option.splits)

lemma mem_has_nonce_live: "mem_live_code (snd (mem_has_nonce cid n now s)) t w = mem_live_code s t w"
  by (auto simp: mem_has_nonce_def mem_live_code_def split: option.splits)

lemma mem_has_nonce_seen:
  "mem_codes_ok s \<Longrightarrow> now \<le> t \<Longrightarrow> mem_nonce_seen (snd (mem_has_nonce cid n now s)) t k = mem_nonce_seen s t k"
  by (auto simp: mem_has_nonce_def mem_nonce_seen_def dict_simps split: option.splits)

lemmas mem_code_laws = mem_save_code_ok mem_save_code_fresh mem_save_code_live mem_save_code_seen
  mem_get_code_result mem_consume_code_ok mem_consume_code_result mem_consume_code_observers
  mem_has_nonce_ok mem_has_nonce_result mem_has_nonce_live mem_has_nonce_seen

interpretation memcodes: code_store mem_save_code mem_get_code mem_consume_code mem_has_nonce
  mem_live_code mem_nonce_seen mem_codes_ok
  by unfold_locales (erule (1) mem_live_code_alive mem_live_code_earlier
    | (rule mem_code_laws; assumption) | simp add: mem_get_code_state cleanup_codes(1) cleanup_observers)+

lemma mem_codes_init_ok [simp]: "mem_codes_ok mem_codes_init" "mem_live_code mem_codes_init t v = None"
    "mem_nonce_seen mem_codes_init t k = False"
  by (simp_all add: mem_codes_ok_def mem_codes_init_def mem_live_code_def mem_nonce_seen_def)

end
