(* ===== verification/OidcTokens.thy ===== *)
theory OidcTokens
  imports Oidc
begin

section \<open>Bearer tokens at rest (\<open>TokenRecord\<close>, \<open>MemoryTokenStore\<close> in \<open>oidc.py\<close>)\<close>

text \<open>
  \<open>save\<close> with its checks of the generator's mapping, \<open>get_access_token\<close> and
  \<open>revoke_access_token\<close>; tokens are kept under their SHA-256 digest. The contract of a token
  store is the locale \<open>token_store\<close>. \<open>py\<close> gives \<open>str\<close> and \<open>int\<close> of a float.
\<close>

record 'u token_record =
  tr_access_token :: string
  tr_client_id :: string
  tr_subject :: string
  tr_scope :: string
  tr_expires_at :: int
  tr_token_type :: string
  tr_refresh_token :: "string option"
  tr_user :: "'u option"
  tr_client :: "oidc_client option"
  tr_revoked :: bool

record py_float =
  py_repr :: "json \<Rightarrow> string"
  py_float_int :: "string \<Rightarrow> int result"

text \<open>\<open>int(value)\<close> where \<open>isinstance(value, (str, int, float))\<close>; a bool is an int.\<close>

fun number_of :: "py_float \<Rightarrow> json \<Rightarrow> int result option" where
  "number_of py (JStr s) = Some (py_int_text s)"
| "number_of py (JInt n) = Some (Inr n)"
| "number_of py (JBool b) = Some (Inr (if b then 1 else 0))"
| "number_of py (JFloat t) = Some (py_float_int py t)"
| "number_of py _ = None"

definition protocol_error_for :: "string \<Rightarrow> exn \<Rightarrow> exn" where
  "protocol_error_for m e = (if is_ValueError e \<or> is_TypeError e then OIDCProtocolError m else e)"

definition token_expiry :: "py_float \<Rightarrow> int \<Rightarrow> json_dict \<Rightarrow> int result" where
  "token_expiry py now token =
     (if json_get ''expires_in'' token = JNull
      then (case number_of py (json_get ''expires_at'' token) of
          None \<Rightarrow> Inr now
        | Some r \<Rightarrow> map_sum (protocol_error_for ''token expires_at must be an integer'') id r)
      else (case number_of py (json_get ''expires_in'' token) of
          None \<Rightarrow> Inr now
        | Some r \<Rightarrow> map_sum (protocol_error_for ''token expires_in must be an integer'') (\<lambda>n. now + n) r))"

fun token_scope :: "(json \<Rightarrow> string) \<Rightarrow> json \<Rightarrow> string" where
  "token_scope repr (JStr s) = scope_string (ScopeText s)"
| "token_scope repr (JArr xs) = scope_string (ScopeItems (map (json_str repr) xs))"
| "token_scope repr _ = scope_string ScopeNone"

text \<open>The record that \<open>save\<close> builds; the store is only touched when every check has passed.\<close>

definition token_record_for ::
  "py_float \<Rightarrow> json_dict \<Rightarrow> string \<Rightarrow> string \<Rightarrow> int \<Rightarrow> 'u option \<Rightarrow> oidc_client option \<Rightarrow> 'u token_record result" where
  "token_record_for py token client_id subject now user client =
     (case json_get ''access_token'' token of
        JStr access_token \<Rightarrow>
          (if access_token = []
           then Inl (OIDCProtocolError ''token generator did not return an access token'')
           else if py_casefold (case map_of token ''token_type'' of None \<Rightarrow> ''Bearer''
                  | Some v \<Rightarrow> json_str (py_repr py) v) \<noteq> py_casefold ''bearer''
           then Inl (OIDCProtocolError ''only Bearer access tokens are supported'')
           else res_bind (token_expiry py now token) (\<lambda>expires_at.
             if expires_at \<le> now then Inl (OIDCProtocolError ''access token lifetime must be positive'')
             else res_bind (case json_get ''refresh_token'' token of
                  JNull \<Rightarrow> Inr None | JStr r \<Rightarrow> Inr (Some r)
                | _ \<Rightarrow> Inl (OIDCProtocolError ''refresh_token must be a string'')) (\<lambda>refresh.
               Inr \<lparr>tr_access_token = access_token, tr_client_id = client_id, tr_subject = subject,
                 tr_scope = token_scope (py_repr py) (json_get ''scope'' token), tr_expires_at = expires_at,
                 tr_token_type = ''Bearer'', tr_refresh_token = refresh, tr_user = user,
                 tr_client = client, tr_revoked = False\<rparr>)))
      | _ \<Rightarrow> Inl (OIDCProtocolError ''token generator did not return an access token''))"

definition token_key :: "string \<Rightarrow> string" where
  "token_key value = sha256_hex (utf8_encode value)"

subsection \<open>The interface\<close>

datatype 'u token_call =
    SaveToken json_dict string string "'u option" "oidc_client option"
  | GetToken string
  | RevokeToken string

fun saves_token_key :: "string \<Rightarrow> 'u token_call \<Rightarrow> bool" where
  "saves_token_key k (SaveToken token _ _ _ _) = (case json_get ''access_token'' token of
     JStr a \<Rightarrow> token_key a = k | _ \<Rightarrow> False)"
| "saves_token_key k _ = False"

locale token_store =
  fixes save :: "py_float \<Rightarrow> json_dict \<Rightarrow> string \<Rightarrow> string \<Rightarrow> int \<Rightarrow> 'u option \<Rightarrow> oidc_client option
      \<Rightarrow> ('s, 'u token_record) op"
    and get :: "int \<Rightarrow> string \<Rightarrow> 's \<Rightarrow> 'u token_record option"
    and revoke :: "string \<Rightarrow> 's \<Rightarrow> bool \<times> 's"
    and lookup :: "'s \<Rightarrow> string \<Rightarrow> 'u token_record option"
    and inv :: "'s \<Rightarrow> bool"
  assumes save_inv: "inv s \<Longrightarrow> inv (snd (save py token cid sub now u c s))"
    and revoke_inv: "inv s \<Longrightarrow> inv (snd (revoke a s))"
    and save_result: "fst (save py token cid sub now u c s) = token_record_for py token cid sub now u c"
    and save_lookup: "inv s \<Longrightarrow> lookup (snd (save py token cid sub now u c s)) k =
      (case token_record_for py token cid sub now u c of
         Inl e \<Rightarrow> lookup s k
       | Inr r \<Rightarrow> if k = token_key (tr_access_token r) then Some r else lookup s k)"
    and get_result: "get now a s = (if a = [] then None else
      (case lookup s (token_key a) of None \<Rightarrow> None
       | Some r \<Rightarrow> if tr_revoked r \<or> tr_expires_at r \<le> now then None else Some r))"
    and revoke_result: "fst (revoke a s) \<longleftrightarrow> lookup s (token_key a) \<noteq> None"
    and revoke_lookup: "inv s \<Longrightarrow> lookup (snd (revoke a s)) k =
      (if k = token_key a then map_option (\<lambda>r. r\<lparr>tr_revoked := True\<rparr>) (lookup s k) else lookup s k)"
begin

fun token_call :: "py_float \<Rightarrow> int \<Rightarrow> 'u token_call \<Rightarrow> 's \<Rightarrow> 's" where
  "token_call py now (SaveToken token cid sub u c) s = snd (save py token cid sub now u c s)"
| "token_call py now (GetToken a) s = s"
| "token_call py now (RevokeToken a) s = snd (revoke a s)"

fun run_tokens :: "py_float \<Rightarrow> (int \<times> 'u token_call) list \<Rightarrow> 's \<Rightarrow> 's" where
  "run_tokens py [] s = s"
| "run_tokens py ((t, c) # cs) s = run_tokens py cs (token_call py t c s)"

definition dead :: "string \<Rightarrow> 's \<Rightarrow> bool" where
  "dead k s \<longleftrightarrow> (case lookup s k of None \<Rightarrow> True | Some r \<Rightarrow> tr_revoked r)"

lemma token_record_key:
  assumes "token_record_for py token cid sub now u c = Inr r"
  shows "json_get ''access_token'' token = JStr (tr_access_token r)"
  using assms by (cases "json_get ''access_token'' token") (auto simp: token_record_for_def guards split: if_splits)

lemma call_keeps:
  "inv s \<Longrightarrow> dead k s \<Longrightarrow> \<not> saves_token_key k c \<Longrightarrow> inv (token_call py t c s) \<and> dead k (token_call py t c s)"
  by (cases c) (auto simp: dead_def save_inv revoke_inv save_lookup revoke_lookup split: sum.splits option.splits
      dest!: token_record_key)

lemma run_keeps_dead:
  "inv s \<Longrightarrow> dead k s \<Longrightarrow> \<forall>(t, c) \<in> set cs. \<not> saves_token_key k c \<Longrightarrow> dead k (run_tokens py cs s)"
  by (induction cs arbitrary: s) (auto simp: call_keeps)

lemma revoked_dead: "inv s \<Longrightarrow> dead (token_key a) (snd (revoke a s))"
  by (auto simp: dead_def revoke_lookup split: option.split)

lemma dead_refused: "dead (token_key a) s \<Longrightarrow> get now a s = None"
  by (auto simp: dead_def get_result split: option.splits)

end

subsection \<open>\<open>MemoryTokenStore\<close>\<close>

type_synonym 'u token_dict = "(string, 'u token_record) dict"

definition mem_save_token ::
  "py_float \<Rightarrow> json_dict \<Rightarrow> string \<Rightarrow> string \<Rightarrow> int \<Rightarrow> 'u option \<Rightarrow> oidc_client option
   \<Rightarrow> ('u token_dict, 'u token_record) op" where
  "mem_save_token py token client_id subject now user client d =
     (case token_record_for py token client_id subject now user client of
        Inl e \<Rightarrow> (Inl e, d)
      | Inr r \<Rightarrow> (Inr r, AList.update (token_key (tr_access_token r)) r d))"

definition mem_get_token :: "int \<Rightarrow> string \<Rightarrow> 'u token_dict \<Rightarrow> 'u token_record option" where
  "mem_get_token now access_token d =
     (if access_token = [] then None
      else (case map_of d (token_key access_token) of
          None \<Rightarrow> None
        | Some r \<Rightarrow> if tr_revoked r \<or> tr_expires_at r \<le> now then None else Some r))"

definition mem_revoke_token :: "string \<Rightarrow> 'u token_dict \<Rightarrow> bool \<times> 'u token_dict" where
  "mem_revoke_token access_token d =
     (case map_of d (token_key access_token) of
        None \<Rightarrow> (False, d)
      | Some r \<Rightarrow> (True, AList.update (token_key access_token) (r\<lparr>tr_revoked := True\<rparr>) d))"

interpretation memtokens: token_store mem_save_token mem_get_token mem_revoke_token map_of dict_ok
  by unfold_locales
    (auto simp: mem_save_token_def mem_get_token_def mem_revoke_token_def dict_simps split: sum.split option.split)

text \<open>The expiry of a record that was saved lies after the time of the save, and it is a Bearer token.\<close>

lemma token_record_Inr:
  assumes "token_record_for py token cid sub now u c = Inr r"
  shows "tr_client_id r = cid \<and> tr_subject r = sub \<and> now < tr_expires_at r \<and> tr_token_type r = ''Bearer''
    \<and> \<not> tr_revoked r \<and> tr_user r = u \<and> tr_client r = c \<and> tr_access_token r \<noteq> []
    \<and> tr_scope r = token_scope (py_repr py) (json_get ''scope'' token)"
  using assms by (cases "json_get ''access_token'' token")
    (auto simp: token_record_for_def guards not_le split: if_splits)

end
