(* ===== verification/OidcProvider.thy ===== *)
theory OidcProvider
  imports OidcStores OidcTokens
begin

section \<open>The provider (\<open>OIDCProvider\<close>, \<open>OIDCUserAdapter\<close> in \<open>oidc.py\<close>)\<close>

text \<open>
  The host's user adapter is a record of its callbacks, which may raise; the defaults of the
  package work on the attributes of a user object, a mapping from names to values. The
  signing-key store is used by the token generator of the Authlib package only.
\<close>

record 'u user_adapter =
  ua_subject :: "'u \<Rightarrow> string result"
  ua_claims :: "'u \<Rightarrow> string list \<Rightarrow> json_dict result"
  ua_resolve :: "(string \<Rightarrow> 'u option) option"
  ua_active :: "'u \<Rightarrow> bool"
  ua_authentication_time :: "'u \<Rightarrow> int option"
  ua_amr :: "'u \<Rightarrow> string list"
  ua_acr :: "'u \<Rightarrow> string option"

definition default_user_subject :: "json_dict \<Rightarrow> string result" where
  "default_user_subject user =
     (case json_get ''user_id'' user of
        JStr value \<Rightarrow> if value = []
          then Inl (OIDCProtocolError ''OIDC user adapter must provide a non-empty user_id'') else Inr value
      | _ \<Rightarrow> Inl (OIDCProtocolError ''OIDC user adapter must provide a non-empty user_id''))"

fun non_empty_str :: "json \<Rightarrow> bool" where
  "non_empty_str (JStr s) = (s \<noteq> [])"
| "non_empty_str _ = False"

fun is_bool :: "json \<Rightarrow> bool" where
  "is_bool (JBool _) = True"
| "is_bool _ = False"

definition default_user_claims :: "json_dict \<Rightarrow> string list \<Rightarrow> json_dict result" where
  "default_user_claims user scope =
     res_bind (default_user_subject user) (\<lambda>subject.
       let display_name = (if json_true (json_get ''display_name'' user)
             then json_get ''display_name'' user else json_get ''name'' user);
           email = json_get ''email'' user;
           email_verified = json_get ''email_verified'' user
       in Inr ([(''sub'', JStr subject)]
         @ (if ''profile'' \<in> set scope \<and> non_empty_str display_name then [(''name'', display_name)] else [])
         @ (if ''email'' \<in> set scope \<and> non_empty_str email
            then (''email'', email) # (if is_bool email_verified then [(''email_verified'', email_verified)] else [])
            else [])))"

definition default_user_active :: "json_dict \<Rightarrow> bool" where
  "default_user_active user = (case map_of user ''is_active'' of None \<Rightarrow> True | Some v \<Rightarrow> json_true v)"

definition default_adapter :: "json_dict user_adapter" where
  "default_adapter = \<lparr>ua_subject = default_user_subject, ua_claims = default_user_claims, ua_resolve = None,
     ua_active = default_user_active, ua_authentication_time = (\<lambda>_. None), ua_amr = (\<lambda>_. [''webauthn'']),
     ua_acr = (\<lambda>_. None)\<rparr>"

record 'u oidc_provider =
  pr_config :: provider_config
  pr_clients :: "(string, oidc_client) dict"
  pr_users :: "'u user_adapter"
  pr_code_lifetime :: int
  pr_access_token_lifetime :: int
  pr_id_token_lifetime :: int
  pr_has_signing_keys :: bool

text \<open>The mutable state of the provider: its two stores.\<close>

record 'u oidc_state =
  os_codes :: "'u mem_codes"
  os_tokens :: "'u token_dict"

definition mk_provider ::
  "provider_config \<Rightarrow> oidc_client list \<Rightarrow> 'u user_adapter \<Rightarrow> bool \<Rightarrow> int \<Rightarrow> int \<Rightarrow> int \<Rightarrow> bool
   \<Rightarrow> 'u oidc_provider result" where
  "mk_provider config clients users keys code_lifetime access_lifetime id_lifetime allow_refresh =
     (if \<not> (1 \<le> code_lifetime \<and> code_lifetime \<le> 600)
      then Inl (OIDCConfigurationError ''authorization_code_lifetime must be between 1 and 600 seconds'')
      else if \<not> (1 \<le> access_lifetime \<and> access_lifetime \<le> 3600)
      then Inl (OIDCConfigurationError ''access_token_lifetime must be between 1 and 3600 seconds'')
      else if \<not> (1 \<le> id_lifetime \<and> id_lifetime \<le> 3600)
      then Inl (OIDCConfigurationError ''id_token_lifetime must be between 1 and 3600 seconds'')
      else if allow_refresh
      then Inl (OIDCConfigurationError ''refresh tokens are not implemented in the first provider profile'')
      else (let client_map = fold (\<lambda>c. AList.update (oc_client_id c) c) clients [] in
        if length client_map \<noteq> length clients
        then Inl (OIDCConfigurationError ''client_id values must be unique'')
        else if client_map = [] then Inl (OIDCConfigurationError ''at least one OIDC client is required'')
        else Inr \<lparr>pr_config = config, pr_clients = client_map, pr_users = users,
          pr_code_lifetime = code_lifetime, pr_access_token_lifetime = access_lifetime,
          pr_id_token_lifetime = id_lifetime, pr_has_signing_keys = keys\<rparr>))"

definition query_client :: "'u oidc_provider \<Rightarrow> string \<Rightarrow> oidc_client option" where
  "query_client p client_id = map_of (pr_clients p) client_id"

definition subject_for :: "'u oidc_provider \<Rightarrow> 'u \<Rightarrow> string result" where
  "subject_for p user =
     res_bind (ua_subject (pr_users p) user) (\<lambda>subject.
       if subject = [] then Inl (OIDCProtocolError ''OIDC subject adapter returned an invalid subject'')
       else Inr subject)"

definition resolve_subject :: "'u oidc_provider \<Rightarrow> string \<Rightarrow> 'u option \<Rightarrow> 'u option result" where
  "resolve_subject p subject fallback =
     (case ua_resolve (pr_users p) of
        Some resolve \<Rightarrow> Inr (resolve subject)
      | None \<Rightarrow>
          (case fallback of
             None \<Rightarrow> Inr None
           | Some user \<Rightarrow> res_bind (subject_for p user) (\<lambda>s. Inr (if s = subject then Some user else None))))"

definition is_active :: "'u oidc_provider \<Rightarrow> 'u \<Rightarrow> bool" where
  "is_active p user = ua_active (pr_users p) user"

definition profile_claims :: "string list" where
  "profile_claims = [''name'', ''given_name'', ''family_name'', ''middle_name'', ''nickname'',
     ''preferred_username'', ''profile'', ''picture'', ''website'', ''gender'', ''birthdate'', ''zoneinfo'',
     ''locale'', ''updated_at'']"

definition allowed_claims :: "string list \<Rightarrow> string list" where
  "allowed_claims scopes =
     ''sub'' # (if ''profile'' \<in> set scopes then profile_claims else [])
     @ (if ''email'' \<in> set scopes then [''email'', ''email_verified''] else [])"

definition claims_for :: "'u oidc_provider \<Rightarrow> 'u \<Rightarrow> scope_arg \<Rightarrow> json_dict result" where
  "claims_for p user scope =
     res_bind (scope_tuple scope) (\<lambda>scopes.
     res_bind (ua_claims (pr_users p) user scopes) (\<lambda>claims0.
     res_bind (subject_for p user) (\<lambda>subject.
       let claims = AList.update ''sub'' (JStr subject) claims0 in
       if ''openid'' \<notin> set scopes then Inr [(''sub'', JStr subject)]
       else Inr (filter (\<lambda>(key, _). key \<in> set (allowed_claims scopes)) claims))))"

subsection \<open>Lemmas\<close>

lemma subject_for_Inr: "subject_for p user = Inr s \<longleftrightarrow> ua_subject (pr_users p) user = Inr s \<and> s \<noteq> []"
  by (auto simp: subject_for_def res_bind_Inr)

lemma mk_provider_Inr:
  assumes "mk_provider config clients users keys cl al il ar = Inr p"
  shows "1 \<le> pr_code_lifetime p \<and> pr_code_lifetime p \<le> 600 \<and> 1 \<le> pr_access_token_lifetime p
    \<and> pr_access_token_lifetime p \<le> 3600 \<and> 1 \<le> pr_id_token_lifetime p \<and> pr_id_token_lifetime p \<le> 3600
    \<and> pr_clients p = fold (\<lambda>c. AList.update (oc_client_id c) c) clients []
    \<and> length (pr_clients p) = length clients \<and> pr_clients p \<noteq> [] \<and> \<not> ar
    \<and> pr_config p = config \<and> pr_users p = users"
  using assms unfolding mk_provider_def by (auto simp: Let_def split: if_splits)

lemma claims_for_Inr:
  assumes "claims_for p user scope = Inr cs"
  shows "\<exists>scopes subject. scope_tuple scope = Inr scopes \<and> subject_for p user = Inr subject
    \<and> map_of cs ''sub'' = Some (JStr subject) \<and> fst ` set cs \<subseteq> set (allowed_claims scopes)
    \<and> (''openid'' \<notin> set scopes \<longrightarrow> cs = [(''sub'', JStr subject)])"
proof -
  obtain scopes claims0 subject where parts: "scope_tuple scope = Inr scopes"
      "ua_claims (pr_users p) user scopes = Inr claims0" "subject_for p user = Inr subject"
    and cs: "cs = (if ''openid'' \<notin> set scopes then [(''sub'', JStr subject)]
      else filter (\<lambda>(key, _). key \<in> set (allowed_claims scopes)) (AList.update ''sub'' (JStr subject) claims0))"
    using assms by (auto simp: claims_for_def res_bind_Inr Let_def split: if_splits)
  have sub: "''sub'' \<in> set (allowed_claims scopes)" by (simp add: allowed_claims_def)
  have "map_of (filter (\<lambda>(key, _). key \<in> set (allowed_claims scopes)) d) k = map_of d k"
    if "k \<in> set (allowed_claims scopes)" for d :: json_dict and k
    using that by (induction d) auto
  then have "map_of cs ''sub'' = Some (JStr subject)"
    using sub by (simp add: cs dict_simps)
  moreover have "fst ` set cs \<subseteq> set (allowed_claims scopes)" using sub by (auto simp: cs)
  ultimately show ?thesis using parts by (auto simp: cs)
qed

end
