(* ===== verification/Http.thy ===== *)
theory Http
  imports PyValues
begin

section \<open>Requests, responses and handlers\<close>

text \<open>
  What the two FastAPI adapters use of Starlette: a request as the values its accessors return, and
  a response as the values its constructors take. Reading and parsing the message is Starlette's,
  so \<open>rq_json\<close> is the outcome of \<open>request.json()\<close> and \<open>rq_query\<close> the items of \<open>query_params\<close>.
  A handler is an operation of the whole state that returns a response or raises; an
  \<open>HTTPException\<close> becomes the response it names, any other exception a server error.
\<close>

record http_request =
  rq_method :: string
  rq_path :: string
  rq_query_string :: string
  rq_query :: "(string \<times> string) list"
  rq_headers :: "string \<Rightarrow> string option"
  rq_cookies :: "string \<Rightarrow> string option"
  rq_body :: bytes
  rq_json :: "json result"

text \<open>\<open>query_params.get\<close>: the last value of a repeated parameter.\<close>

definition query_get :: "http_request \<Rightarrow> string \<Rightarrow> string option" where
  "query_get rq k = map_of (rev (rq_query rq)) k"

record http_cookie =
  ck_key :: string
  ck_value :: string
  ck_max_age :: "int option"
  ck_path :: string
  ck_secure :: bool
  ck_httponly :: bool
  ck_samesite :: string

datatype http_body = NoBody | JsonBody json | TextBody string | BytesBody bytes

record http_response =
  rs_status :: nat
  rs_body :: http_body
  rs_headers :: "(string \<times> string) list"
  rs_location :: "string option"
  rs_cookies :: "http_cookie list"

definition json_response :: "nat \<Rightarrow> (string \<times> string) list \<Rightarrow> json \<Rightarrow> http_response" where
  "json_response status headers v =
     \<lparr>rs_status = status, rs_body = JsonBody v, rs_headers = headers, rs_location = None, rs_cookies = []\<rparr>"

definition redirect_response :: "nat \<Rightarrow> string \<Rightarrow> http_response" where
  "redirect_response status url =
     \<lparr>rs_status = status, rs_body = NoBody, rs_headers = [], rs_location = Some url, rs_cookies = []\<rparr>"

definition empty_response :: "nat \<Rightarrow> (string \<times> string) list \<Rightarrow> http_response" where
  "empty_response status headers =
     \<lparr>rs_status = status, rs_body = NoBody, rs_headers = headers, rs_location = None, rs_cookies = []\<rparr>"

subsection \<open>Exceptions\<close>

text \<open>\<open>str(error)\<close>.\<close>

fun exn_text :: "exn \<Rightarrow> string" where
  "exn_text (ValueError m) = m"
| "exn_text (TypeError m) = m"
| "exn_text (AttributeError m) = m"
| "exn_text OverflowError = ''Python int too large to convert to SQLite INTEGER''"
| "exn_text (RuntimeError m) = m"
| "exn_text (ChallengeNotFound m) = m"
| "exn_text (CredentialNotFound m) = m"
| "exn_text (CredentialMutationDenied m) = m"
| "exn_text (UserHandleMismatch m) = m"
| "exn_text (PasskeyUserConflict m) = m"
| "exn_text (PasskeyCredentialConflict m) = m"
| "exn_text (CredentialCounterConflict m) = m"
| "exn_text (EnrollmentCapabilityNotFound m) = m"
| "exn_text (OIDCConfigurationError m) = m"
| "exn_text (OIDCProtocolError m) = m"
| "exn_text (PermissionError m) = m"
| "exn_text (IntegrityError m) = m"
| "exn_text (OperationalError m) = m"
| "exn_text (WebAuthnException m) = m"
| "exn_text (SQLiteSchemaError m) = m"
| "exn_text (UnsupportedSQLiteSchema m) = m"
| "exn_text (HTTPException _ m _) = m"
| "exn_text (OAuth2Error m _ _) = m"
| "exn_text (HostError m) = m"
| "exn_text (KeyError m) = m"
| "exn_text (AssertionError m) = m"

text \<open>\<open>try: f except: h\<close>, where \<open>h\<close> raises again what it does not handle.\<close>

definition op_try :: "('s, 'a) op \<Rightarrow> (exn \<Rightarrow> ('s, 'a) op) \<Rightarrow> ('s, 'a) op" where
  "op_try f h s = (case f s of (Inl e, s') \<Rightarrow> h e s' | (Inr a, s') \<Rightarrow> (Inr a, s'))"

definition raise_op :: "exn \<Rightarrow> ('s, 'a) op" where
  "raise_op e s = (Inl e, s)"

definition return_op :: "'a \<Rightarrow> ('s, 'a) op" where
  "return_op a s = (Inr a, s)"

lemma op_bind_eq_Inr:
  "op_bind f g s = (Inr b, s') \<longleftrightarrow> (\<exists>a t. f s = (Inr a, t) \<and> g a t = (Inr b, s'))"
  by (auto simp: op_bind_def split: prod.splits sum.splits)

lemma op_simps [simp]:
  "raise_op e s = (Inl e, s)" "return_op a s = (Inr a, s)"
  "op_bind (return_op a) g = g a" "op_bind (raise_op e) g = raise_op e"
  by (auto simp: raise_op_def return_op_def op_bind_def fun_eq_iff)

text \<open>Statements one after the other, until one raises.\<close>

fun run_all :: "('s, unit) op list \<Rightarrow> ('s, unit) op" where
  "run_all [] = return_op ()"
| "run_all (f # fs) = op_bind f (\<lambda>_. run_all fs)"

lemma run_all_Cons_Inr:
  "run_all (f # fs) s = (Inr (), s') \<longleftrightarrow> (\<exists>t. f s = (Inr (), t) \<and> run_all fs t = (Inr (), s'))"
  by (auto simp: op_bind_eq_Inr)

lemma run_all_Nil_Inr: "run_all [] s = (Inr (), s') \<longleftrightarrow> s' = s"
  by (auto simp: return_op_def)

text \<open>The status that the framework answers with.\<close>

fun response_status :: "http_response result \<Rightarrow> nat" where
  "response_status (Inr r) = rs_status r"
| "response_status (Inl (HTTPException status _ _)) = status"
| "response_status (Inl _) = 500"

end
