(* ===== verification/UrlQuery.thy ===== *)
theory UrlQuery
  imports Json Url Base64
begin

section \<open>Query strings and forms (\<open>urllib.parse\<close>)\<close>

text \<open>
  \<open>parse_qs\<close> with \<open>keep_blank_values=True\<close> and \<open>urlencode\<close> with \<open>doseq=True\<close>, and strict UTF-8
  decoding. Strings are Latin-1 here: a text that decodes to a code point from 256 on, or that
  Python would decode with a replacement character, has no place in the model, and decoding it is
  \<open>None\<close>.
\<close>

subsection \<open>UTF-8\<close>

fun utf8_decode :: "bytes \<Rightarrow> string option" where
  "utf8_decode [] = Some []"
| "utf8_decode (b # bs) =
     (if unat b < 128 then map_option ((#) (char_of (unat b))) (utf8_decode bs)
      else if unat b = 194 \<or> unat b = 195 then
        (case bs of
           c # cs \<Rightarrow>
             if 128 \<le> unat c \<and> unat c < 192
             then map_option ((#) (char_of ((unat b - 192) * 64 + (unat c - 128)))) (utf8_decode cs)
             else None
         | [] \<Rightarrow> None)
      else None)"

lemma utf8_decode_char: "utf8_decode (utf8_char c @ bs) = map_option ((#) c) (utf8_decode bs)"
proof -
  define n where "n = (of_char c :: nat)"
  have c: "c = char_of n" and n: "n < 256" by (simp_all add: n_def of_char_less_256)
  have u: "unat (of_nat k :: byte) = k" if "k < 256" for k
    using that by (simp add: unat_of_nat)
  show ?thesis
  proof (cases "n < 128")
    case True
    then show ?thesis using u [of n] by (simp add: utf8_char_def Let_def n_def [symmetric]) (simp add: c)
  next
    case False
    define q r where "q = n div 64" and "r = n mod 64"
    have nqr: "n = q * 64 + r" "r < 64" "q = 2 \<or> q = 3"
      using False n by (auto simp: q_def r_def)
    have "unat (of_nat (192 + q) :: byte) = 192 + q" by (rule u) (use nqr in auto)
    moreover have "unat (of_nat (128 + r) :: byte) = 128 + r" by (rule u) (use nqr in auto)
    ultimately show ?thesis
      using False nqr by (simp add: utf8_char_def Let_def n_def [symmetric] q_def [symmetric] r_def [symmetric])
        (auto simp: c)
  qed
qed

lemma utf8_roundtrip: "utf8_decode (utf8_encode s) = Some s"
  by (induction s) (simp_all add: utf8_encode_def utf8_decode_char)

subsection \<open>Percent encoding\<close>

definition hex_upper :: "nat \<Rightarrow> char" where
  "hex_upper n = (if n < 10 then char_of (48 + n) else char_of (55 + n))"

definition unreserved :: "char \<Rightarrow> bool" where
  "unreserved c \<longleftrightarrow> ascii_alpha c \<or> ascii_digit c \<or> c \<in> set ''_.-~''"

definition quote_byte :: "byte \<Rightarrow> string" where
  "quote_byte b =
     (let n = unat b in
      if unreserved (char_of n) then [char_of n] else [CHR ''%'', hex_upper (n div 16), hex_upper (n mod 16)])"

definition quote_plus :: "string \<Rightarrow> string" where
  "quote_plus s = concat (map (\<lambda>c. if c = CHR '' '' then ''+'' else concat (map quote_byte (utf8_char c))) s)"

fun unquote_bytes :: "string \<Rightarrow> bytes" where
  "unquote_bytes [] = []"
| "unquote_bytes (c # cs) =
     (if c \<noteq> CHR ''%'' then utf8_char c @ unquote_bytes cs
      else (case cs of
          a # b # rest \<Rightarrow>
            (case (hex_val a, hex_val b) of
               (Some x, Some y) \<Rightarrow> of_nat (x * 16 + y) # unquote_bytes rest
             | _ \<Rightarrow> 37 # unquote_bytes cs)
        | _ \<Rightarrow> 37 # unquote_bytes cs))"

definition plus_to_space :: "string \<Rightarrow> string" where
  "plus_to_space = map (\<lambda>c. if c = CHR ''+'' then CHR '' '' else c)"

definition unquote_plus :: "string \<Rightarrow> string option" where
  "unquote_plus s = utf8_decode (unquote_bytes (plus_to_space s))"

lemma hex_upper: "n < 16 \<Longrightarrow> hex_val (hex_upper n) = Some n \<and> hex_upper n \<notin> set ''+&=%''"
proof -
  assume n: "n < 16"
  define k where "k = (if n < 10 then 48 + n else 55 + n)"
  have k: "k < 128" "hex_upper n = char_of k" and oc: "(of_char (hex_upper n) :: nat) = k"
    using n by (auto simp: k_def hex_upper_def)
  have "hex_val (hex_upper n) = Some n" using n by (auto simp: hex_val_def oc k_def Let_def)
  moreover have "k \<notin> {43, 38, 61, 37}" using n by (auto simp: k_def)
  then have "hex_upper n \<notin> set ''+&=%''" using oc by auto
  ultimately show ?thesis by blast
qed

lemma unreserved_facts:
  assumes "unreserved c"
  shows "(of_char c :: nat) < 128" "c \<notin> set ''+&=%''"
  using assms by (auto simp: unreserved_def ascii_alpha_def ascii_digit_def Let_def)

lemma quote_byte_chars: "set (quote_byte b) \<inter> set ''+&='' = {}"
proof -
  have h: "unat b div 16 < 16" "unat b mod 16 < 16" using unat_byte_less [of b] by auto
  show ?thesis using hex_upper [OF h(1)] hex_upper [OF h(2)] unreserved_facts(2) [of "char_of (unat b)"]
    by (auto simp: quote_byte_def Let_def)
qed

lemma unquote_byte: "unquote_bytes (quote_byte b @ t) = b # unquote_bytes t"
proof -
  have b: "unat b < 256" by (rule unat_byte_less)
  show ?thesis
  proof (cases "unreserved (char_of (unat b))")
    case True
    then have "unat b < 128" "char_of (unat b) \<noteq> CHR ''%''" using unreserved_facts [OF True] b by auto
    then show ?thesis using True b by (simp add: quote_byte_def utf8_char_def Let_def)
  next
    case False
    have "hex_val (hex_upper (unat b div 16)) = Some (unat b div 16)"
      "hex_val (hex_upper (unat b mod 16)) = Some (unat b mod 16)" using b hex_upper by auto
    then show ?thesis using False by (simp add: quote_byte_def Let_def)
  qed
qed

lemma unquote_bytes_quoted: "unquote_bytes (concat (map quote_byte bs) @ t) = bs @ unquote_bytes t"
  by (induction bs) (simp_all add: unquote_byte)

lemma plus_to_space_quoted: "plus_to_space (concat (map quote_byte bs)) = concat (map quote_byte bs)"
  using quote_byte_chars by (induction bs) (auto simp: plus_to_space_def intro!: map_idI)

lemma quote_plus_chars: "c \<in> set (quote_plus s) \<Longrightarrow> c \<noteq> CHR ''&'' \<and> c \<noteq> CHR ''=''"
  using quote_byte_chars by (fastforce simp: quote_plus_def split: if_splits)

lemma unquote_quote_plus: "unquote_plus (quote_plus s) = Some s"
proof -
  have "unquote_bytes (plus_to_space (quote_plus s)) = utf8_encode s"
  proof (induction s)
    case (Cons c s)
    have step: "plus_to_space (quote_plus (c # s)) =
        (if c = CHR '' '' then '' '' else concat (map quote_byte (utf8_char c))) @ plus_to_space (quote_plus s)"
      using plus_to_space_quoted [of "utf8_char c"] by (simp add: quote_plus_def plus_to_space_def)
    show ?case
      unfolding step using Cons by (simp add: unquote_bytes_quoted utf8_encode_def utf8_char_def)
  qed (simp add: quote_plus_def plus_to_space_def utf8_encode_def)
  then show ?thesis by (simp add: unquote_plus_def utf8_roundtrip)
qed

subsection \<open>\<open>parse_qs\<close> and \<open>urlencode\<close>\<close>

definition parse_pair :: "string \<Rightarrow> (string \<times> string) option" where
  "parse_pair s =
     (case partition_char (CHR ''='') s of (name, _, v) \<Rightarrow>
        (case (unquote_plus name, unquote_plus v) of (Some n, Some w) \<Rightarrow> Some (n, w) | _ \<Rightarrow> None))"

definition parse_qsl :: "string \<Rightarrow> (string \<times> string) list option" where
  "parse_qsl s = those (map parse_pair (filter (\<lambda>x. x \<noteq> []) (split_char (CHR ''&'') s)))"

text \<open>Values are grouped under their name, names in the order of their first occurrence.\<close>

definition add_value :: "string \<times> string \<Rightarrow> (string, string list) dict \<Rightarrow> (string, string list) dict" where
  "add_value p d = (case p of (k, v) \<Rightarrow>
     AList.update k ((case map_of d k of None \<Rightarrow> [] | Some vs \<Rightarrow> vs) @ [v]) d)"

definition group_values :: "(string \<times> string) list \<Rightarrow> (string, string list) dict" where
  "group_values ps = fold add_value ps []"

definition parse_qs :: "string \<Rightarrow> (string, string list) dict option" where
  "parse_qs s = map_option group_values (parse_qsl s)"

definition urlencode :: "(string, string list) dict \<Rightarrow> string" where
  "urlencode d = py_join ''&'' (concat (map (\<lambda>(k, vs). map (\<lambda>v. quote_plus k @ ''='' @ quote_plus v) vs) d))"

lemma split_char_absent: "c \<notin> set s \<Longrightarrow> split_char c s = [s]"
  by (induction s) auto

lemma split_char_append: "c \<notin> set s \<Longrightarrow> split_char c (s @ c # t) = s # split_char c t"
  by (induction s) auto

lemma split_char_join:
  "xs \<noteq> [] \<Longrightarrow> \<forall>x \<in> set xs. c \<notin> set x \<Longrightarrow> split_char c (py_join [c] xs) = xs"
proof (induction xs rule: induct_list012)
  case (3 x y zs)
  then show ?case by (simp add: split_char_append)
qed (simp_all add: split_char_absent)

lemma parse_pair_quoted: "parse_pair (quote_plus k @ CHR ''='' # quote_plus v) = Some (k, v)"
proof -
  have "CHR ''='' \<notin> set (quote_plus k)" using quote_plus_chars by blast
  then show ?thesis by (simp add: parse_pair_def partition_char_found unquote_quote_plus)
qed

lemma those_map_Some: "(\<And>x. x \<in> set xs \<Longrightarrow> f (g x) = Some x) \<Longrightarrow> those (map f (map g xs)) = Some xs"
  by (induction xs) simp_all

lemma add_values_same:
  "map_of d k = None \<Longrightarrow> fold add_value (map (Pair k) ws) (d @ [(k, us)]) = d @ [(k, us @ ws)]"
proof (induction ws arbitrary: us)
  case (Cons w ws)
  have "AList.update k vs (d @ [(k, us)]) = d @ [(k, vs)]" for vs
    using Cons.prems by (induction d) (auto split: if_splits)
  moreover have "map_of (d @ [(k, us)]) k = Some us" using Cons.prems by (simp add: map_add_Some_iff)
  ultimately show ?case using Cons by (simp add: add_value_def)
qed simp

lemma add_values_new:
  assumes "map_of d k = None" and "vs \<noteq> []"
  shows "fold add_value (map (Pair k) vs) d = d @ [(k, vs)]"
proof -
  obtain w ws where vs: "vs = w # ws" using assms(2) by (cases vs) auto
  have "AList.update k [w] d = d @ [(k, [w])]" using assms(1) by (induction d) (auto split: if_splits)
  then have "add_value (k, w) d = d @ [(k, [w])]" using assms(1) by (simp add: add_value_def)
  then show ?thesis using add_values_same [OF assms(1), of ws "[w]"] by (simp add: vs)
qed

lemma group_ungroup:
  assumes "dict_ok d" and "\<forall>(k, vs) \<in> set d. vs \<noteq> []"
  shows "group_values (concat (map (\<lambda>(k, vs). map (Pair k) vs) d)) = d"
proof -
  have "fold add_value (concat (map (\<lambda>(k, vs). map (Pair k) vs) d)) acc = acc @ d"
    if "dict_ok (acc @ d)" for acc
    using that assms(2)
  proof (induction d arbitrary: acc)
    case (Cons p d)
    obtain k vs where p: "p = (k, vs)" by (cases p)
    have "map_of acc k = None" using Cons.prems(1) by (auto simp: p map_of_eq_None_iff)
    then have "fold add_value (map (Pair k) vs) acc = acc @ [(k, vs)]"
      using Cons.prems(2) by (intro add_values_new) (auto simp: p)
    then show ?case using Cons.IH [of "acc @ [(k, vs)]"] Cons.prems by (simp add: p)
  qed simp
  then show ?thesis using assms(1) by (simp add: group_values_def)
qed

lemma parse_urlencode:
  assumes "dict_ok d" and "\<forall>(k, vs) \<in> set d. vs \<noteq> []"
  shows "parse_qs (urlencode d) = Some d"
proof -
  define ps where "ps = concat (map (\<lambda>(k, vs). map (Pair k) vs) d)"
  define enc where "enc = (\<lambda>(k, v). quote_plus k @ ''='' @ quote_plus v)"
  have "concat (map (\<lambda>(k, vs). map (\<lambda>v. quote_plus k @ ''='' @ quote_plus v) vs) d) = map enc ps"
    by (auto simp: ps_def enc_def map_concat intro!: arg_cong [where f = concat])
  then have u: "urlencode d = py_join ''&'' (map enc ps)" by (simp add: urlencode_def)
  have encs: "CHR ''&'' \<notin> set (enc p)" "enc p \<noteq> []" "parse_pair (enc p) = Some p" for p
    using quote_plus_chars parse_pair_quoted by (cases p; auto simp: enc_def)+
  have "filter (\<lambda>x. x \<noteq> []) (split_char (CHR ''&'') (urlencode d)) = map enc ps"
  proof (cases "ps = []")
    case False
    then have "split_char (CHR ''&'') (urlencode d) = map enc ps"
      unfolding u by (intro split_char_join) (auto simp: encs)
    then show ?thesis using encs(2) by (simp add: filter_id_conv)
  qed (simp add: u)
  then have "parse_qsl (urlencode d) = Some ps"
    by (simp add: parse_qsl_def those_map_Some encs(3) del: map_map)
  then show ?thesis using group_ungroup [OF assms] by (simp add: parse_qs_def ps_def)
qed

end
