(* ===== verification/OidcAdapter.thy ===== *)
theory OidcAdapter
  imports OidcProvider Http UrlQuery
begin

section \<open>The FastAPI adapter of the provider (\<open>oidc_fastapi.py\<close>)\<close>

text \<open>
  The router, the grant and the server subclass of the package. Authlib is a parameter: a record of
  the functions of it that the package calls, each an operation that may raise, given the methods
  of the package that it calls back. The hooks of the host are parameters too. The state is that of
  the provider's stores and the host's own state \<open>'h\<close>. An \<open>OAuth2Error\<close> carries its error
  code, its redirect URI and its state parameter; descriptions are left out.
\<close>

subsection \<open>Requests\<close>

type_synonym form = "(string, string list) dict"

definition query_values :: "http_request \<Rightarrow> form" where
  "query_values rq = group_values (rq_query rq)"

definition invalid_request :: "string option \<Rightarrow> exn" where
  "invalid_request redirect = OAuth2Error ''invalid_request'' redirect None"

definition invalid_grant :: exn where
  "invalid_grant = OAuth2Error ''invalid_grant'' None None"

definition login_required :: "string \<Rightarrow> exn" where
  "login_required redirect = OAuth2Error ''login_required'' (Some redirect) None"

text \<open>
  Text outside the strings of the model is refused like bytes that are not UTF-8; where the parameters
  decode to such text, the outcome is an error of the model.
\<close>

definition form_values :: "bytes \<Rightarrow> form result" where
  "form_values raw =
     (case utf8_decode raw of
        None \<Rightarrow> Inl (invalid_request None)
      | Some t \<Rightarrow>
          (case parse_qs t of None \<Rightarrow> Inl (HostError ''form outside the model'') | Some d \<Rightarrow> Inr d))"

definition payload_data :: "form \<Rightarrow> (string, string) dict" where
  "payload_data values = map (\<lambda>(k, vs). (k, hd vs)) (filter (\<lambda>(k, vs). vs \<noteq> []) values)"

definition payload_get :: "form \<Rightarrow> string \<Rightarrow> string option" where
  "payload_get values k = map_of (payload_data values) k"

definition payload_response_type :: "form \<Rightarrow> string option" where
  "payload_response_type values =
     (case payload_get values ''response_type'' of
        None \<Rightarrow> None
      | Some v \<Rightarrow> if CHR '' '' \<in> set v then Some (py_join '' '' (sort (py_split v))) else Some v)"

text \<open>\<open>values.get(name, [default])[0]\<close>; the lists of a parsed form are not empty.\<close>

definition first_value :: "form \<Rightarrow> string \<Rightarrow> string option" where
  "first_value values k = (case map_of values k of None \<Rightarrow> None | Some vs \<Rightarrow> Some (hd vs))"

subsection \<open>Paths\<close>

record oidc_paths =
  op_discovery :: string
  op_authorization :: string
  op_token :: string
  op_jwks :: string
  op_userinfo :: "string option"
  op_revocation :: "string option"

definition url_path :: "string \<Rightarrow> string result" where
  "url_path url = res_bind (urlsplit url) (\<lambda>u. Inr (if su_path u = [] then ''/'' else su_path u))"

fun optional_path :: "string option \<Rightarrow> string option result" where
  "optional_path None = Inr None"
| "optional_path (Some url) = res_bind (url_path url) (\<lambda>p. Inr (Some p))"

definition oidc_paths_of :: "'u oidc_provider \<Rightarrow> oidc_paths result" where
  "oidc_paths_of p =
     (let config = pr_config p in
     res_bind (url_path (discovery_endpoint config)) (\<lambda>discovery.
     res_bind (url_path (op_authorization_endpoint config)) (\<lambda>authorization.
     res_bind (url_path (op_token_endpoint config)) (\<lambda>token.
     res_bind (url_path (op_jwks_uri config)) (\<lambda>jwks.
     res_bind (optional_path (op_userinfo_endpoint config)) (\<lambda>userinfo.
     res_bind (optional_path (op_revocation_endpoint config)) (\<lambda>revocation.
     Inr \<lparr>op_discovery = discovery, op_authorization = authorization, op_token = token, op_jwks = jwks,
          op_userinfo = userinfo, op_revocation = revocation\<rparr>)))))))"

definition oidc_routes :: "oidc_paths \<Rightarrow> (string list \<times> string) list" where
  "oidc_routes p =
     [([''GET''], op_discovery p), ([''GET''], op_authorization p), ([''POST''], op_token p), ([''GET''], op_jwks p)]
     @ (case op_userinfo p of None \<Rightarrow> [] | Some u \<Rightarrow> [([''GET'', ''POST''], u)])
     @ (case op_revocation p of None \<Rightarrow> [] | Some r \<Rightarrow> [([''POST''], r)])"

definition same_origin_path :: "string \<Rightarrow> bool result" where
  "same_origin_path v =
     (if \<not> py_startswith v ''/'' \<or> py_startswith v ''//'' then Inr False
      else if CHR 0x5C \<in> set v \<or> CHR '' '' \<in> set v then Inr False
      else res_bind (urlsplit v) (\<lambda>u. Inr (su_scheme u = [] \<and> su_netloc u = [] \<and> su_fragment u = [])))"

definition return_to :: "http_request \<Rightarrow> string" where
  "return_to rq =
     (if \<not> py_startswith (rq_path rq) ''/'' \<or> py_startswith (rq_path rq) ''//'' then ''/''
      else if rq_query_string rq \<noteq> [] then rq_path rq @ ''?'' @ rq_query_string rq
      else rq_path rq)"

text \<open>A query outside the strings of the model is an error of the model.\<close>

definition login_redirect :: "string \<Rightarrow> string \<Rightarrow> http_response result" where
  "login_redirect login_url next_path =
     res_bind (urlsplit login_url) (\<lambda>u.
       case parse_qs (su_query u) of
         None \<Rightarrow> Inl (HostError ''query outside the model'')
       | Some existing \<Rightarrow>
           (let query = urlencode (AList.update ''next'' [next_path] existing)
            in Inr (redirect_response 302 (su_path u @ (if query \<noteq> [] then ''?'' @ query else [])))))"

subsection \<open>Signing keys in memory\<close>

text \<open>Keys are joserfc's; \<open>is_private\<close> is a parameter, and \<open>rotate\<close> is given the key it generates.\<close>

definition mk_signing_keys :: "('k \<Rightarrow> bool) \<Rightarrow> 'k list \<Rightarrow> 'k list result" where
  "mk_signing_keys is_private keys =
     (if keys = [] then Inl (ValueError ''at least one RSA signing key is required'')
      else if \<not> list_all is_private keys then Inl (ValueError ''signing key store requires private RSA keys'')
      else Inr keys)"

definition current_private_key :: "'k list \<Rightarrow> 'k" where
  "current_private_key keys = hd keys"

definition rotate_keys :: "'k \<Rightarrow> 'k list \<Rightarrow> 'k list" where
  "rotate_keys key keys = key # keys"

definition public_jwks :: "('k \<Rightarrow> json) \<Rightarrow> 'k list \<Rightarrow> json" where
  "public_jwks public keys = JObj [(''keys'', JArr (map public keys))]"

subsection \<open>Responses\<close>

definition oauth_json_error :: "(string \<times> string) list \<Rightarrow> string \<Rightarrow> nat \<Rightarrow> bool \<Rightarrow> http_response" where
  "oauth_json_error json_headers err status www =
     json_response status (json_headers @ (if www
       then [(''WWW-Authenticate'', ''Bearer error='' @ [CHR 0x22] @ err @ [CHR 0x22])] else []))
       (JObj [(''error'', JStr err)])"

subsection \<open>The authorization code grant\<close>

definition lift_result :: "'a result \<Rightarrow> ('s, 'a) op" where
  "lift_result r s = (r, s)"

text \<open>\<open>validate_authorization_request\<close>; \<open>inherited\<close> is Authlib's method of that name.\<close>

definition validate_authorization_request :: "form \<Rightarrow> ('s, string) op \<Rightarrow> ('s, string) op" where
  "validate_authorization_request values inherited =
     op_bind inherited (\<lambda>redirect_uri. lift_result
       (if \<not> truthy (payload_get values ''scope'')
           \<or> ''openid'' \<notin> set (py_split (the (payload_get values ''scope'')))
        then Inl (invalid_request (Some redirect_uri))
        else if payload_get values ''code_challenge_method'' \<noteq> Some ''S256''
        then Inl (invalid_request (Some redirect_uri))
        else if \<not> truthy (payload_get values ''code_challenge'') then Inl (invalid_request (Some redirect_uri))
        else if \<not> truthy (payload_get values ''nonce'') then Inl (invalid_request (Some redirect_uri))
        else Inr redirect_uri))"

definition required_value :: "form \<Rightarrow> string \<Rightarrow> string result" where
  "required_value values k = (case payload_get values k of None \<Rightarrow> Inl (KeyError k) | Some v \<Rightarrow> Inr v)"

definition on_codes :: "('u mem_codes, 'a) op \<Rightarrow> ('u oidc_state, 'a) op" where
  "on_codes f st = (case f (os_codes st) of (r, c) \<Rightarrow> (r, st\<lparr>os_codes := c\<rparr>))"

definition on_tokens :: "('u token_dict, 'a) op \<Rightarrow> ('u oidc_state, 'a) op" where
  "on_tokens f st = (case f (os_tokens st) of (r, t) \<Rightarrow> (r, st\<lparr>os_tokens := t\<rparr>))"

text \<open>The item that \<open>save_authorization_code\<close> issues for the user and the request.\<close>

definition new_code ::
  "'u oidc_provider \<Rightarrow> int \<Rightarrow> string \<Rightarrow> oidc_client \<Rightarrow> 'u option \<Rightarrow> string option \<Rightarrow> string \<Rightarrow> form
   \<Rightarrow> 'u auth_code result" where
  "new_code p now code client user redirect_uri scope values =
     (case user of
        None \<Rightarrow> Inl invalid_grant
      | Some u \<Rightarrow>
          if \<not> is_active p u then Inl invalid_grant
          else res_bind (subject_for p u) (\<lambda>subject.
            let auth_time = (case ua_authentication_time (pr_users p) u of None \<Rightarrow> now | Some t \<Rightarrow> t);
                uri = (if truthy redirect_uri then the redirect_uri
                  else case payload_get values ''redirect_uri'' of None \<Rightarrow> [] | Some r \<Rightarrow> r)
            in res_bind (required_value values ''nonce'') (\<lambda>nonce.
               res_bind (required_value values ''code_challenge'') (\<lambda>challenge.
               issue_code (Some code) [] (oc_client_id client) uri subject (py_split scope) nonce challenge ''S256''
                 now (pr_code_lifetime p) (Some auth_time) (ua_acr (pr_users p) u) (ua_amr (pr_users p) u) (Some u)))))"

definition save_authorization_code ::
  "'u oidc_provider \<Rightarrow> int \<Rightarrow> string \<Rightarrow> oidc_client \<Rightarrow> 'u option \<Rightarrow> string option \<Rightarrow> string \<Rightarrow> form
   \<Rightarrow> ('u oidc_state, unit) op" where
  "save_authorization_code p now code client user redirect_uri scope values st =
     (case new_code p now code client user redirect_uri scope values of
        Inl e \<Rightarrow> (Inl e, st)
      | Inr item \<Rightarrow> on_codes (mem_save_code now item) st)"

definition query_authorization_code ::
  "int \<Rightarrow> string \<Rightarrow> oidc_client \<Rightarrow> ('u oidc_state, 'u auth_code option) op" where
  "query_authorization_code now code client =
     on_codes (\<lambda>c. case mem_get_code now code (oc_client_id client) c of (r, c') \<Rightarrow> (Inr r, c'))"

definition authenticate_user :: "'u oidc_provider \<Rightarrow> 'u auth_code \<Rightarrow> 'u option result" where
  "authenticate_user p code = resolve_subject p (ac_subject code) (ac_user code)"

definition exists_nonce :: "int \<Rightarrow> form \<Rightarrow> string \<Rightarrow> ('u oidc_state, bool) op" where
  "exists_nonce now values nonce =
     on_codes (\<lambda>c. case mem_has_nonce (case payload_get values ''client_id'' of None \<Rightarrow> [] | Some i \<Rightarrow> i) nonce now c of
       (r, c') \<Rightarrow> (Inr r, c'))"

definition client_claims :: "'u oidc_provider \<Rightarrow> int \<Rightarrow> oidc_client \<Rightarrow> json_dict" where
  "client_claims p now client =
     [(''iss'', JStr (op_issuer (pr_config p))), (''aud'', JStr (oc_client_id client)),
      (''exp'', JInt (now + pr_id_token_lifetime p))]"

definition save_token ::
  "'u oidc_provider \<Rightarrow> py_float \<Rightarrow> int \<Rightarrow> json_dict \<Rightarrow> oidc_client option \<Rightarrow> 'u option
   \<Rightarrow> ('u oidc_state, unit) op" where
  "save_token p py now token client user st =
     (case (client, user) of
        (Some c, Some u) \<Rightarrow>
          (case subject_for p u of
             Inl e \<Rightarrow> (Inl e, st)
           | Inr subject \<Rightarrow>
               map_prod (map_sum id (\<lambda>_. ())) id
                 (on_tokens (mem_save_token py token (oc_client_id c) subject now (Some u) (Some c)) st))
      | _ \<Rightarrow> (Inl invalid_grant, st))"

text \<open>
  \<open>generate\<close> is Authlib's token generator. A protocol or permission error of \<open>consume\<close> becomes an
  invalid grant; any other error passes.
\<close>

fun grant_error :: "exn \<Rightarrow> exn" where
  "grant_error (OIDCProtocolError _) = invalid_grant"
| "grant_error (PermissionError _) = invalid_grant"
| "grant_error e = e"

definition create_token_response ::
  "'u oidc_provider \<Rightarrow> py_float \<Rightarrow> (oidc_client \<Rightarrow> 'u \<Rightarrow> string \<Rightarrow> int \<Rightarrow> json_dict result) \<Rightarrow> int
   \<Rightarrow> oidc_client option \<Rightarrow> 'u auth_code option \<Rightarrow> form \<Rightarrow> ('u oidc_state, json_dict) op" where
  "create_token_response p py generate now client code values =
     (case code of
        None \<Rightarrow> raise_op invalid_grant
      | Some ac \<Rightarrow> case client of
          None \<Rightarrow> raise_op invalid_grant
        | Some c \<Rightarrow> case payload_get values ''code_verifier'' of
            None \<Rightarrow> raise_op invalid_grant
          | Some verifier \<Rightarrow>
              op_bind (op_try (on_codes (mem_consume_code (ac_value ac) (oc_client_id c)
                  (payload_get values ''redirect_uri'') verifier now))
                (\<lambda>e. raise_op (grant_error e))) (\<lambda>consumed.
              op_bind (\<lambda>st. (authenticate_user p consumed, st)) (\<lambda>found.
              case found of
                None \<Rightarrow> raise_op invalid_grant
              | Some user \<Rightarrow>
                  if \<not> is_active p user then raise_op invalid_grant
                  else op_bind (\<lambda>st. (generate c user (get_scope consumed) (pr_access_token_lifetime p), st)) (\<lambda>token.
                    op_bind (save_token p py now token (Some c) (Some user)) (\<lambda>_.
                    return_op token)))))"

subsection \<open>The host's hooks and Authlib\<close>

text \<open>
  A callback of the host is an operation of its own state. The methods of Authlib that the handlers
  call are the fields of \<open>authlib\<close>; those that call back into the package take the method they
  call; the checks of its methods are not modelled. \<open>al_authenticate\<close> is \<open>validate_token_request\<close> with the request's client and code,
  \<open>al_process_token\<close> the hook that adds the ID token, \<open>al_error_response\<close> is
  \<open>handle_error_response\<close> and \<open>al_redirect\<close> the inherited \<open>validate_authorization_request\<close>.
\<close>

record 'u consent_context =
  cc_client :: oidc_client
  cc_scope :: "string list"
  cc_redirect_uri :: string
  cc_state :: "string option"
  cc_nonce :: string
  cc_prompt :: "string option"
  cc_user :: 'u

record ('u, 'h) provider_hooks =
  ph_session_user :: "http_request \<Rightarrow> ('h, 'u option) op"
  ph_consent :: "http_request \<Rightarrow> 'u consent_context \<Rightarrow> ('h, bool) op"
  ph_reauthenticate :: "(http_request \<Rightarrow> ('h, 'u option) op) option"
  ph_login_url :: "string option"

definition mk_provider_hooks :: "('u, 'h) provider_hooks \<Rightarrow> ('u, 'h) provider_hooks result" where
  "mk_provider_hooks hooks =
     (case ph_login_url hooks of
        None \<Rightarrow> Inr hooks
      | Some url \<Rightarrow> res_bind (same_origin_path url) (\<lambda>ok.
          if \<not> ok then Inl (ValueError ''login_url must be an application-relative path'') else Inr hooks))"

record consent_grant =
  cg_client :: oidc_client
  cg_redirect_uri :: string
  cg_scope :: string

record 'u authlib =
  al_json_headers :: "(string \<times> string) list"
  al_token_headers :: "(string \<times> string) list"
  al_error_response :: "exn \<Rightarrow> http_response"
  al_redirect :: "(string \<Rightarrow> oidc_client option) \<Rightarrow> (string \<Rightarrow> ('u oidc_state, bool) op) \<Rightarrow> form
    \<Rightarrow> ('u oidc_state, string) op"
  al_consent_grant :: "('u oidc_state, string) op \<Rightarrow> (string \<Rightarrow> oidc_client option) \<Rightarrow> form \<Rightarrow> 'u option
    \<Rightarrow> ('u oidc_state, consent_grant) op"
  al_authorize :: "('u oidc_state, string) op \<Rightarrow> (string \<Rightarrow> 'u option \<Rightarrow> ('u oidc_state, unit) op) \<Rightarrow> form
    \<Rightarrow> consent_grant \<Rightarrow> 'u option \<Rightarrow> ('u oidc_state, http_response) op"
  al_authenticate :: "(string \<Rightarrow> oidc_client option)
    \<Rightarrow> (string \<Rightarrow> oidc_client \<Rightarrow> ('u oidc_state, 'u auth_code option) op)
    \<Rightarrow> http_request \<Rightarrow> form \<Rightarrow> ('u oidc_state, oidc_client option \<times> 'u auth_code option) op"
  al_generate :: "oidc_client \<Rightarrow> 'u \<Rightarrow> string \<Rightarrow> int \<Rightarrow> json_dict result"
  al_process_token :: "(oidc_client \<Rightarrow> json_dict) \<Rightarrow> ('u \<Rightarrow> string \<Rightarrow> json_dict result) \<Rightarrow> oidc_client option
    \<Rightarrow> json_dict \<Rightarrow> json_dict result"

definition generate_user_info :: "'u oidc_provider \<Rightarrow> 'u \<Rightarrow> string \<Rightarrow> json_dict result" where
  "generate_user_info p user scope = claims_for p user (ScopeText scope)"

definition on_provider :: "('u oidc_state, 'a) op \<Rightarrow> ('u oidc_state \<times> 'h, 'a) op" where
  "on_provider f st = (case f (fst st) of (r, s) \<Rightarrow> (r, (s, snd st)))"

definition on_host :: "('h, 'a) op \<Rightarrow> ('u oidc_state \<times> 'h, 'a) op" where
  "on_host f st = (case f (snd st) of (r, h) \<Rightarrow> (r, (fst st, h)))"

subsection \<open>The constructor of the router\<close>

record ('u, 'h) oidc_router =
  or_provider :: "'u oidc_provider"
  or_hooks :: "('u, 'h) provider_hooks"
  or_max_body_bytes :: int
  or_paths :: oidc_paths

definition mk_oidc_router ::
  "'u oidc_provider \<Rightarrow> ('u, 'h) provider_hooks \<Rightarrow> int \<Rightarrow> ('u, 'h) oidc_router result" where
  "mk_oidc_router p hooks max_body_bytes =
     (if \<not> pr_has_signing_keys p then Inl (ValueError ''OIDC provider requires a signing-key store'')
      else if max_body_bytes \<le> 0 then Inl (ValueError ''max_body_bytes must be positive'')
      else res_bind (oidc_paths_of p) (\<lambda>paths.
        Inr \<lparr>or_provider = p, or_hooks = hooks, or_max_body_bytes = max_body_bytes, or_paths = paths\<rparr>))"

subsection \<open>Discovery and keys\<close>

definition discovery :: "('u, 'h) oidc_router \<Rightarrow> 'u authlib \<Rightarrow> http_response" where
  "discovery r al =
     json_response 200 (al_json_headers al) (JObj (provider_metadata (pr_config (or_provider r))))"

definition jwks :: "('u, 'h) oidc_router \<Rightarrow> 'u authlib \<Rightarrow> json \<Rightarrow> http_response" where
  "jwks r al keys =
     (if \<not> pr_has_signing_keys (or_provider r) then json_response 503 [] (JObj [(''keys'', JArr [])])
      else json_response 200 (al_json_headers al) keys)"

subsection \<open>The authorization endpoint\<close>

definition prompt_words :: "form \<Rightarrow> string list" where
  "prompt_words values = py_split (case first_value values ''prompt'' of None \<Rightarrow> [] | Some v \<Rightarrow> v)"

definition requires_reauthentication :: "form \<Rightarrow> bool" where
  "requires_reauthentication values \<longleftrightarrow> ''login'' \<in> set (prompt_words values)"

definition prompt_none :: "form \<Rightarrow> bool" where
  "prompt_none values \<longleftrightarrow> ''none'' \<in> set (prompt_words values)"

definition validate_max_age :: "'u oidc_provider \<Rightarrow> int \<Rightarrow> form \<Rightarrow> 'u \<Rightarrow> string \<Rightarrow> unit result" where
  "validate_max_age p now values user redirect_uri =
     (case first_value values ''max_age'' of
        None \<Rightarrow> Inr ()
      | Some raw \<Rightarrow>
          (case py_int_text raw of
             Inl _ \<Rightarrow> Inl (invalid_request (Some redirect_uri))
           | Inr max_age \<Rightarrow>
               if max_age < 0 then Inl (invalid_request (Some redirect_uri))
               else (case ua_authentication_time (pr_users p) user of
                   None \<Rightarrow> Inl (login_required redirect_uri)
                 | Some t \<Rightarrow> if now - t > max_age then Inl (login_required redirect_uri) else Inr ())))"

fun with_state :: "string option \<Rightarrow> exn \<Rightarrow> exn" where
  "with_state state (OAuth2Error m redirect None) = OAuth2Error m redirect state"
| "with_state state e = e"

fun is_oauth_error :: "exn \<Rightarrow> bool" where
  "is_oauth_error (OAuth2Error _ _ _) = True"
| "is_oauth_error _ = False"

text \<open>The user the request is granted for, after a fresh authentication if the request asks for one.\<close>

definition confirmed_user ::
  "('u, 'h) oidc_router \<Rightarrow> http_request \<Rightarrow> form \<Rightarrow> 'u \<Rightarrow> string \<Rightarrow> ('u oidc_state \<times> 'h, 'u) op" where
  "confirmed_user r rq values session_user redirect_uri =
     (if \<not> requires_reauthentication values then return_op session_user
      else case ph_reauthenticate (or_hooks r) of
          None \<Rightarrow> raise_op (login_required redirect_uri)
        | Some reauthenticate \<Rightarrow>
            op_bind (on_host (reauthenticate rq)) (\<lambda>found.
            case found of
              None \<Rightarrow> raise_op (login_required redirect_uri)
            | Some user \<Rightarrow>
                if \<not> is_active (or_provider r) user then raise_op (login_required redirect_uri)
                else return_op user))"

definition consent_context_for :: "form \<Rightarrow> consent_grant \<Rightarrow> 'u \<Rightarrow> 'u consent_context result" where
  "consent_context_for values grant user =
     res_bind (required_value values ''nonce'') (\<lambda>nonce.
       Inr \<lparr>cc_client = cg_client grant, cc_scope = py_split (cg_scope grant),
            cc_redirect_uri = cg_redirect_uri grant, cc_state = payload_get values ''state'',
            cc_nonce = nonce, cc_prompt = payload_get values ''prompt'', cc_user = user\<rparr>)"

text \<open>The grant's \<open>validate_authorization_request\<close>, which looks up clients and nonces.\<close>

definition grant_validation ::
  "'u oidc_provider \<Rightarrow> 'u authlib \<Rightarrow> int \<Rightarrow> form \<Rightarrow> ('u oidc_state, string) op" where
  "grant_validation p al now values =
     validate_authorization_request values (al_redirect al (query_client p) (exists_nonce now values) values)"

text \<open>What follows the validation of the request by Authlib.\<close>

definition decide_grant ::
  "('u, 'h) oidc_router \<Rightarrow> 'u authlib \<Rightarrow> int \<Rightarrow> http_request \<Rightarrow> form \<Rightarrow> 'u option \<Rightarrow> consent_grant
   \<Rightarrow> ('u oidc_state \<times> 'h, http_response) op" where
  "decide_grant r al now rq values session_user grant =
     (let p = or_provider r in
      case session_user of
        None \<Rightarrow>
          if prompt_none values then raise_op (login_required (cg_redirect_uri grant))
          else if truthy (ph_login_url (or_hooks r))
          then lift_result (login_redirect (the (ph_login_url (or_hooks r))) (return_to rq))
          else return_op (oauth_json_error (al_json_headers al) ''login_required'' 401 False)
      | Some s \<Rightarrow>
          op_bind (confirmed_user r rq values s (cg_redirect_uri grant)) (\<lambda>user.
          op_bind (lift_result (validate_max_age p now values user (cg_redirect_uri grant))) (\<lambda>_.
          op_bind (lift_result (consent_context_for values grant user)) (\<lambda>context.
          op_bind (on_host (ph_consent (or_hooks r) rq context)) (\<lambda>consent.
          on_provider (al_authorize al (grant_validation p al now values)
            (\<lambda>code u. save_authorization_code p now code (cg_client grant) u
               (Some (cg_redirect_uri grant)) (cg_scope grant) values)
            values grant (if consent then Some user else None)))))))"

definition authorization ::
  "('u, 'h) oidc_router \<Rightarrow> 'u authlib \<Rightarrow> int \<Rightarrow> http_request \<Rightarrow> ('u oidc_state \<times> 'h, http_response) op" where
  "authorization r al now rq =
     (let p = or_provider r; values = query_values rq in
      op_bind (on_host (ph_session_user (or_hooks r) rq)) (\<lambda>session_user.
      if (case session_user of None \<Rightarrow> False | Some u \<Rightarrow> \<not> is_active p u)
      then return_op (oauth_json_error (al_json_headers al) ''login_required'' 401 False)
      else op_try
        (op_bind (on_provider (al_consent_grant al (grant_validation p al now values) (query_client p)
            values session_user))
          (decide_grant r al now rq values session_user))
        (\<lambda>e. if is_oauth_error e
          then return_op (al_error_response al (with_state (first_value values ''state'') e))
          else raise_op e)))"

subsection \<open>The token endpoint\<close>

definition token_response ::
  "('u, 'h) oidc_router \<Rightarrow> 'u authlib \<Rightarrow> py_float \<Rightarrow> int \<Rightarrow> http_request \<Rightarrow> form \<Rightarrow> ('u oidc_state, http_response) op" where
  "token_response r al py now rq values =
     (let p = or_provider r in
      op_bind (al_authenticate al (query_client p) (query_authorization_code now) rq values) (\<lambda>(client, code).
      op_bind (create_token_response p py (al_generate al) now client code values) (\<lambda>token.
      op_bind (lift_result (al_process_token al (client_claims p now) (generate_user_info p) client token)) (\<lambda>token.
      return_op (json_response 200 (al_token_headers al) (JObj token))))))"

definition token_endpoint ::
  "('u, 'h) oidc_router \<Rightarrow> 'u authlib \<Rightarrow> py_float \<Rightarrow> int \<Rightarrow> http_request \<Rightarrow> ('u oidc_state, http_response) op" where
  "token_endpoint r al py now rq =
     (if int (length (rq_body rq)) > or_max_body_bytes r
      then return_op (oauth_json_error (al_json_headers al) ''invalid_request'' 400 False)
      else op_try (op_bind (lift_result (form_values (rq_body rq))) (token_response r al py now rq))
        (\<lambda>e. if is_oauth_error e then return_op (al_error_response al e) else raise_op e))"

subsection \<open>UserInfo and revocation\<close>

definition header_token :: "http_request \<Rightarrow> string option" where
  "header_token rq =
     (let words = py_split (case rq_headers rq ''Authorization'' of None \<Rightarrow> [] | Some v \<Rightarrow> v) in
      if length words = 2 \<and> py_casefold (words ! 0) = py_casefold ''bearer'' then Some (words ! 1) else None)"

definition bearer_access_token :: "int \<Rightarrow> http_request \<Rightarrow> string option result" where
  "bearer_access_token max_body_bytes rq =
     (if rq_method rq = ''POST''
      then (if int (length (rq_body rq)) > max_body_bytes then Inr None
        else (case form_values (rq_body rq) of
            Inl e \<Rightarrow> if is_oauth_error e then Inr None else Inl e
          | Inr values \<Rightarrow>
              let body = first_value values ''access_token'' in
              Inr (if truthy body then (if truthy (header_token rq) then None else body)
                else (if truthy (header_token rq) then header_token rq else None))))
      else Inr (header_token rq))"

definition userinfo_response ::
  "('u, 'h) oidc_router \<Rightarrow> 'u authlib \<Rightarrow> int \<Rightarrow> http_request \<Rightarrow> 'u oidc_state \<Rightarrow> http_response result" where
  "userinfo_response r al now rq st =
     (let p = or_provider r; refuse = (\<lambda>err status. oauth_json_error (al_json_headers al) err status True) in
      res_bind (bearer_access_token (or_max_body_bytes r) rq) (\<lambda>bearer.
      case bearer of
        None \<Rightarrow> Inr (refuse ''invalid_token'' 401)
      | Some token \<Rightarrow> case mem_get_token now token (os_tokens st) of
          None \<Rightarrow> Inr (refuse ''invalid_token'' 401)
        | Some record_found \<Rightarrow>
            if py_casefold (tr_token_type record_found) \<noteq> py_casefold ''bearer''
            then Inr (refuse ''invalid_token'' 401)
            else if ''openid'' \<notin> set (py_split (tr_scope record_found))
            then Inr (refuse ''insufficient_scope'' 403)
            else res_bind (resolve_subject p (tr_subject record_found) (tr_user record_found)) (\<lambda>found.
              case found of
                None \<Rightarrow> Inr (refuse ''invalid_token'' 401)
              | Some user \<Rightarrow>
                  if \<not> is_active p user then Inr (refuse ''invalid_token'' 401)
                  else res_bind (claims_for p user (ScopeText (tr_scope record_found))) (\<lambda>claims.
                    Inr (json_response 200 (al_json_headers al) (JObj claims))))))"

definition revocation ::
  "('u, 'h) oidc_router \<Rightarrow> 'u authlib \<Rightarrow> http_request \<Rightarrow> ('u oidc_state, http_response) op" where
  "revocation r al rq =
     (let p = or_provider r; refuse = (\<lambda>err status. return_op (oauth_json_error (al_json_headers al) err status False)) in
      if int (length (rq_body rq)) > or_max_body_bytes r then refuse ''invalid_request'' 400
      else op_bind (op_try (lift_result (form_values (rq_body rq)))
          (\<lambda>e. if is_ValueError e then return_op [] else raise_op e)) (\<lambda>values.
        let token = (case first_value values ''token'' of None \<Rightarrow> [] | Some t \<Rightarrow> t);
            client_id = first_value values ''client_id'' in
        if token = [] then refuse ''invalid_request'' 400
        else case (if truthy client_id then query_client p (the client_id) else None) of
            None \<Rightarrow> refuse ''invalid_client'' 401
          | Some client \<Rightarrow>
              if \<not> check_endpoint_auth_method client ''none'' ''revocation'' then refuse ''invalid_client'' 401
              else (\<lambda>st. (Inr (empty_response 200 (al_json_headers al)),
                     st\<lparr>os_tokens := snd (mem_revoke_token token (os_tokens st))\<rparr>))))"

end
