(* ===== verification/OidcProperties.thy ===== *)
theory OidcProperties
  imports OidcProvider
begin

section \<open>Properties of codes, tokens and claims\<close>

text \<open>
  What the provider's values and stores guarantee. The concrete cases use a symbolic challenge:
  the digest of the verifier is never evaluated.
\<close>

subsection \<open>The shape of a challenge\<close>

text \<open>Base64url without its padding, written directly.\<close>

fun b64_unpadded :: "bytes \<Rightarrow> string" where
  "b64_unpadded [] = []"
| "b64_unpadded [a] = [b64_char (sextet1 a), b64_char (sextet2 a 0)]"
| "b64_unpadded [a, b] = [b64_char (sextet1 a), b64_char (sextet2 a b), b64_char (sextet3 b 0)]"
| "b64_unpadded (a # b # c # rest) =
     b64_char (sextet1 a) # b64_char (sextet2 a b) # b64_char (sextet3 b c) # b64_char (sextet4 c)
     # b64_unpadded rest"

lemma b64_char_verifier: "n < 64 \<Longrightarrow> verifier_char (b64_char n)"
  by (auto simp: verifier_char_def b64_char_def ascii_alpha_def ascii_digit_def Let_def)

lemma b64_unpadded_chars: "list_all verifier_char (b64_unpadded bs)"
  by (induction bs rule: b64_unpadded.induct) (simp_all add: b64_char_verifier sextet_less)

lemma length_b64_unpadded: "length (b64_unpadded bs) = (4 * length bs + 2) div 3"
  by (induction bs rule: b64_unpadded.induct) simp_all

lemma b64_padding: "\<exists>k. urlsafe_b64encode bs = b64_unpadded bs @ replicate k (CHR ''='')"
proof (induction bs rule: b64_unpadded.induct)
  case (2 a)
  show ?case by (rule exI [of _ 2]) (simp add: numeral_2_eq_2)
next
  case (3 a b)
  show ?case by (rule exI [of _ 1]) simp
qed auto

lemma bytes_to_b64url_unpadded: "bytes_to_b64url bs = b64_unpadded bs"
proof -
  obtain k where k: "urlsafe_b64encode bs = b64_unpadded bs @ replicate k (CHR ''='')"
    using b64_padding by blast
  have "\<not> verifier_char (CHR ''='')" by (simp add: verifier_char_def ascii_alpha_def ascii_digit_def)
  then have "CHR ''='' \<notin> set (b64_unpadded bs)"
    using b64_unpadded_chars [of bs] by (auto simp: list_all_iff)
  then have "dropWhile (\<lambda>c. c = CHR ''='') (rev (b64_unpadded bs)) = rev (b64_unpadded bs)"
    by (intro dropWhile_id) auto
  then show ?thesis
    by (simp add: bytes_to_b64url_def k rstrip_pad_def dropWhile_append)
qed

lemma s256_challenge_ok:
  assumes "create_s256_code_challenge v = Inr c"
  shows "verifier_match c \<and> length c = 43"
  using assms b64_unpadded_chars
  by (auto simp: s256_iff verifier_match_def bytes_to_b64url_unpadded length_b64_unpadded)

subsection \<open>A concrete code\<close>

definition demo_verifier :: string where
  "demo_verifier = replicate 43 (CHR ''a'')"

definition demo_challenge :: string where
  "demo_challenge = bytes_to_b64url (sha256 (map (\<lambda>c. of_nat (of_char c)) demo_verifier))"

lemma demo_s256: "create_s256_code_challenge demo_verifier = Inr demo_challenge"
  by (simp add: s256_iff demo_challenge_def verifier_match_def demo_verifier_def list_all_iff
      verifier_char_def ascii_alpha_def)

definition demo_code :: "unit auth_code" where
  "demo_code = \<lparr>ac_value = ''v'', ac_client_id = ''app'', ac_redirect_uri = ''https://a.io/cb'',
     ac_subject = ''ann'', ac_scope = [''openid''], ac_nonce = ''n'', ac_code_challenge = demo_challenge,
     ac_expires_at = 300, ac_method = ''S256'', ac_auth_time = None, ac_acr = None, ac_amr = [],
     ac_user = None, ac_redeemed = False\<rparr>"

lemma demo_issue:
  "issue_code (Some ''v'') [] ''app'' ''https://a.io/cb'' ''ann'' [''openid''] ''n'' demo_challenge ''S256'' 0 300
     None None [] None = Inr demo_code"
  using s256_challenge_ok [OF demo_s256]
  by (simp add: issue_code_def validate_code_challenge_def demo_code_def)

subsection \<open>Authorization codes\<close>

text \<open>
  C6: a code that was issued and saved is exchanged exactly by the client and redirect URI it was
  issued to, with a verifier whose S256 challenge it carries, before its expiry, which is at most
  ten minutes after its issue; and after an exchange no further attempt succeeds.
\<close>

theorem code_exchange_iff:
  assumes "mem_codes_ok st" and "mem_live_code st t0 v = None"
    and "issue_code (Some v) rnd client uri sub scope nonce challenge method t0 lifetime at acr amr user = Inr c"
    and "t0 \<le> t" and "t \<le> t'"
  shows "(is_ok (fst (mem_consume_code v cid ruri ver t (snd (mem_save_code t0 c st)))) \<longleftrightarrow>
       cid = client \<and> ruri = Some uri \<and> create_s256_code_challenge ver = Inr challenge \<and> t < t0 + lifetime)
    \<and> lifetime \<le> 600
    \<and> (is_ok (fst (mem_consume_code v cid ruri ver t (snd (mem_save_code t0 c st)))) \<longrightarrow>
        fst (mem_consume_code v cid' ruri' ver' t' (snd (mem_consume_code v cid ruri ver t
          (snd (mem_save_code t0 c st))))) = Inl invalid_code)"
proof -
  note c = issue_code_Inr [OF assms(3)]
  have fields: "ac_value c = v" "\<not> ac_redeemed c" "ac_expires_at c = t0 + lifetime" "ac_client_id c = client"
    "ac_redirect_uri c = uri" "ac_code_challenge c = challenge" "ac_method c = ''S256''" "verifier_match challenge"
    using c by auto
  let ?s = "snd (mem_save_code t0 c st)"
  let ?r = "mem_consume_code v cid ruri ver t ?s"
  have ok: "mem_codes_ok ?s" using memcodes.save_inv [OF assms(1)] fields(2) by blast
  have saved: "is_ok (fst (mem_save_code t0 c st))"
    using memcodes.save_fresh [OF assms(1), of t0 c] assms(2) fields(1) by simp
  have live: "mem_live_code ?s t v = (if t < t0 + lifetime then Some c else None)"
    using memcodes.save_live [OF assms(1,4), of c v] saved fields by simp
  have "is_ok (fst ?r) \<longleftrightarrow> cid = client \<and> ruri = Some uri \<and> create_s256_code_challenge ver = Inr challenge
      \<and> t < t0 + lifetime"
    unfolding memcodes.consume_result [OF ok] live
    using fields verifier_match_ascii [OF fields(8)]
    by (cases "redeem cid ruri ver t c") (auto simp: is_ok_iff redeem_Inr redeem_def code_expired_def split: sum.splits if_splits)
  moreover have "fst (mem_consume_code v cid' ruri' ver' t' (snd ?r)) = Inl invalid_code" if "is_ok (fst ?r)"
  proof -
    have "mem_live_code (snd ?r) t' v = None"
      using memcodes.consume_live [OF ok assms(5), of v cid ruri ver v]
        memcodes.live_earlier [OF assms(5), of "snd ?r" v] memcodes.consume_live [OF ok order_refl, of v cid ruri ver t v]
        that by (cases "mem_live_code (snd ?r) t' v") auto
    then show ?thesis by (simp add: memcodes.consume_result memcodes.consume_inv [OF ok])
  qed
  ultimately show ?thesis using c by blast
qed

lemma code_exchange_iff_witness:
  "is_ok (fst (mem_consume_code ''v'' ''app'' (Some ''https://a.io/cb'') demo_verifier 299
      (snd (mem_save_code 0 demo_code mem_codes_init))))
   \<and> \<not> is_ok (fst (mem_consume_code ''v'' ''other'' (Some ''https://a.io/cb'') demo_verifier 299
      (snd (mem_save_code 0 demo_code mem_codes_init))))"
  using code_exchange_iff [OF mem_codes_init_ok(1,2) demo_issue, of 299 299 "''app''" "Some ''https://a.io/cb''" demo_verifier]
    code_exchange_iff [OF mem_codes_init_ok(1,2) demo_issue, of 299 299 "''other''" "Some ''https://a.io/cb''" demo_verifier]
    demo_s256 by simp

text \<open>
  C11: over every sequence of calls, an authorization code is exchanged at most as often as it was
  saved; a value that is issued once gives tokens at most once.
\<close>

theorem code_redeemed_at_most_once:
  assumes "sorted (map fst cs)" and "\<forall>(t, c) \<in> set cs. code_call_ok c"
  shows "length (filter (consumes_code v) (zip (map snd cs) (fst (memcodes.run_codes cs mem_codes_init))))
    \<le> length (filter (saves_code v) (zip (map snd cs) (fst (memcodes.run_codes cs mem_codes_init))))"
proof -
  define t0 where "t0 = (case cs of [] \<Rightarrow> 0 | (t, _) # _ \<Rightarrow> t)"
  have "\<forall>(t, c) \<in> set cs. code_call_ok c \<and> t0 \<le> t"
    using assms by (cases cs) (auto simp: t0_def)
  from memcodes.consumes_le_saves [OF mem_codes_init_ok(1) assms(1) this, of v] show ?thesis by simp
qed

definition demo_calls :: "(int \<times> unit code_call) list" where
  "demo_calls = [(0, SaveCode demo_code), (1, ConsumeCode ''v'' ''app'' (Some ''https://a.io/cb'') demo_verifier),
     (2, ConsumeCode ''v'' ''app'' (Some ''https://a.io/cb'') demo_verifier)]"

lemma code_redeemed_at_most_once_witness:
  "length (filter (consumes_code ''v'') (zip (map snd demo_calls) (fst (memcodes.run_codes demo_calls mem_codes_init)))) \<le> 1"
proof -
  have "length (filter (saves_code ''v'') (zip (map snd demo_calls) rs)) \<le> 1" for rs
  proof (cases rs)
    case (Cons r rs')
    let ?c = "ConsumeCode ''v'' ''app'' (Some ''https://a.io/cb'') demo_verifier :: unit code_call"
    have "filter (saves_code ''v'') (zip [?c, ?c] rs') = []"
      by (auto simp: filter_empty_conv dest!: set_zip_leftD)
    then show ?thesis by (simp add: demo_calls_def Cons)
  qed simp
  note once = this
  have ok: "sorted (map fst demo_calls)" "\<forall>(t, c) \<in> set demo_calls. code_call_ok c"
    by (simp_all add: demo_calls_def demo_code_def)
  show ?thesis by (rule order_trans [OF code_redeemed_at_most_once [OF ok] once])
qed

text \<open>
  Once a code has been saved, its client and nonce are recognized as used until the code
  expires, whatever other calls are made in between, and no longer than that.
\<close>

theorem nonce_remembered:
  assumes "mem_codes_ok st" and "\<not> ac_redeemed c" and "is_ok (fst (mem_save_code t0 c st))"
    and "\<forall>(u, d) \<in> set cs. code_call_ok d \<and> \<not> reuses_nonce (ac_client_id c, ac_nonce c) d \<and> u \<le> t"
    and "t0 < ac_expires_at c" and "t0 \<le> t"
  shows "fst (mem_has_nonce (ac_client_id c) (ac_nonce c) t
      (snd (memcodes.run_codes cs (snd (mem_save_code t0 c st))))) \<longleftrightarrow> t < ac_expires_at c"
proof -
  let ?k = "(ac_client_id c, ac_nonce c)" and ?s = "snd (mem_save_code t0 c st)"
  have ok: "mem_codes_ok ?s" using memcodes.save_inv [OF assms(1,2)] .
  have "mem_nonce_seen ?s t ?k \<longleftrightarrow> t < ac_expires_at c"
    using memcodes.save_seen [OF assms(1,6), of c ?k] assms(3,5) by simp
  then show ?thesis
    using memcodes.run_seen [OF ok assms(4)] by (simp add: memcodes.nonce_result)
qed

lemma nonce_remembered_witness:
  "fst (mem_has_nonce ''app'' ''n'' 299 (snd (memcodes.run_codes [(1, GetCode ''v'' ''app'')]
      (snd (mem_save_code 0 demo_code mem_codes_init)))))"
  using nonce_remembered [of mem_codes_init demo_code 0 "[(1, GetCode ''v'' ''app'')]" 299]
  by (simp add: demo_code_def memcodes.save_fresh)

subsection \<open>Bearer tokens\<close>

text \<open>
  C24: a token that was saved is accepted exactly until its expiry, which lies in the future, with
  the client and subject it was saved for; after a revocation it is refused at every time,
  whatever calls follow that do not save a token with the same digest again.
\<close>

theorem token_lifecycle:
  assumes "dict_ok d" and "mem_save_token py token client sub now user c d = (Inr r, d')"
    and "\<forall>(u, call) \<in> set cs. \<not> saves_token_key (token_key (tr_access_token r)) call"
  shows "now < tr_expires_at r \<and> tr_client_id r = client \<and> tr_subject r = sub
    \<and> mem_get_token t (tr_access_token r) d' = (if t < tr_expires_at r then Some r else None)
    \<and> mem_get_token t' (tr_access_token r)
        (memtokens.run_tokens py' cs (snd (mem_revoke_token (tr_access_token r) d'))) = None"
proof -
  have rec: "token_record_for py token client sub now user c = Inr r"
    using memtokens.save_result [of py token client sub now user c d] assms(2) by simp
  note r = token_record_Inr [OF rec]
  have d': "dict_ok d'" using memtokens.save_inv [OF assms(1)] assms(2) by (metis snd_conv)
  have "map_of d' (token_key (tr_access_token r)) = Some r"
    using memtokens.save_lookup [OF assms(1), of py token client sub now user c] rec assms(2) by simp
  then have "mem_get_token t (tr_access_token r) d' = (if t < tr_expires_at r then Some r else None)"
    using r by (simp add: memtokens.get_result)
  moreover have "mem_get_token t' (tr_access_token r)
      (memtokens.run_tokens py' cs (snd (mem_revoke_token (tr_access_token r) d'))) = None"
    by (rule memtokens.dead_refused, rule memtokens.run_keeps_dead)
      (simp_all add: memtokens.revoke_inv d' memtokens.revoked_dead assms(3))
  ultimately show ?thesis using r by blast
qed

definition demo_token :: json_dict where
  "demo_token = [(''access_token'', JStr ''tok''), (''token_type'', JStr ''Bearer''), (''expires_in'', JInt 600),
     (''scope'', JStr ''openid'')]"

abbreviation demo_py :: py_float where
  "demo_py \<equiv> \<lparr>py_repr = (\<lambda>_. []), py_float_int = (\<lambda>_. Inr 0)\<rparr>"

definition demo_record :: "unit token_record" where
  "demo_record = \<lparr>tr_access_token = ''tok'', tr_client_id = ''app'', tr_subject = ''ann'', tr_scope = ''openid'',
     tr_expires_at = 600, tr_token_type = ''Bearer'', tr_refresh_token = None, tr_user = None, tr_client = None,
     tr_revoked = False\<rparr>"

lemma demo_save:
  "mem_save_token demo_py demo_token ''app'' ''ann'' 0 None None [] = (Inr demo_record, [(token_key ''tok'', demo_record)])"
proof -
  have "py_strip ''openid'' = ''openid''" by (rule py_strip_id) (simp add: py_isspace_def)
  moreover have "py_casefold ''Bearer'' = py_casefold ''bearer''" by (simp add: py_casefold_def lower_char_def Let_def)
  ultimately have "token_record_for demo_py demo_token ''app'' ''ann'' 0 None None = Inr demo_record"
    by (simp add: token_record_for_def demo_token_def demo_record_def json_get_def token_expiry_def)
  then show ?thesis by (simp add: mem_save_token_def demo_record_def)
qed

lemma token_lifecycle_witness:
  "mem_get_token 599 ''tok'' [(token_key ''tok'', demo_record)] = Some demo_record
   \<and> mem_get_token 600 ''tok'' [(token_key ''tok'', demo_record)] = None
   \<and> mem_get_token 1 ''tok'' (memtokens.run_tokens demo_py [(0, RevokeToken ''other'')]
        (snd (mem_revoke_token ''tok'' [(token_key ''tok'', demo_record)]))) = None"
  using token_lifecycle [OF _ demo_save, of "[(0, RevokeToken ''other'')]" 599 1 demo_py]
    token_lifecycle [OF _ demo_save, of "[(0, RevokeToken ''other'')]" 600 1 demo_py]
  by (simp add: demo_record_def)

subsection \<open>Claims\<close>

text \<open>
  C15: the claims given out for a scope always carry the subject of the user, a non-empty string,
  whatever the host's claims mapping says; they contain only the claims that the scope names, and
  nothing but the subject without openid.
\<close>

theorem claims_minimal:
  assumes "claims_for p user scope = Inr cs"
  shows "\<exists>scopes subject. scope_tuple scope = Inr scopes \<and> ua_subject (pr_users p) user = Inr subject
    \<and> subject \<noteq> [] \<and> map_of cs ''sub'' = Some (JStr subject)
    \<and> fst ` set cs \<subseteq> insert ''sub'' ((if ''profile'' \<in> set scopes then set profile_claims else {})
        \<union> (if ''email'' \<in> set scopes then {''email'', ''email_verified''} else {}))
    \<and> (''openid'' \<in> set scopes \<or> cs = [(''sub'', JStr subject)])"
proof -
  from claims_for_Inr [OF assms] obtain scopes subject where
    *: "scope_tuple scope = Inr scopes" "subject_for p user = Inr subject" "map_of cs ''sub'' = Some (JStr subject)"
      "fst ` set cs \<subseteq> set (allowed_claims scopes)" "''openid'' \<in> set scopes \<or> cs = [(''sub'', JStr subject)]"
    by blast
  have "set (allowed_claims scopes) = insert ''sub'' ((if ''profile'' \<in> set scopes then set profile_claims else {})
        \<union> (if ''email'' \<in> set scopes then {''email'', ''email_verified''} else {}))"
    by (auto simp: allowed_claims_def)
  with * show ?thesis unfolding subject_for_Inr by blast
qed

definition demo_provider :: "json_dict oidc_provider" where
  "demo_provider = \<lparr>pr_config = \<lparr>op_issuer = ''https://a.io'', op_authorization_endpoint = ''https://a.io/a'',
       op_token_endpoint = ''https://a.io/t'', op_jwks_uri = ''https://a.io/j'', op_userinfo_endpoint = None,
       op_revocation_endpoint = None\<rparr>, pr_clients = [], pr_users = default_adapter, pr_code_lifetime = 300,
     pr_access_token_lifetime = 600, pr_id_token_lifetime = 600, pr_has_signing_keys = True\<rparr>"

lemma claims_minimal_witness:
  "\<exists>cs. claims_for demo_provider [(''user_id'', JStr ''ann''), (''name'', JStr ''Ann''), (''email'', JStr ''e'')]
      (ScopeItems [''openid'', ''email'']) = Inr cs \<and> map_of cs ''sub'' = Some (JStr ''ann'') \<and> map_of cs ''name'' = None"
proof -
  let ?u = "[(''user_id'', JStr ''ann''), (''name'', JStr ''Ann''), (''email'', JStr ''e'')]"
  have scopes: "scope_tuple (ScopeItems [''openid'', ''email'']) = Inr [''openid'', ''email'']"
    by (simp add: scope_tuple_def py_split_def py_isspace_def)
  then obtain cs where cs: "claims_for demo_provider ?u (ScopeItems [''openid'', ''email'']) = Inr cs"
    by (simp add: claims_for_def demo_provider_def default_adapter_def default_user_claims_def
        default_user_subject_def subject_for_def json_get_def Let_def)
  have "fst ` set cs \<subseteq> {''sub'', ''email'', ''email_verified''} \<and> map_of cs ''sub'' = Some (JStr ''ann'')"
    using claims_minimal [OF cs] scopes
    by (auto simp: demo_provider_def default_adapter_def default_user_subject_def json_get_def)
  then have "map_of cs ''name'' = None" "map_of cs ''sub'' = Some (JStr ''ann'')"
    by (auto simp: map_of_eq_None_iff)
  with cs show ?thesis by blast
qed

subsection \<open>Configuration\<close>

text \<open>An https URL with a host, without user information or fragment, and with a valid port.\<close>

definition https_url :: "bool \<Rightarrow> string \<Rightarrow> bool" where
  "https_url allow_query value \<longleftrightarrow> value \<noteq> [] \<and> py_strip value = value
     \<and> (\<exists>u. urlsplit value = Inr u \<and> su_scheme u = ''https'' \<and> truthy (hostname u) \<and> username u = None
        \<and> password u = None \<and> su_fragment u = [] \<and> (allow_query \<or> su_query u = []) \<and> is_ok (url_port u))"

lemma absolute_https_url_iff: "absolute_https_url value name q = Inr () \<longleftrightarrow> https_url q value"
proof -
  have "absolute_https_url value name q = Inr () \<longleftrightarrow> value = py_strip value \<and> value \<noteq> [] \<and>
      (\<exists>u. urlsplit value = Inr u \<and> \<not> (su_scheme u \<noteq> ''https'' \<or> \<not> truthy (hostname u) \<or> username u \<noteq> None
           \<or> password u \<noteq> None \<or> (su_query u \<noteq> [] \<and> \<not> q) \<or> su_fragment u \<noteq> []) \<and> (\<exists>p. url_port u = Inr p))"
    unfolding absolute_https_url_def guards by auto
  then show ?thesis by (auto simp: https_url_def is_ok_iff)
qed

lemma check_endpoints_Inr:
  "check_endpoints o1 es = Inr () \<Longrightarrow> (n, Some e) \<in> set es \<Longrightarrow> https_url False e \<and> url_origin e = Inr o1"
proof (induction o1 es rule: check_endpoints.induct)
  case (3 o1 name v rest)
  then have "https_url False v" "url_origin v = Inr o1" "check_endpoints o1 rest = Inr ()"
    by (auto simp: res_bind_Inr absolute_https_url_iff split: if_splits)
  with 3 show ?case by auto
qed auto


lemma https_a_io:
  assumes "p \<in> {[], ''/a'', ''/t'', ''/j''}"
  shows "https_url False (''https://a.io'' @ p)"
    "url_origin (''https://a.io'' @ p) = Inr (''https'', py_casefold ''a.io'', 443)"
  using assms by (auto simp: https_url_def url_origin_def urlsplit_def split_scheme_def clean_url_def c0_or_space_def
      scheme_char_def ascii_alpha_def ascii_digit_def partition_char_def rpartition_char_def netloc_char_def
      url_port_def hostinfo_def hostname_def username_def password_def userinfo_def py_startswith_def
      py_lower_def lower_char_def py_strip_def py_isspace_def)


subsection \<open>Clients\<close>

lemma check_redirects_Inr: "check_redirects uris = Inr () \<longleftrightarrow> (\<forall>u \<in> set uris. https_url True u)"
  by (induction uris) (auto simp: res_bind_Inr absolute_https_url_iff)

lemma https_any: "https_url False v \<Longrightarrow> https_url q v"
  by (auto simp: https_url_def)

lemma get_allowed_scope_subset:
  assumes "get_allowed_scope c s = Inr (Some t)" and "\<forall>w \<in> set (oc_scopes c). word_ok w"
  shows "set (py_split t) \<subseteq> set (oc_scopes c)"
proof -
  obtain requested where r: "scope_tuple (case s of None \<Rightarrow> ScopeNone | Some s \<Rightarrow> ScopeText s) = Inr requested"
    and t: "(if requested = [] then Inr (Some (py_join '' '' (oc_scopes c)))
      else if \<not> set requested \<subseteq> set (oc_scopes c) then Inr None
      else Inr (Some (py_join '' '' requested))) = (Inr (Some t) :: string option result)"
    using assms(1) by (auto simp: get_allowed_scope_def res_bind_Inr)
  show ?thesis
  proof (cases "requested = []")
    case True
    then show ?thesis using t py_split_join [OF assms(2)] by auto
  next
    case False
    then have sub: "set requested \<subseteq> set (oc_scopes c)" and "t = py_join '' '' requested"
      using t by (auto split: if_splits)
    moreover have "py_split (py_join '' '' requested) = requested"
      by (rule py_split_join) (use assms(2) sub in blast)
    ultimately show ?thesis by simp
  qed
qed

text \<open>
  C28: a client that can be constructed is well formed: an id without white space, redirect URIs
  that are all https, distinct scopes that the provider supports with openid among them, and a
  secret exactly when it authenticates with one. Whatever scope a request names, what the client
  is allowed are scopes of the client.
\<close>

theorem client_well_formed:
  assumes "mk_client cid uris scopes hash method = Inr c"
  shows "oc_client_id c \<noteq> [] \<and> (\<forall>ch \<in> set (oc_client_id c). \<not> py_isspace ch)
    \<and> oc_redirect_uris c \<noteq> [] \<and> (\<forall>u \<in> set (oc_redirect_uris c). https_url True u)
    \<and> distinct (oc_scopes c) \<and> ''openid'' \<in> set (oc_scopes c) \<and> set (oc_scopes c) \<subseteq> set supported_scopes
    \<and> oc_auth_method c = (case oc_secret_hash c of None \<Rightarrow> ''none'' | Some h \<Rightarrow> ''client_secret_basic'')
    \<and> (\<forall>h. oc_secret_hash c = Some h \<longrightarrow> hex_sha256_match h)
    \<and> (\<forall>s t. get_allowed_scope c s = Inr (Some t) \<longrightarrow> set (py_split t) \<subseteq> set (oc_scopes c))"
proof -
  have c: "c = \<lparr>oc_client_id = cid, oc_redirect_uris = uris, oc_scopes = scopes, oc_secret_hash = hash,
      oc_auth_method = (case method of Some m \<Rightarrow> m | None \<Rightarrow> if truthy hash then ''client_secret_basic'' else ''none'')\<rparr>"
    and plain: "cid \<noteq> []" "\<forall>ch \<in> set cid. \<not> py_isspace ch" "uris \<noteq> []" "''openid'' \<in> set scopes" "distinct scopes"
      "filter (\<lambda>s. s \<notin> set supported_scopes) scopes = []" "check_redirects uris = Inr ()"
      "hash \<noteq> None \<longrightarrow> hex_sha256_match (the hash)"
    and m: "oc_auth_method c \<in> {''none'', ''client_secret_basic''}" "oc_auth_method c = ''none'' \<longrightarrow> hash = None"
      "oc_auth_method c = ''client_secret_basic'' \<longrightarrow> hash \<noteq> None"
    using assms unfolding mk_client_def guards by auto
  have sub: "set scopes \<subseteq> set supported_scopes" using plain(6) by (auto simp: filter_empty_conv)
  have "\<forall>w \<in> set supported_scopes. word_ok w" by (simp add: supported_scopes_def py_isspace_def)
  then have words: "\<forall>w \<in> set (oc_scopes c). word_ok w" using c sub by auto
  have "oc_auth_method c = (case hash of None \<Rightarrow> ''none'' | Some h \<Rightarrow> ''client_secret_basic'')"
    using m by (cases hash) auto
  then show ?thesis
    using plain sub get_allowed_scope_subset [OF _ words] c by (auto simp: check_redirects_Inr)
qed

lemma client_well_formed_witness:
  "\<exists>c. mk_client ''app'' [''https://a.io''] [''openid''] None None = Inr c \<and> oc_auth_method c = ''none''"
proof -
  have "check_redirects [''https://a.io''] = Inr ()"
    using https_any [OF https_a_io(1) [of "[]", simplified]] by (simp only: check_redirects_Inr) simp
  then obtain c where c: "mk_client ''app'' [''https://a.io''] [''openid''] None None = Inr c"
    by (simp add: mk_client_def py_isspace_def supported_scopes_def)
  have "oc_secret_hash c = None" using c unfolding mk_client_def guards by auto
  with client_well_formed [OF c] show ?thesis using c by simp
qed

end
