(* ===== verification/OidcAdapterProperties.thy ===== *)
theory OidcAdapterProperties
  imports OidcAdapter OidcProperties
begin

section \<open>Properties of the OpenID Connect endpoints\<close>

text \<open>
  What the handlers guarantee, for an Authlib that changes the state only through the methods of
  the package it is given (\<open>authlib_ok\<close>). What it validates is not assumed: the package checks the
  code, its PKCE challenge and the user again.
\<close>

subsection \<open>The contract with Authlib\<close>

definition authlib_ok :: "'u authlib \<Rightarrow> bool" where
  "authlib_ok al \<longleftrightarrow>
     (\<forall>e. rs_status (al_error_response al e) \<noteq> 200)
     \<and> (\<forall>clients used values s. \<exists>ns. snd (al_redirect al clients used values s) = fold (\<lambda>n st. snd (used n st)) ns s)
     \<and> (\<forall>validate clients values user s. snd (al_consent_grant al validate clients values user s) \<in> {s, snd (validate s)})
     \<and> (\<forall>validate save values g user s. snd (al_authorize al validate save values g user s) \<in>
          (\<Union>s1 \<in> {s, snd (validate s)}. insert s1 (if user = None then {} else range (\<lambda>code. snd (save code user s1)))))
     \<and> (\<forall>clients look_up rq values s. \<exists>qs. snd (al_authenticate al clients look_up rq values s)
          = fold (\<lambda>(v, c) st. snd (look_up v c st)) qs s)
     \<and> (\<forall>claims info client token out. al_process_token al claims info client token = Inr out \<longrightarrow>
          json_get ''access_token'' out = json_get ''access_token'' token)"

lemma authlib_okD:
  assumes "authlib_ok al"
  shows "rs_status (al_error_response al e) \<noteq> 200"
    and "\<exists>ns. snd (al_redirect al clients used values s) = fold (\<lambda>n st. snd (used n st)) ns s"
    and "snd (al_consent_grant al validate clients values user s) \<in> {s, snd (validate s)}"
    and "snd (al_authorize al validate save values g user s) \<in>
      (\<Union>s1 \<in> {s, snd (validate s)}. insert s1 (if user = None then {} else range (\<lambda>code. snd (save code user s1))))"
    and "\<exists>qs. snd (al_authenticate al clients look_up rq values s) = fold (\<lambda>(v, c) st. snd (look_up v c st)) qs s"
    and "al_process_token al claims info client token = Inr out \<Longrightarrow>
      json_get ''access_token'' out = json_get ''access_token'' token"
  using assms by (simp_all only: authlib_ok_def) metis

subsection \<open>What lookups leave alone\<close>

definition codes_frame :: "int \<Rightarrow> 'u oidc_state \<Rightarrow> 'u oidc_state \<Rightarrow> bool" where
  "codes_frame now s s' \<longleftrightarrow> (mem_codes_ok (os_codes s) \<longrightarrow> mem_codes_ok (os_codes s') \<and> os_tokens s' = os_tokens s
     \<and> (\<forall>t v. now \<le> t \<longrightarrow> mem_live_code (os_codes s') t v = mem_live_code (os_codes s) t v))"

lemma codes_frame_refl [simp]: "codes_frame now s s"
  by (simp add: codes_frame_def)

lemma codes_frame_trans: "codes_frame now s s' \<Longrightarrow> codes_frame now s' s'' \<Longrightarrow> codes_frame now s s''"
  by (simp add: codes_frame_def)

lemma exists_nonce_frame: "codes_frame now s (snd (exists_nonce now values n s))"
  by (simp add: codes_frame_def exists_nonce_def on_codes_def case_prod_beta memcodes.nonce_inv memcodes.nonce_live)

lemma query_code_frame: "codes_frame now s (snd (query_authorization_code now v c s))"
  by (simp add: codes_frame_def query_authorization_code_def on_codes_def case_prod_beta memcodes.get_inv memcodes.get_live)

lemma fold_frame: "(\<And>x st. codes_frame now st (f x st)) \<Longrightarrow> codes_frame now s (fold f xs s)"
  by (induction xs arbitrary: s) (auto intro: codes_frame_trans)

lemma grant_validation_frame:
  assumes "authlib_ok al"
  shows "codes_frame now s (snd (grant_validation p al now values s))"
proof -
  obtain ns where "snd (al_redirect al (query_client p) (exists_nonce now values) values s)
      = fold (\<lambda>n st. snd (exists_nonce now values n st)) ns s"
    using authlib_okD(2) [OF assms] by blast
  then have "codes_frame now s (snd (al_redirect al (query_client p) (exists_nonce now values) values s))"
    using fold_frame [of now "\<lambda>n st. snd (exists_nonce now values n st)" s ns] exists_nonce_frame by metis
  then show ?thesis
    by (auto simp: grant_validation_def validate_authorization_request_def op_bind_def lift_result_def
        split: prod.splits sum.splits)
qed

subsection \<open>Issuing a code\<close>

lemma required_value_Inr: "required_value values k = Inr v \<longleftrightarrow> payload_get values k = Some v"
  by (auto simp: required_value_def split: option.split)

lemma new_code_Inr:
  assumes "new_code p now code client user uri scope values = Inr c"
  shows "\<exists>u. user = Some u \<and> is_active p u \<and> ac_user c = Some u \<and> subject_for p u = Inr (ac_subject c)
    \<and> ac_value c = code \<and> ac_client_id c = oc_client_id client
    \<and> (truthy uri \<longrightarrow> uri = Some (ac_redirect_uri c)) \<and> ac_scope c = py_split scope \<and> ''openid'' \<in> set (ac_scope c)
    \<and> payload_get values ''nonce'' = Some (ac_nonce c) \<and> ac_nonce c \<noteq> []
    \<and> payload_get values ''code_challenge'' = Some (ac_code_challenge c) \<and> verifier_match (ac_code_challenge c)
    \<and> ac_expires_at c = now + pr_code_lifetime p \<and> pr_code_lifetime p \<le> 600 \<and> \<not> ac_redeemed c"
proof -
  obtain u where u: "user = Some u" "is_active p u"
    using assms by (auto simp: new_code_def split: option.splits if_splits)
  define redirect where "redirect = (if truthy uri then the uri
      else case payload_get values ''redirect_uri'' of None \<Rightarrow> [] | Some r \<Rightarrow> r)"
  define at where "at = (case ua_authentication_time (pr_users p) u of None \<Rightarrow> now | Some t \<Rightarrow> t)"
  obtain subject nonce challenge where parts: "subject_for p u = Inr subject"
      "payload_get values ''nonce'' = Some nonce" "payload_get values ''code_challenge'' = Some challenge"
    and c: "issue_code (Some code) [] (oc_client_id client) redirect subject (py_split scope) nonce challenge ''S256''
      now (pr_code_lifetime p) (Some at) (ua_acr (pr_users p) u) (ua_amr (pr_users p) u) (Some u) = Inr c"
    using assms u by (auto simp: new_code_def res_bind_Inr Let_def required_value_Inr at_def redirect_def)
  have "truthy uri \<longrightarrow> redirect = the uri" by (simp add: redirect_def)
  with issue_code_Inr [OF c] parts u show ?thesis by (cases uri) auto
qed

lemma save_code_effect:
  assumes "mem_codes_ok (os_codes s)" and "now \<le> t"
    and "mem_live_code (os_codes (snd (save_authorization_code p now code client user uri scope values s))) t v = Some c"
  shows "mem_live_code (os_codes s) t v = Some c \<or> new_code p now code client user uri scope values = Inr c"
proof (cases "new_code p now code client user uri scope values")
  case (Inr item)
  then show ?thesis
    using assms(3) memcodes.save_live [OF assms(1,2), of item v]
    by (auto simp: save_authorization_code_def on_codes_def case_prod_beta split: if_splits)
qed (use assms(3) in \<open>simp add: save_authorization_code_def\<close>)

subsection \<open>The authorization endpoint\<close>

lemma op_bind_cases:
  "op_bind f g s = (r, s') \<Longrightarrow> (\<exists>e. f s = (Inl e, s') \<and> r = Inl e) \<or> (\<exists>a t. f s = (Inr a, t) \<and> g a t = (r, s'))"
  by (auto simp: op_bind_def split: prod.splits sum.splits)

lemma op_bindE:
  assumes "op_bind f g s = (r, s')"
  obtains (failed) e where "f s = (Inl e, s')" "r = Inl e" | (next_step) a t where "f s = (Inr a, t)" "g a t = (r, s')"
  using op_bind_cases [OF assms] by blast

lemma on_provider_eq: "on_provider f (s, h) = (r, st) \<longleftrightarrow> fst (f s) = r \<and> st = (snd (f s), h)"
  by (auto simp: on_provider_def case_prod_beta)

lemma on_host_eq: "on_host f (s, h) = (r, st) \<longleftrightarrow> fst (f h) = r \<and> st = (s, snd (f h))"
  by (auto simp: on_host_def case_prod_beta)

lemma lift_result_eq: "lift_result r s = (r', s') \<longleftrightarrow> r' = r \<and> s' = s"
  by (auto simp: lift_result_def)

lemmas adapter_steps = on_provider_eq on_host_eq lift_result_eq

lemma confirmed_user_effect:
  assumes "confirmed_user r rq values u0 redirect (s, h) = (res, st)"
  shows "fst st = s \<and> (\<forall>u. res = Inr u \<longrightarrow> (u = u0 \<and> \<not> requires_reauthentication values)
    \<or> (is_active (or_provider r) u \<and> (\<exists>f. ph_reauthenticate (or_hooks r) = Some f \<and> fst (f rq h) = Inr (Some u))))"
  using assms
  by (auto simp: confirmed_user_def adapter_steps dest!: op_bind_cases split: if_splits option.splits)

text \<open>The state after a decision is the one before it, or the one Authlib leaves after the host consented.\<close>

lemma decide_grant_effect:
  assumes "decide_grant r al now rq values su g (s, h) = (res, st)"
  shows "fst st = s \<or> (\<exists>u0 u ctx consent h1 h2. su = Some u0
    \<and> confirmed_user r rq values u0 (cg_redirect_uri g) (s, h) = (Inr u, (s, h1))
    \<and> validate_max_age (or_provider r) now values u (cg_redirect_uri g) = Inr ()
    \<and> consent_context_for values g u = Inr ctx \<and> ph_consent (or_hooks r) rq ctx h1 = (Inr consent, h2)
    \<and> fst st = snd (al_authorize al (grant_validation (or_provider r) al now values)
        (\<lambda>code u. save_authorization_code (or_provider r) now code (cg_client g) u (Some (cg_redirect_uri g))
           (cg_scope g) values) values g (if consent then Some u else None) s))"
proof (cases su)
  case None
  then show ?thesis using assms by (auto simp: decide_grant_def adapter_steps split: if_splits)
next
  case (Some u0)
  let ?save = "\<lambda>code u. save_authorization_code (or_provider r) now code (cg_client g) u (Some (cg_redirect_uri g))
    (cg_scope g) values"
  show ?thesis
    using assms [unfolded decide_grant_def Let_def Some option.case]
  proof (elim op_bindE, goal_cases)
    case (5 u st1 x st2 ctx st3 consent st4)
    note u = 5(1)
    obtain h1 where st1: "st1 = (s, h1)" using confirmed_user_effect [OF u] by (cases st1) auto
    note steps = 5(2-5)
    have age: "validate_max_age (or_provider r) now values u (cg_redirect_uri g) = Inr ()" and st2: "st2 = (s, h1)"
      using steps(1) by (simp_all add: lift_result_eq st1)
    have ctx: "consent_context_for values g u = Inr ctx" and st3: "st3 = (s, h1)"
      using steps(2) by (simp_all add: lift_result_eq st2)
    obtain h2 where asked: "ph_consent (or_hooks r) rq ctx h1 = (Inr consent, h2)" and st4: "st4 = (s, h2)"
      using steps(3) unfolding st3 on_host_eq by (metis prod.collapse)
    have "fst st = snd (al_authorize al (grant_validation (or_provider r) al now values) ?save values g
        (if consent then Some u else None) s)"
      using steps(4) unfolding st4 on_provider_eq by simp
    with Some u age ctx asked show ?thesis unfolding st1 by blast
  qed (auto simp: adapter_steps dest: confirmed_user_effect)
qed

lemma authorization_effect:
  assumes "authorization r al now rq (s, h) = (res, st)"
  shows "fst st = s \<or> (\<exists>su h0. ph_session_user (or_hooks r) rq h = (Inr su, h0)
    \<and> (\<forall>u. su = Some u \<longrightarrow> is_active (or_provider r) u)
    \<and> (\<exists>got s1. al_consent_grant al (grant_validation (or_provider r) al now (query_values rq))
          (query_client (or_provider r)) (query_values rq) su s = (got, s1)
       \<and> (fst st = s1 \<or> (\<exists>g res'. got = Inr g \<and> decide_grant r al now rq (query_values rq) su g (s1, h0) = (res', st)))))"
proof -
  obtain asked h0 where asked: "ph_session_user (or_hooks r) rq h = (asked, h0)" by force
  show ?thesis
  proof (cases asked)
    case (Inl e)
    with assms asked show ?thesis by (auto simp: authorization_def Let_def op_bind_def on_host_def)
  next
    case (Inr su)
    obtain got s1 where got: "al_consent_grant al (grant_validation (or_provider r) al now (query_values rq))
        (query_client (or_provider r)) (query_values rq) su s = (got, s1)" by force
    show ?thesis
    proof (cases "case su of None \<Rightarrow> False | Some u \<Rightarrow> \<not> is_active (or_provider r) u")
      case True
      with assms asked Inr show ?thesis by (auto simp: authorization_def Let_def op_bind_def on_host_def)
    next
      case False
      then have active: "\<forall>u. su = Some u \<longrightarrow> is_active (or_provider r) u" by (auto split: option.splits)
      have tail: "op_try (op_bind (on_provider (al_consent_grant al (grant_validation (or_provider r) al now (query_values rq))
            (query_client (or_provider r)) (query_values rq) su)) (decide_grant r al now rq (query_values rq) su))
          (\<lambda>e. if is_oauth_error e
            then return_op (al_error_response al (with_state (first_value (query_values rq) ''state'') e))
            else raise_op e) (s, h0) = (res, st)"
        using assms False by (simp add: authorization_def Let_def op_bind_def on_host_def asked Inr)
      have "fst st = s1 \<or> (\<exists>g res'. got = Inr g \<and> decide_grant r al now rq (query_values rq) su g (s1, h0) = (res', st))"
      proof (cases got)
        case (Inl e)
        with tail show ?thesis by (auto simp: op_try_def op_bind_def on_provider_def got split: if_splits)
      next
        case (Inr g)
        obtain res' st' where d: "decide_grant r al now rq (query_values rq) su g (s1, h0) = (res', st')"
          by (metis surj_pair)
        from tail have "st' = st"
          by (cases res') (auto simp: op_try_def op_bind_def on_provider_def got Inr d split: if_splits)
        with Inr d show ?thesis by blast
      qed
      with asked Inr active got show ?thesis by blast
    qed
  qed
qed

lemma stored_code_consented:
  assumes "authlib_ok al" and "mem_codes_ok (os_codes s)"
    and "authorization r al now rq (s, h) = (res, s', h')" and "now \<le> t"
    and "mem_live_code (os_codes s') t v = Some c" and "mem_live_code (os_codes s) t v \<noteq> Some c"
  obtains s1 u0 u ctx g code h0 h1 h2 where "ph_session_user (or_hooks r) rq h = (Inr (Some u0), h0)"
    and "is_active (or_provider r) u0"
    and "confirmed_user r rq (query_values rq) u0 (cg_redirect_uri g) (s1, h0) = (Inr u, (s1, h1))"
    and "validate_max_age (or_provider r) now (query_values rq) u (cg_redirect_uri g) = Inr ()"
    and "consent_context_for (query_values rq) g u = Inr ctx" and "ph_consent (or_hooks r) rq ctx h1 = (Inr True, h2)"
    and "new_code (or_provider r) now code (cg_client g) (Some u) (Some (cg_redirect_uri g)) (cg_scope g)
      (query_values rq) = Inr c"
proof -
  let ?p = "or_provider r" and ?vs = "query_values rq"
  let ?check = "grant_validation ?p al now ?vs"
  note frame = grant_validation_frame [OF assms(1), of now _ ?p ?vs]
  have keeps: "mem_codes_ok (os_codes x) \<and> mem_live_code (os_codes x) t v \<noteq> Some c" if "codes_frame now s x" for x
    using that assms(2,4,6) by (auto simp: codes_frame_def)
  have not_s: "s' \<noteq> s" using assms(5,6) by auto
  obtain su h0 got s1 where su: "ph_session_user (or_hooks r) rq h = (Inr su, h0)"
      "\<forall>u. su = Some u \<longrightarrow> is_active ?p u"
    and got: "al_consent_grant al ?check (query_client ?p) ?vs su s = (got, s1)"
    and next_step: "s' = s1 \<or> (\<exists>g res'. got = Inr g \<and> decide_grant r al now rq ?vs su g (s1, h0) = (res', s', h'))"
    using authorization_effect [OF assms(3)] not_s by auto
  have s1: "codes_frame now s s1"
    using authlib_okD(3) [OF assms(1), of ?check "query_client ?p" ?vs su s] frame [of s] by (auto simp: got)
  then obtain g res' where d: "decide_grant r al now rq ?vs su g (s1, h0) = (res', s', h')"
    using next_step keeps assms(5) by blast
  have "s' \<noteq> s1" using keeps [OF s1] assms(5) by blast
  then obtain u0 u ctx consent h1 h2 where u0: "su = Some u0"
    and conf: "confirmed_user r rq ?vs u0 (cg_redirect_uri g) (s1, h0) = (Inr u, (s1, h1))"
    and age: "validate_max_age ?p now ?vs u (cg_redirect_uri g) = Inr ()"
    and ctx: "consent_context_for ?vs g u = Inr ctx" and asked: "ph_consent (or_hooks r) rq ctx h1 = (Inr consent, h2)"
    and s': "s' = snd (al_authorize al ?check (\<lambda>code u. save_authorization_code ?p now code (cg_client g) u
        (Some (cg_redirect_uri g)) (cg_scope g) ?vs) ?vs g (if consent then Some u else None) s1)"
    using decide_grant_effect [OF d] by auto
  have s2: "codes_frame now s x" if "x \<in> {s1, snd (?check s1)}" for x
    using that s1 frame [of s1] codes_frame_trans by blast
  have after: "s' \<in> (\<Union>x \<in> {s1, snd (?check s1)}. insert x (if \<not> consent then {} else range (\<lambda>code.
      snd (save_authorization_code ?p now code (cg_client g) (Some u) (Some (cg_redirect_uri g)) (cg_scope g) ?vs x))))"
    using authlib_okD(4) [OF assms(1), of ?check "\<lambda>code u. save_authorization_code ?p now code (cg_client g) u
        (Some (cg_redirect_uri g)) (cg_scope g) ?vs" ?vs g "if consent then Some u else None" s1]
    unfolding s' by (cases consent) simp_all
  have neither: "s' \<noteq> x" if "x \<in> {s1, snd (?check s1)}" for x
    using keeps [OF s2 [OF that]] assms(5) by blast
  then obtain code x where yes: consent and x: "x \<in> {s1, snd (?check s1)}"
    and saved: "s' = snd (save_authorization_code ?p now code (cg_client g) (Some u) (Some (cg_redirect_uri g)) (cg_scope g) ?vs x)"
    using after by (cases consent) auto
  have made: "new_code ?p now code (cg_client g) (Some u) (Some (cg_redirect_uri g)) (cg_scope g) ?vs = Inr c"
    using save_code_effect [OF _ assms(4)] keeps [OF s2 [OF x]] assms(5) saved by blast
  show ?thesis
    by (rule that [of u0 h0 g s1 u h1 ctx h2 code]) (use su u0 conf age ctx asked yes made in simp_all)
qed

lemma new_code_fresh: "new_code p now code client user uri scope values = Inr c \<Longrightarrow> \<not> ac_redeemed c"
  by (auto simp: new_code_def issue_code_def Let_def res_bind_Inr split: option.splits if_splits)

lemma save_code_ok: "mem_codes_ok (os_codes s) \<Longrightarrow>
    mem_codes_ok (os_codes (snd (save_authorization_code p now code client user uri scope values s)))"
  by (simp add: save_authorization_code_def on_codes_def case_prod_beta memcodes.save_inv new_code_fresh split: sum.split)

lemma authorization_codes_ok:
  assumes "authlib_ok al" and "mem_codes_ok (os_codes s)" and "authorization r al now rq (s, h) = (res, s', h')"
  shows "mem_codes_ok (os_codes s')"
proof -
  let ?p = "or_provider r" and ?vs = "query_values rq"
  let ?check = "grant_validation ?p al now ?vs"
  note frame = grant_validation_frame [OF assms(1), of now _ ?p ?vs]
  have checked: "mem_codes_ok (os_codes (snd (?check x)))" if "mem_codes_ok (os_codes x)" for x
    using frame [of x] that by (simp add: codes_frame_def)
  have granted: "mem_codes_ok (os_codes x)" if "al_consent_grant al ?check (query_client ?p) ?vs su s = (got, x)" for su got x
    using authlib_okD(3) [OF assms(1), of ?check "query_client ?p" ?vs su s] checked [OF assms(2)] assms(2)
    by (auto simp: that)
  have decided: "mem_codes_ok (os_codes s')"
    if ok: "mem_codes_ok (os_codes x)" and d: "decide_grant r al now rq ?vs su g (x, h0) = (res', s', h')" for x su g h0 res'
  proof (cases "s' = x")
    case False
    let ?save = "\<lambda>code u. save_authorization_code ?p now code (cg_client g) u (Some (cg_redirect_uri g)) (cg_scope g) ?vs"
    obtain user where "s' = snd (al_authorize al ?check ?save ?vs g user x)"
      using decide_grant_effect [OF d] False by auto
    then have "s' \<in> (\<Union>y \<in> {x, snd (?check x)}. insert y (if user = None then {} else range (\<lambda>code. snd (?save code user y))))"
      using authlib_okD(4) [OF assms(1), of ?check ?save ?vs g user x] by simp
    then show ?thesis using ok checked [OF ok] save_code_ok by (auto split: if_splits)
  qed (use ok in simp)
  show ?thesis using authorization_effect [OF assms(3)] granted decided assms(2) by fastforce
qed

text \<open>
  C4: the authorization endpoint stores a new code only for a user the host has consented for in
  this request: an active session user, or the active user of a fresh authentication where the
  request asks for one, recent enough for its max_age; the code is bound to the client, redirect
  URI, scope and nonce that the host saw, to a well-formed S256 challenge, and lives at most ten
  minutes.
\<close>

theorem authorization_needs_consent:
  assumes "authlib_ok al" and "mem_codes_ok (os_codes s)"
    and "authorization r al now rq (s, h) = (res, s', h')" and "now \<le> t"
    and "mem_live_code (os_codes s') t v = Some c" and "mem_live_code (os_codes s) t v \<noteq> Some c"
  shows "\<exists>u0 u ctx h0 h1 h2. ph_session_user (or_hooks r) rq h = (Inr (Some u0), h0) \<and> is_active (or_provider r) u0
    \<and> ((u = u0 \<and> \<not> requires_reauthentication (query_values rq))
        \<or> (\<exists>f. ph_reauthenticate (or_hooks r) = Some f \<and> fst (f rq h0) = Inr (Some u)))
    \<and> validate_max_age (or_provider r) now (query_values rq) u (cc_redirect_uri ctx) = Inr ()
    \<and> ph_consent (or_hooks r) rq ctx h1 = (Inr True, h2) \<and> cc_user ctx = u
    \<and> ac_user c = Some u \<and> is_active (or_provider r) u \<and> subject_for (or_provider r) u = Inr (ac_subject c)
    \<and> ac_client_id c = oc_client_id (cc_client ctx) \<and> ac_scope c = cc_scope ctx \<and> ''openid'' \<in> set (ac_scope c)
    \<and> (cc_redirect_uri ctx = [] \<or> ac_redirect_uri c = cc_redirect_uri ctx) \<and> ac_nonce c = cc_nonce ctx
    \<and> verifier_match (ac_code_challenge c) \<and> ac_expires_at c \<le> now + 600"
proof -
  let ?p = "or_provider r" and ?vs = "query_values rq"
  obtain s1 u0 u ctx g code h0 h1 h2 where su: "ph_session_user (or_hooks r) rq h = (Inr (Some u0), h0)" "is_active ?p u0"
    and conf: "confirmed_user r rq ?vs u0 (cg_redirect_uri g) (s1, h0) = (Inr u, (s1, h1))"
    and age: "validate_max_age ?p now ?vs u (cg_redirect_uri g) = Inr ()"
    and ctx: "consent_context_for ?vs g u = Inr ctx" and asked: "ph_consent (or_hooks r) rq ctx h1 = (Inr True, h2)"
    and made: "new_code ?p now code (cg_client g) (Some u) (Some (cg_redirect_uri g)) (cg_scope g) ?vs = Inr c"
    by (rule stored_code_consented [OF assms])
  have new: "ac_user c = Some u" "is_active ?p u" "subject_for ?p u = Inr (ac_subject c)"
      "ac_client_id c = oc_client_id (cg_client g)" "cg_redirect_uri g = [] \<or> ac_redirect_uri c = cg_redirect_uri g"
      "ac_scope c = py_split (cg_scope g)" "''openid'' \<in> set (ac_scope c)" "payload_get ?vs ''nonce'' = Some (ac_nonce c)"
      "verifier_match (ac_code_challenge c)" "ac_expires_at c \<le> now + 600"
    using new_code_Inr [OF made] by fastforce+
  have fields: "cc_client ctx = cg_client g" "cc_scope ctx = py_split (cg_scope g)" "cc_redirect_uri ctx = cg_redirect_uri g"
      "cc_user ctx = u" "payload_get ?vs ''nonce'' = Some (cc_nonce ctx)"
    using ctx by (auto simp: consent_context_for_def res_bind_Inr required_value_Inr)
  have who: "(u = u0 \<and> \<not> requires_reauthentication ?vs)
      \<or> (\<exists>f. ph_reauthenticate (or_hooks r) = Some f \<and> fst (f rq h0) = Inr (Some u))"
    using confirmed_user_effect [OF conf] by blast
  show ?thesis
    by (intro exI [of _ u0] exI [of _ u] exI [of _ ctx] exI [of _ h0] exI [of _ h1] exI [of _ h2] conjI)
      (use new fields who su age asked in simp_all)
qed

subsection \<open>A concrete provider\<close>

definition demo_client :: oidc_client where
  "demo_client = \<lparr>oc_client_id = ''app'', oc_redirect_uris = [''https://a.io/cb''], oc_scopes = [''openid''],
     oc_secret_hash = None, oc_auth_method = ''none''\<rparr>"

definition demo_al :: "json_dict authlib" where
  "demo_al = \<lparr>al_json_headers = [], al_token_headers = [], al_error_response = (\<lambda>_. empty_response 400 []),
     al_redirect = (\<lambda>_ _ _ s. (Inr ''https://a.io/cb'', s)),
     al_consent_grant = (\<lambda>validate _ _ _ s. (Inr \<lparr>cg_client = demo_client,
       cg_redirect_uri = ''https://a.io/cb'', cg_scope = ''openid''\<rparr>, snd (validate s))),
     al_authorize = (\<lambda>_ save _ g user s. case user of
         None \<Rightarrow> (Inr (redirect_response 302 (cg_redirect_uri g @ ''?error=access_denied'')), s)
       | Some u \<Rightarrow> (Inr (redirect_response 302 (cg_redirect_uri g @ ''?code=v'')), snd (save ''v'' user s))),
     al_authenticate = (\<lambda>_ look_up _ _. op_bind (look_up ''v'' demo_client) (\<lambda>c. return_op (Some demo_client, c))),
     al_generate = (\<lambda>_ _ _ _. Inr [(''access_token'', JStr ''tok''), (''scope'', JStr ''openid''), (''expires_in'', JInt 600)]),
     al_process_token = (\<lambda>_ _ _ token. Inr token)\<rparr>"

lemma demo_al_ok: "authlib_ok demo_al"
  unfolding authlib_ok_def
proof (intro conjI allI, goal_cases)
  case (5 clients look_up rq vs s)
  show ?case by (rule exI [of _ "[(''v'', demo_client)]"])
    (auto simp: demo_al_def op_bind_def split: prod.split sum.split)
next
  case (2 clients used vs s)
  show ?case by (rule exI [of _ "[]"]) (simp add: demo_al_def)
qed (auto simp: demo_al_def empty_response_def split: option.split)

definition demo_user :: json_dict where
  "demo_user = [(''user_id'', JStr ''ann'')]"

definition demo_oidc_router :: "(json_dict, unit) oidc_router" where
  "demo_oidc_router = \<lparr>or_provider = demo_provider\<lparr>pr_clients := [(''app'', demo_client), (''other'', demo_client)]\<rparr>,
     or_hooks = \<lparr>ph_session_user = (\<lambda>_ h. (Inr (Some demo_user), h)), ph_consent = (\<lambda>_ _ h. (Inr True, h)),
       ph_reauthenticate = None, ph_login_url = Some ''/login''\<rparr>,
     or_max_body_bytes = 100, or_paths = \<lparr>op_discovery = ''/d'', op_authorization = ''/a'', op_token = ''/t'', op_jwks = ''/j'',
       op_userinfo = None, op_revocation = None\<rparr>\<rparr>"

definition demo_oidc_request :: http_request where
  "demo_oidc_request = \<lparr>rq_method = ''GET'', rq_path = ''/a'', rq_query_string = [],
     rq_query = [(''client_id'', ''app''), (''scope'', ''openid''), (''nonce'', ''n''),
       (''code_challenge'', demo_challenge), (''code_challenge_method'', ''S256'')],
     rq_headers = (\<lambda>_. None), rq_cookies = (\<lambda>_. None), rq_body = [], rq_json = Inr JNull\<rparr>"

definition demo_oidc_start :: "json_dict oidc_state" where
  "demo_oidc_start = \<lparr>os_codes = mem_codes_init, os_tokens = []\<rparr>"

definition demo_user_code :: "json_dict auth_code" where
  "demo_user_code = \<lparr>ac_value = ''v'', ac_client_id = ''app'', ac_redirect_uri = ''https://a.io/cb'',
     ac_subject = ''ann'', ac_scope = [''openid''], ac_nonce = ''n'', ac_code_challenge = demo_challenge,
     ac_expires_at = 300, ac_method = ''S256'', ac_auth_time = Some 0, ac_acr = None, ac_amr = [''webauthn''],
     ac_user = Some demo_user, ac_redeemed = False\<rparr>"

definition demo_codes :: "json_dict mem_codes" where
  "demo_codes = \<lparr>mk_codes = [(''v'', demo_user_code)], mk_nonces = [((''app'', ''n''), 300)]\<rparr>"

lemma split_openid [simp]: "py_split ''openid'' = [''openid'']"
  by (simp add: py_split_def py_isspace_def)

lemma demo_fields:
  "pr_users (or_provider demo_oidc_router) = default_adapter" "pr_code_lifetime (or_provider demo_oidc_router) = 300"
  "pr_access_token_lifetime (or_provider demo_oidc_router) = 600" "or_max_body_bytes demo_oidc_router = 100"
  by (simp_all add: demo_oidc_router_def demo_provider_def)

lemma demo_user_subject: "subject_for (or_provider demo_oidc_router) demo_user = Inr ''ann''"
  by (simp add: subject_for_def demo_fields default_adapter_def default_user_subject_def demo_user_def json_get_def)

lemma demo_user_active: "is_active (or_provider demo_oidc_router) demo_user"
  by (simp add: is_active_def demo_fields default_adapter_def default_user_active_def demo_user_def)

lemma demo_new_code:
  "new_code (or_provider demo_oidc_router) 0 ''v'' demo_client (Some demo_user) (Some ''https://a.io/cb'') ''openid''
     (query_values demo_oidc_request) = Inr demo_user_code"
  using s256_challenge_ok [OF demo_s256]
  by (simp add: new_code_def demo_fields demo_user_subject demo_user_active required_value_def query_values_def
      demo_oidc_request_def group_values_def add_value_def payload_get_def payload_data_def issue_code_def
      validate_code_challenge_def demo_user_code_def demo_client_def default_adapter_def)

lemma demo_authorization:
  "authorization demo_oidc_router demo_al 0 demo_oidc_request (demo_oidc_start, ()) =
     (Inr (redirect_response 302 ''https://a.io/cb?code=v''), \<lparr>os_codes = demo_codes, os_tokens = []\<rparr>, ())"
proof -
  let ?vs = "query_values demo_oidc_request" and ?p = "or_provider demo_oidc_router"
  let ?g = "\<lparr>cg_client = demo_client, cg_redirect_uri = ''https://a.io/cb'', cg_scope = ''openid''\<rparr>"
  have vs: "payload_get ?vs ''nonce'' = Some ''n''" "first_value ?vs ''max_age'' = None" "prompt_words ?vs = []"
    by (simp_all add: query_values_def demo_oidc_request_def group_values_def add_value_def payload_get_def
        payload_data_def first_value_def prompt_words_def py_split_def)
  have state: "snd (grant_validation ?p demo_al 0 ?vs demo_oidc_start) = demo_oidc_start"
    by (simp add: grant_validation_def validate_authorization_request_def demo_al_def op_bind_def lift_result_def)
  have saved: "save_authorization_code ?p 0 ''v'' demo_client (Some demo_user) (Some ''https://a.io/cb'') ''openid'' ?vs
      demo_oidc_start = (Inr (), \<lparr>os_codes = demo_codes, os_tokens = []\<rparr>)"
    by (simp add: save_authorization_code_def demo_new_code on_codes_def demo_oidc_start_def mem_save_code_def
        codes_cleanup_def mem_codes_init_def demo_codes_def demo_user_code_def Let_def)
  have hooks: "ph_session_user (or_hooks demo_oidc_router) = (\<lambda>_ h. (Inr (Some demo_user), h))"
      "ph_consent (or_hooks demo_oidc_router) = (\<lambda>_ _ h. (Inr True, h))"
    by (simp_all add: demo_oidc_router_def)
  have grant: "al_consent_grant demo_al = (\<lambda>validate _ _ _ s. (Inr ?g, snd (validate s)))"
      "al_authorize demo_al = (\<lambda>_ save _ g user s. case user of
         None \<Rightarrow> (Inr (redirect_response 302 (cg_redirect_uri g @ ''?error=access_denied'')), s)
       | Some u \<Rightarrow> (Inr (redirect_response 302 (cg_redirect_uri g @ ''?code=v'')), snd (save ''v'' user s)))"
    by (simp_all add: demo_al_def)
  show ?thesis
    by (simp add: authorization_def decide_grant_def Let_def hooks grant op_bind_def on_host_def on_provider_def demo_user_active
        state op_try_def confirmed_user_def requires_reauthentication_def vs validate_max_age_def lift_result_def
        consent_context_for_def required_value_def saved)
qed

lemma authorization_needs_consent_witness:
  "mem_live_code demo_codes 299 ''v'' = Some demo_user_code
   \<and> (\<exists>ctx. ph_consent (or_hooks demo_oidc_router) demo_oidc_request ctx () = (Inr True, ())
        \<and> cc_user ctx = demo_user \<and> cc_nonce ctx = ''n'')"
proof -
  have live: "mem_live_code demo_codes 299 ''v'' = Some demo_user_code"
    by (simp add: demo_codes_def mem_live_code_def demo_user_code_def)
  show ?thesis
    using authorization_needs_consent [OF demo_al_ok _ demo_authorization, of 299 "''v''" demo_user_code] live
    by (auto simp: demo_oidc_start_def demo_user_code_def)
qed

subsection \<open>The token endpoint\<close>

lemma consume_Inr:
  assumes "mem_codes_ok st" and "mem_consume_code v cid uri ver now st = (Inr c', st')"
  shows "\<exists>c. mem_live_code st now v = Some c \<and> ac_value c = v \<and> ac_client_id c = cid \<and> uri = Some (ac_redirect_uri c)
    \<and> create_s256_code_challenge ver = Inr (ac_code_challenge c) \<and> c' = c\<lparr>ac_redeemed := True\<rparr>
    \<and> (\<forall>t. now \<le> t \<longrightarrow> mem_live_code st' t v = None)"
proof -
  have ok: "is_ok (fst (mem_consume_code v cid uri ver now st))" by (simp add: assms(2))
  then obtain c where c: "mem_live_code st now v = Some c"
    using memcodes.consume_was_live [OF assms(1)] by fastforce
  obtain res c1 where r: "redeem cid uri ver now c = (res, c1)" by force
  have "c1 = c'" and "is_ok res"
    using memcodes.consume_result [OF assms(1), of v cid uri ver now] c r assms(2) by (auto split: sum.splits)
  then show ?thesis
    using c r memcodes.live_code [OF assms(1) c] memcodes.consume_live [OF assms(1), of now _ v cid uri ver v] ok assms(2)
    by (auto simp: is_ok_iff redeem_Inr)
qed

lemma save_token_Inr:
  assumes "save_token p py now token client user st = (Inr x, st')"
  shows "\<exists>c u subject rec. client = Some c \<and> user = Some u \<and> subject_for p u = Inr subject
    \<and> token_record_for py token (oc_client_id c) subject now (Some u) (Some c) = Inr rec
    \<and> st' = st\<lparr>os_tokens := AList.update (token_key (tr_access_token rec)) rec (os_tokens st)\<rparr>"
  using assms by (auto simp: save_token_def on_tokens_def mem_save_token_def split: option.splits sum.splits)

text \<open>What a successful exchange found in the store and left there.\<close>

definition exchanged ::
  "'u oidc_provider \<Rightarrow> int \<Rightarrow> form \<Rightarrow> 'u oidc_state \<Rightarrow> 'u oidc_state \<Rightarrow> json_dict \<Rightarrow> 'u token_record \<Rightarrow> bool" where
  "exchanged p now values s s' token rec \<longleftrightarrow>
     (\<exists>client c ver user. tr_client rec = Some client \<and> mem_live_code (os_codes s) now (ac_value c) = Some c
        \<and> ac_client_id c = oc_client_id client \<and> payload_get values ''redirect_uri'' = Some (ac_redirect_uri c)
        \<and> payload_get values ''code_verifier'' = Some ver
        \<and> create_s256_code_challenge ver = Inr (ac_code_challenge c)
        \<and> resolve_subject p (ac_subject c) (ac_user c) = Inr (Some user) \<and> is_active p user
        \<and> (\<forall>t. now \<le> t \<longrightarrow> mem_live_code (os_codes s') t (ac_value c) = None)
        \<and> tr_user rec = Some user \<and> subject_for p user = Inr (tr_subject rec) \<and> tr_client_id rec = oc_client_id client
        \<and> json_get ''access_token'' token = JStr (tr_access_token rec) \<and> now < tr_expires_at rec \<and> \<not> tr_revoked rec
        \<and> map_of (os_tokens s') (token_key (tr_access_token rec)) = Some rec)"

lemma create_token_response_Inr:
  assumes "mem_codes_ok (os_codes s)"
    and "create_token_response p py gen now client code values s = (Inr token, s')"
  shows "\<exists>rec c. client = Some c \<and> tr_client rec = Some c \<and> exchanged p now values s s' token rec"
proof -
  obtain ac c ver where args: "code = Some ac" "client = Some c" "payload_get values ''code_verifier'' = Some ver"
    using assms(2) by (auto simp: create_token_response_def split: option.splits)
  let ?consume = "on_codes (mem_consume_code (ac_value ac) (oc_client_id c) (payload_get values ''redirect_uri'') ver now)"
  have "op_bind (op_try ?consume (\<lambda>e. raise_op (grant_error e))) (\<lambda>consumed.
      op_bind (\<lambda>st. (authenticate_user p consumed, st)) (\<lambda>found.
      case found of None \<Rightarrow> raise_op invalid_grant
      | Some user \<Rightarrow> if \<not> is_active p user then raise_op invalid_grant
          else op_bind (\<lambda>st. (gen c user (get_scope consumed) (pr_access_token_lifetime p), st)) (\<lambda>token.
            op_bind (save_token p py now token (Some c) (Some user)) (\<lambda>_. return_op token)))) s = (Inr token, s')"
    using assms(2) by (simp add: create_token_response_def args)
  then obtain consumed s1 user token' s2 where
      con: "op_try ?consume (\<lambda>e. raise_op (grant_error e)) s = (Inr consumed, s1)"
    and user: "authenticate_user p consumed = Inr (Some user)" "is_active p user"
    and saved: "save_token p py now token (Some c) (Some user) s1 = (Inr (), s')"
    by (auto simp: op_bind_eq_Inr split: option.splits if_splits)
  obtain codes where cons: "mem_consume_code (ac_value ac) (oc_client_id c) (payload_get values ''redirect_uri'') ver now
      (os_codes s) = (Inr consumed, codes)" and s1: "s1 = s\<lparr>os_codes := codes\<rparr>"
    using con by (auto simp: op_try_def on_codes_def split: prod.splits sum.splits)
  from consume_Inr [OF assms(1) cons] obtain cc where cc: "mem_live_code (os_codes s) now (ac_value ac) = Some cc"
      "ac_value cc = ac_value ac" "ac_client_id cc = oc_client_id c"
      "payload_get values ''redirect_uri'' = Some (ac_redirect_uri cc)"
      "create_s256_code_challenge ver = Inr (ac_code_challenge cc)" "consumed = cc\<lparr>ac_redeemed := True\<rparr>"
      "\<forall>t. now \<le> t \<longrightarrow> mem_live_code codes t (ac_value ac) = None"
    by blast
  from save_token_Inr [OF saved] obtain subject rec where rec: "subject_for p user = Inr subject"
      "token_record_for py token (oc_client_id c) subject now (Some user) (Some c) = Inr rec"
      "s' = s1\<lparr>os_tokens := AList.update (token_key (tr_access_token rec)) rec (os_tokens s1)\<rparr>"
    by auto
  have "exchanged p now values s s' token rec"
    unfolding exchanged_def
    by (intro exI [of _ c] exI [of _ cc] exI [of _ ver] exI [of _ user] conjI)
      (use cc user rec s1 args(3) token_record_Inr [OF rec(2)] memtokens.token_record_key [OF rec(2)]
        in \<open>simp_all add: authenticate_user_def dict_simps\<close>)
  with args token_record_Inr [OF rec(2)] show ?thesis by blast
qed

lemma authenticate_frame:
  assumes "authlib_ok al"
  shows "codes_frame now s (snd (al_authenticate al clients (query_authorization_code now) rq values s))"
proof -
  obtain qs where "snd (al_authenticate al clients (query_authorization_code now) rq values s)
      = fold (\<lambda>(v, c) st. snd (query_authorization_code now v c st)) qs s"
    using authlib_okD(5) [OF assms] by blast
  moreover have "codes_frame now s (fold (\<lambda>(v, c) st. snd (query_authorization_code now v c st)) qs s)"
    by (rule fold_frame) (auto simp: query_code_frame)
  ultimately show ?thesis by simp
qed

lemma exchanged_frame:
  assumes "codes_frame now s s1" and "mem_codes_ok (os_codes s)" and "exchanged p now values s1 s' token rec"
  shows "exchanged p now values s s' token rec"
  using assms unfolding exchanged_def codes_frame_def by (metis order_refl)

lemma token_endpoint_exchanged:
  assumes "authlib_ok al" and "mem_codes_ok (os_codes s)"
    and "token_endpoint r al py now rq s = (Inr resp, s')" and "rs_status resp = 200"
  obtains vs token rec where "form_values (rq_body rq) = Inr vs"
    and "int (length (rq_body rq)) \<le> or_max_body_bytes r" and "rs_body resp = JsonBody (JObj token)"
    and "json_get ''access_token'' token = JStr (tr_access_token rec)"
    and "exchanged (or_provider r) now vs s s' token rec"
proof -
  let ?p = "or_provider r"
  have size: "int (length (rq_body rq)) \<le> or_max_body_bytes r"
    using assms(3,4) by (auto simp: token_endpoint_def oauth_json_error_def json_response_def split: if_splits)
  obtain vs where vs: "form_values (rq_body rq) = Inr vs"
    and run: "token_response r al py now rq vs s = (Inr resp, s')"
    using assms(3,4) authlib_okD(1) [OF assms(1)] size
    by (auto simp: token_endpoint_def op_try_def op_bind_def lift_result_def split: sum.splits prod.splits if_splits)
  from run obtain client code s1 tok s2 token where
      auth: "al_authenticate al (query_client ?p) (query_authorization_code now) rq vs s = (Inr (client, code), s1)"
    and created: "create_token_response ?p py (al_generate al) now client code vs s1 = (Inr tok, s')"
    and out: "al_process_token al (client_claims ?p now) (generate_user_info ?p) client tok = Inr token"
      "resp = json_response 200 (al_token_headers al) (JObj token)"
    by (auto simp: token_response_def Let_def op_bind_eq_Inr lift_result_def)
  have frame: "codes_frame now s s1"
    using authenticate_frame [OF assms(1), of now s "query_client ?p" rq vs] by (simp add: auth)
  then have ok: "mem_codes_ok (os_codes s1)" using assms(2) by (simp add: codes_frame_def)
  obtain rec where ex: "exchanged ?p now vs s1 s' tok rec"
    using create_token_response_Inr [OF ok created] by blast
  have same: "json_get ''access_token'' token = json_get ''access_token'' tok" by (rule authlib_okD(6) [OF assms(1) out(1)])
  have whole: "exchanged ?p now vs s s' token rec"
    using exchanged_frame [OF frame assms(2) ex] unfolding exchanged_def same .
  then have given: "json_get ''access_token'' token = JStr (tr_access_token rec)" by (auto simp: exchanged_def)
  show ?thesis by (rule that [OF vs size _ given whole]) (simp add: out(2) json_response_def)
qed

text \<open>
  C5: the token endpoint answers 200 only to a request that redeems a live code of the client it
  was issued to, with its redirect URI and a verifier for its PKCE challenge, for an active user
  that the code's subject resolves to; the code can not be redeemed again, and the store holds the
  access token of the answer, for that client and user, until a later time.
\<close>

theorem token_only_for_redeemed_code:
  assumes "authlib_ok al" and "mem_codes_ok (os_codes s)"
    and "token_endpoint r al py now rq s = (Inr resp, s')" and "rs_status resp = 200"
  shows "\<exists>values token rec. form_values (rq_body rq) = Inr values \<and> int (length (rq_body rq)) \<le> or_max_body_bytes r
    \<and> rs_body resp = JsonBody (JObj token) \<and> json_get ''access_token'' token = JStr (tr_access_token rec)
    \<and> exchanged (or_provider r) now values s s' token rec"
  using token_endpoint_exchanged [OF assms] by metis

lemma form_roundtrip:
  assumes "dict_ok d" and "\<forall>(k, vs) \<in> set d. vs \<noteq> []"
  shows "form_values (utf8_encode (urlencode d)) = Inr d"
  by (simp add: form_values_def utf8_roundtrip parse_urlencode [OF assms])

definition demo_form :: form where
  "demo_form = [(''redirect_uri'', [''https://a.io/cb'']), (''code_verifier'', [demo_verifier])]"

definition post_form :: "form \<Rightarrow> http_request" where
  "post_form d = demo_oidc_request\<lparr>rq_method := ''POST'', rq_body := utf8_encode (urlencode d)\<rparr>"

definition demo_token_router :: "(json_dict, unit) oidc_router" where
  "demo_token_router = demo_oidc_router\<lparr>or_max_body_bytes := int (length (rq_body (post_form demo_form)))\<rparr>"

definition demo_saved_token :: "json_dict token_record" where
  "demo_saved_token = \<lparr>tr_access_token = ''tok'', tr_client_id = ''app'', tr_subject = ''ann'', tr_scope = ''openid'',
     tr_expires_at = 899, tr_token_type = ''Bearer'', tr_refresh_token = None, tr_user = Some demo_user,
     tr_client = Some demo_client, tr_revoked = False\<rparr>"

definition demo_reply :: json_dict where
  "demo_reply = [(''access_token'', JStr ''tok''), (''scope'', JStr ''openid''), (''expires_in'', JInt 600)]"

text \<open>The router only differs in the size of body it accepts, which the authorization endpoint does not read.\<close>

lemma authorization_max_body: "authorization (r\<lparr>or_max_body_bytes := n\<rparr>) = authorization r"
proof -
  have same: "or_provider (r\<lparr>or_max_body_bytes := n\<rparr>) = or_provider r" "or_hooks (r\<lparr>or_max_body_bytes := n\<rparr>) = or_hooks r"
    by simp_all
  have confirm: "confirmed_user (r\<lparr>or_max_body_bytes := n\<rparr>) = confirmed_user r"
    by (intro ext) (simp only: confirmed_user_def same)
  have decide: "decide_grant (r\<lparr>or_max_body_bytes := n\<rparr>) = decide_grant r"
    by (intro ext) (simp only: decide_grant_def same confirm)
  show ?thesis by (intro ext) (simp only: authorization_def same decide)
qed

lemma demo_exchange:
  "\<exists>s'. token_endpoint demo_token_router demo_al demo_py 299 (post_form demo_form)
       \<lparr>os_codes = demo_codes, os_tokens = []\<rparr> = (Inr (json_response 200 [] (JObj demo_reply)), s')
     \<and> os_tokens s' = [(token_key ''tok'', demo_saved_token)]"
proof -
  let ?p = "or_provider demo_oidc_router" and ?s = "\<lparr>os_codes = demo_codes, os_tokens = [] :: json_dict token_dict\<rparr>"
  have p: "or_provider demo_token_router = ?p" by (simp add: demo_token_router_def)
  have form: "form_values (rq_body (post_form demo_form)) = Inr demo_form"
    by (simp add: post_form_def form_roundtrip demo_form_def)
  have look: "query_authorization_code 299 ''v'' demo_client ?s = (Inr (Some demo_user_code), ?s)"
    by (simp add: query_authorization_code_def on_codes_def mem_get_code_def codes_cleanup_def demo_codes_def
        demo_user_code_def demo_client_def code_expired_def)
  have get: "payload_get demo_form ''code_verifier'' = Some demo_verifier"
      "payload_get demo_form ''redirect_uri'' = Some ''https://a.io/cb''"
    by (simp_all add: payload_get_def payload_data_def demo_form_def)
  have redeem: "redeem ''app'' (Some ''https://a.io/cb'') demo_verifier 299 demo_user_code
      = (Inr ''ann'', demo_user_code\<lparr>ac_redeemed := True\<rparr>)"
    unfolding redeem_Inr using s256_challenge_ok [OF demo_s256] verifier_match_ascii
    by (simp add: demo_user_code_def demo_s256)
  have fields: "ac_value demo_user_code = ''v''" "oc_client_id demo_client = ''app''"
    by (simp_all add: demo_user_code_def demo_client_def)
  have con: "mem_consume_code ''v'' ''app'' (Some ''https://a.io/cb'') demo_verifier 299 demo_codes
      = (Inr (demo_user_code\<lparr>ac_redeemed := True\<rparr>), \<lparr>mk_codes = [], mk_nonces = [((''app'', ''n''), 300)]\<rparr>)"
  proof -
    have "codes_cleanup 299 demo_codes = demo_codes"
      by (simp add: codes_cleanup_def demo_codes_def code_expired_def demo_user_code_def)
    then show ?thesis by (simp add: mem_consume_code_def redeem demo_codes_def)
  qed
  have user: "authenticate_user ?p (demo_user_code\<lparr>ac_redeemed := True\<rparr>) = Inr (Some demo_user)"
    by (simp add: authenticate_user_def resolve_subject_def demo_fields default_adapter_def demo_user_code_def demo_user_subject)
  have "py_strip ''openid'' = ''openid''" by (rule py_strip_id) (simp add: py_isspace_def)
  then have "token_record_for demo_py demo_reply ''app'' ''ann'' 299 (Some demo_user) (Some demo_client) = Inr demo_saved_token"
    by (simp add: token_record_for_def json_get_def token_expiry_def py_casefold_def lower_char_def demo_reply_def
        demo_saved_token_def)
  then have saved: "save_token ?p demo_py 299 demo_reply (Some demo_client) (Some demo_user) s1 =
      (Inr (), s1\<lparr>os_tokens := AList.update (token_key ''tok'') demo_saved_token (os_tokens s1)\<rparr>)" for s1
    by (simp add: save_token_def demo_user_subject on_tokens_def mem_save_token_def fields)
      (simp add: demo_saved_token_def)
  have al: "al_generate demo_al = (\<lambda>_ _ _ _. Inr demo_reply)" "al_process_token demo_al = (\<lambda>_ _ _ token. Inr token)"
      "al_authenticate demo_al = (\<lambda>_ look_up _ _. op_bind (look_up ''v'' demo_client) (\<lambda>c. return_op (Some demo_client, c)))"
    by (simp_all add: demo_al_def demo_reply_def)
  let ?s2 = "\<lparr>os_codes = \<lparr>mk_codes = [], mk_nonces = [((''app'', ''n''), 300)]\<rparr>, os_tokens = [(token_key ''tok'', demo_saved_token)]\<rparr>"
  have created: "create_token_response ?p demo_py (al_generate demo_al) 299 (Some demo_client)
      (Some demo_user_code) demo_form ?s = (Inr demo_reply, ?s2)"
    by (simp add: create_token_response_def op_bind_eq_Inr al get op_try_def on_codes_def fields con
        user demo_user_active saved)
  have "token_response demo_token_router demo_al demo_py 299 (post_form demo_form) demo_form ?s
      = (Inr (json_response 200 (al_token_headers demo_al) (JObj demo_reply)), ?s2)"
    by (simp add: token_response_def Let_def p al(2,3) op_bind_def look created lift_result_def)
  moreover have "al_token_headers demo_al = []" by (simp add: demo_al_def)
  ultimately show ?thesis
    by (simp add: token_endpoint_def op_try_def op_bind_def lift_result_def form demo_token_router_def)
qed

lemma demo_codes_ok: "mem_codes_ok demo_codes"
  by (simp add: mem_codes_ok_def demo_codes_def demo_user_code_def)

lemma token_only_for_redeemed_code_witness:
  "\<exists>resp s' rec. token_endpoint demo_token_router demo_al demo_py 299 (post_form demo_form)
      \<lparr>os_codes = demo_codes, os_tokens = []\<rparr> = (Inr resp, s')
    \<and> map_of (os_tokens s') (token_key (tr_access_token rec)) = Some rec \<and> 299 < tr_expires_at rec"
proof -
  obtain resp s' where run: "token_endpoint demo_token_router demo_al demo_py 299 (post_form demo_form)
      \<lparr>os_codes = demo_codes, os_tokens = []\<rparr> = (Inr resp, s')" "rs_status resp = 200"
    using demo_exchange by (auto simp: json_response_def)
  show ?thesis
    using token_only_for_redeemed_code [OF demo_al_ok _ run] run(1) by (auto simp: demo_codes_ok exchanged_def)
qed

subsection \<open>UserInfo and revocation\<close>

lemma error_status [simp]: "rs_status (oauth_json_error headers err status www) = status"
  by (simp add: oauth_json_error_def json_response_def)

lemma userinfo_Inr:
  assumes "userinfo_response r al now rq st = Inr resp" and "rs_status resp = 200"
  obtains token rec user cs where "bearer_access_token (or_max_body_bytes r) rq = Inr (Some token)" and "token \<noteq> []"
    and "map_of (os_tokens st) (token_key token) = Some rec" and "\<not> tr_revoked rec" and "now < tr_expires_at rec"
    and "py_casefold (tr_token_type rec) = py_casefold ''bearer''" and "''openid'' \<in> set (py_split (tr_scope rec))"
    and "resolve_subject (or_provider r) (tr_subject rec) (tr_user rec) = Inr (Some user)"
    and "is_active (or_provider r) user" and "claims_for (or_provider r) user (ScopeText (tr_scope rec)) = Inr cs"
    and "resp = json_response 200 (al_json_headers al) (JObj cs)"
proof -
  let ?p = "or_provider r"
  obtain token where t: "bearer_access_token (or_max_body_bytes r) rq = Inr (Some token)"
    using assms by (auto simp: userinfo_response_def Let_def res_bind_Inr split: option.splits)
  obtain rec where m: "mem_get_token now token (os_tokens st) = Some rec"
    using assms by (auto simp: userinfo_response_def Let_def t split: option.splits)
  have s: "py_casefold (tr_token_type rec) = py_casefold ''bearer''" "''openid'' \<in> set (py_split (tr_scope rec))"
    using assms by (auto simp: userinfo_response_def Let_def t m split: if_splits)
  obtain user where u: "resolve_subject ?p (tr_subject rec) (tr_user rec) = Inr (Some user)" "is_active ?p user"
    using assms s by (auto simp: userinfo_response_def Let_def t m res_bind_Inr
        split: option.splits if_splits)
  obtain cs where c: "claims_for ?p user (ScopeText (tr_scope rec)) = Inr cs"
      "resp = json_response 200 (al_json_headers al) (JObj cs)"
    using assms s u by (auto simp: userinfo_response_def t m Let_def res_bind_Inr)
  have "token \<noteq> []" "map_of (os_tokens st) (token_key token) = Some rec" "\<not> tr_revoked rec" "now < tr_expires_at rec"
    using m by (auto simp: mem_get_token_def split: if_splits option.splits)
  with t s u c show ?thesis using that by blast
qed


text \<open>
  C26: the revocation endpoint asks for no authentication and does not compare the client of the
  token: whoever names any registered client revokes any token he presents; the store then refuses
  that token at every time, and every other token is as before.
\<close>

theorem revocation_by_any_client:
  assumes "dict_ok (os_tokens st)" and "int (length (rq_body rq)) \<le> or_max_body_bytes r"
    and "form_values (rq_body rq) = Inr form" and "first_value form ''token'' = Some token" and "token \<noteq> []"
    and "first_value form ''client_id'' = Some cid" and "cid \<noteq> []"
    and "query_client (or_provider r) cid = Some client"
  shows "\<exists>st'. revocation r al rq st = (Inr (empty_response 200 (al_json_headers al)), st')
    \<and> os_codes st' = os_codes st
    \<and> (\<forall>now other. mem_get_token now other (os_tokens st') =
        (if token_key other = token_key token then None else mem_get_token now other (os_tokens st)))"
proof -
  let ?d = "snd (mem_revoke_token token (os_tokens st))"
  have "revocation r al rq st = (Inr (empty_response 200 (al_json_headers al)), st\<lparr>os_tokens := ?d\<rparr>)"
    using assms(2-) by (simp add: revocation_def Let_def op_bind_def op_try_def lift_result_def
        check_endpoint_auth_method_def)
  moreover have "mem_get_token now other ?d =
      (if token_key other = token_key token then None else mem_get_token now other (os_tokens st))" for now other
  proof (cases "token_key other = token_key token")
    case True
    have "map_of ?d (token_key token) = map_option (\<lambda>r. r\<lparr>tr_revoked := True\<rparr>) (map_of (os_tokens st) (token_key token))"
      using memtokens.revoke_lookup [OF assms(1), of token "token_key token"] by simp
    with True show ?thesis by (cases "map_of (os_tokens st) (token_key token)") (simp_all add: mem_get_token_def)
  next
    case False
    then show ?thesis using memtokens.revoke_lookup [OF assms(1), of token "token_key other"] by (simp add: mem_get_token_def)
  qed
  ultimately show ?thesis by (intro exI [of _ "st\<lparr>os_tokens := ?d\<rparr>"]) simp
qed

definition demo_revocation_form :: form where
  "demo_revocation_form = [(''token'', [''tok'']), (''client_id'', [''other''])]"

definition demo_app_token :: "json_dict token_record" where
  "demo_app_token = \<lparr>tr_access_token = ''tok'', tr_client_id = ''app'', tr_subject = ''ann'', tr_scope = ''openid'',
     tr_expires_at = 600, tr_token_type = ''Bearer'', tr_refresh_token = None, tr_user = Some demo_user,
     tr_client = Some demo_client, tr_revoked = False\<rparr>"

definition demo_token_state :: "json_dict oidc_state" where
  "demo_token_state = \<lparr>os_codes = mem_codes_init, os_tokens = [(token_key ''tok'', demo_app_token)]\<rparr>"

definition demo_revoker :: "(json_dict, unit) oidc_router" where
  "demo_revoker = demo_oidc_router\<lparr>or_max_body_bytes := int (length (rq_body (post_form demo_revocation_form)))\<rparr>"

lemma demo_revocation:
  "form_values (rq_body (post_form demo_revocation_form)) = Inr demo_revocation_form"
  "first_value demo_revocation_form ''token'' = Some ''tok''"
  "first_value demo_revocation_form ''client_id'' = Some ''other''"
  "query_client (or_provider demo_revoker) ''other'' = Some demo_client"
  "int (length (rq_body (post_form demo_revocation_form))) \<le> or_max_body_bytes demo_revoker"
  "dict_ok (os_tokens demo_token_state)"
  by (simp_all add: post_form_def form_roundtrip demo_revocation_form_def first_value_def query_client_def
      demo_revoker_def demo_oidc_router_def demo_token_state_def)

lemma revocation_by_any_client_witness:
  "mem_get_token 0 ''tok'' (os_tokens demo_token_state) = Some demo_app_token
   \<and> tr_client_id demo_app_token = ''app''
   \<and> (\<exists>st'. revocation demo_revoker demo_al (post_form demo_revocation_form) demo_token_state
            = (Inr (empty_response 200 (al_json_headers demo_al)), st')
        \<and> mem_get_token 0 ''tok'' (os_tokens st') = None)"
proof -
  have "mem_get_token 0 ''tok'' (os_tokens demo_token_state) = Some demo_app_token" "tr_client_id demo_app_token = ''app''"
    by (simp_all add: demo_token_state_def demo_app_token_def mem_get_token_def)
  then show ?thesis
    using revocation_by_any_client [OF demo_revocation(6,5,1,2) _ demo_revocation(3) _ demo_revocation(4), of demo_al]
    by auto
qed

lemma utf8_decode_ff: "0xFF \<in> set bs \<Longrightarrow> utf8_decode bs = None"
proof (induction bs rule: utf8_decode.induct)
  case (2 b bs)
  show ?case
  proof (cases "unat b < 128")
    case True
    then have "b \<noteq> 0xFF" by auto
    with 2 True show ?thesis by simp
  next
    case False
    show ?thesis
    proof (cases bs)
      case (Cons c cs)
      show ?thesis
      proof (cases "(unat b = 194 \<or> unat b = 195) \<and> 128 \<le> unat c \<and> unat c < 192")
        case True
        then have "b \<noteq> 0xFF" "c \<noteq> 0xFF" by auto
        then have "utf8_decode cs = None" using 2 False True Cons by simp
        then show ?thesis by (simp add: Cons False)
      qed (use False Cons in auto)
    qed (simp add: False)
  qed
qed simp

text \<open>
  A form that is not UTF-8 is answered by the token endpoint with Authlib's error response,
  but the revocation endpoint, which catches only UnicodeDecodeError and ValueError, fails with a
  server error.
\<close>

theorem invalid_utf8_revocation_fails:
  assumes "0xFF \<in> set (rq_body rq)" and "int (length (rq_body rq)) \<le> or_max_body_bytes r"
  shows "response_status (fst (revocation r al rq st)) = 500
    \<and> token_endpoint r al py now rq st = (Inr (al_error_response al (invalid_request None)), st)"
  using assms(2) utf8_decode_ff [OF assms(1)]
  by (simp add: revocation_def token_endpoint_def form_values_def op_bind_def op_try_def lift_result_def Let_def
      invalid_request_def)

lemma invalid_utf8_revocation_fails_witness:
  "response_status (fst (revocation demo_oidc_router demo_al (demo_oidc_request\<lparr>rq_body := [0xFF]\<rparr>) demo_oidc_start)) = 500"
  using invalid_utf8_revocation_fails [of "demo_oidc_request\<lparr>rq_body := [0xFF]\<rparr>" demo_oidc_router demo_al demo_oidc_start]
  by (simp add: demo_fields)

subsection \<open>The login redirect\<close>

lemma add_value_ok: "dict_ok d \<and> (\<forall>(k, vs) \<in> set d. vs \<noteq> []) \<Longrightarrow>
    dict_ok (add_value p d) \<and> (\<forall>(k, vs) \<in> set (add_value p d). vs \<noteq> [])"
  by (cases p) (auto simp: add_value_def dict_simps set_update_dict)

lemma add_values_ok: "dict_ok d \<and> (\<forall>(k, vs) \<in> set d. vs \<noteq> []) \<Longrightarrow>
    dict_ok (fold add_value ps d) \<and> (\<forall>(k, vs) \<in> set (fold add_value ps d). vs \<noteq> [])"
proof (induction ps arbitrary: d)
  case (Cons q ps)
  then show ?case using add_value_ok [of d q] by simp
qed simp

lemma parse_qs_ok: "parse_qs t = Some d \<Longrightarrow> dict_ok d \<and> (\<forall>(k, vs) \<in> set d. vs \<noteq> [])"
  using add_values_ok [of "[]"] by (auto simp: parse_qs_def group_values_def)

text \<open>
  C27: the login page gets back, as its next parameter, the path and query of the authorization
  request: parsing the query of the redirect yields every parameter that the login URL already had,
  and next with exactly that value.
\<close>

theorem login_redirect_keeps_request:
  assumes "login_redirect login_url next_path = Inr resp"
  shows "\<exists>u existing query. urlsplit login_url = Inr u \<and> parse_qs (su_query u) = Some existing
    \<and> rs_status resp = 302 \<and> rs_location resp = Some (su_path u @ ''?'' @ query)
    \<and> parse_qs query = Some (AList.update ''next'' [next_path] existing)"
proof -
  obtain u existing where u: "urlsplit login_url = Inr u" "parse_qs (su_query u) = Some existing"
    and resp: "resp = redirect_response 302 (su_path u @ (if urlencode (AList.update ''next'' [next_path] existing) \<noteq> []
      then ''?'' @ urlencode (AList.update ''next'' [next_path] existing) else []))"
    using assms by (auto simp: login_redirect_def res_bind_Inr Let_def split: option.splits)
  let ?d = "AList.update ''next'' [next_path] existing"
  have d: "dict_ok ?d" "\<forall>(k, vs) \<in> set ?d. vs \<noteq> []"
    using parse_qs_ok [OF u(2)] by (auto simp: set_update_dict)
  note parsed = parse_urlencode [OF d]
  have "urlencode ?d \<noteq> []"
  proof
    assume "urlencode ?d = []"
    then have "?d = []" using parsed by (simp add: parse_qs_def parse_qsl_def group_values_def)
    then show False by (cases existing) (auto split: if_splits)
  qed
  with u resp parsed show ?thesis by (simp add: redirect_response_def)
qed

lemma login_redirect_keeps_request_witness:
  "\<exists>resp query. login_redirect ''/login'' ''/a?x=1&y'' = Inr resp \<and> rs_location resp = Some (''/login?'' @ query)
    \<and> parse_qs query = Some [(''next'', [''/a?x=1&y''])]"
proof -
  have u: "urlsplit ''/login'' = Inr \<lparr>su_scheme = [], su_netloc = [], su_path = ''/login'', su_query = [], su_fragment = []\<rparr>"
    by (simp add: urlsplit_def clean_url_def split_scheme_def partition_char_def c0_or_space_def Let_def py_startswith_def)
  then obtain resp where r: "login_redirect ''/login'' ''/a?x=1&y'' = Inr resp"
    by (simp add: login_redirect_def parse_qs_def parse_qsl_def group_values_def Let_def)
  show ?thesis
    using login_redirect_keeps_request [OF r] r u by (auto simp: parse_qs_def parse_qsl_def group_values_def)
qed

end
