(* ===== verification/PasskeySettings.thy ===== *)
theory PasskeySettings
  imports PasskeyConfig PyValues
begin

section \<open>Settings of the FastAPI adapter (\<open>fastapi.py\<close>)\<close>

text \<open>
  \<open>PasskeyPaths\<close>, \<open>PasskeyCookies\<close> and \<open>PasskeyFastAPISettings\<close> with its constructor and
  \<open>from_env\<close>. An environment is a map from names to strings; the arguments of a call are
  evaluated in the order Python evaluates them, so the first one that raises decides.
\<close>

type_synonym environ = "string \<Rightarrow> string option"

record passkey_paths =
  pp_login_page :: string
  pp_register_page :: string
  pp_activation_page :: string
  pp_recovery_page :: string
  pp_credentials_page :: string
  pp_credential_label :: string
  pp_credential_remove :: string
  pp_logout :: string
  pp_login_options :: string
  pp_login_verify :: string
  pp_register_options :: string
  pp_register_verify :: string

definition passkey_paths_init :: passkey_paths where
  "passkey_paths_init =
     \<lparr>pp_login_page = ''/login'', pp_register_page = ''/register'', pp_activation_page = ''/activate'',
      pp_recovery_page = ''/recover'', pp_credentials_page = ''/account/passkeys'',
      pp_credential_label = ''/api/auth/credentials/{credential_id}/label'',
      pp_credential_remove = ''/api/auth/credentials/{credential_id}'', pp_logout = ''/logout'',
      pp_login_options = ''/api/auth/login/options'', pp_login_verify = ''/api/auth/login/verify'',
      pp_register_options = ''/api/auth/register/options'',
      pp_register_verify = ''/api/auth/register/verify''\<rparr>"

record passkey_cookies =
  pk_authentication_challenge :: string
  pk_registration_challenge :: string
  pk_cookie_path :: string
  pk_secure :: bool
  pk_httponly :: bool
  pk_samesite :: string

definition passkey_cookies_init :: passkey_cookies where
  "passkey_cookies_init =
     \<lparr>pk_authentication_challenge = ''passkey_authentication_challenge'',
      pk_registration_challenge = ''passkey_registration_challenge'', pk_cookie_path = ''/'',
      pk_secure = True, pk_httponly = True, pk_samesite = ''lax''\<rparr>"

record passkey_settings =
  ps_rp_id :: string
  ps_rp_name :: string
  ps_origins :: "string list"
  ps_timeout_ms :: int
  ps_challenge_ttl :: int
  ps_user_verification :: string
  ps_paths :: passkey_paths
  ps_cookies :: passkey_cookies

definition mk_passkey_settings ::
  "string \<Rightarrow> string \<Rightarrow> string option \<Rightarrow> int \<Rightarrow> int \<Rightarrow> string \<Rightarrow> passkey_paths option \<Rightarrow> passkey_cookies option
   \<Rightarrow> string list option \<Rightarrow> passkey_settings result" where
  "mk_passkey_settings rp_id rp_name origin timeout_ms ttl uv paths cookies origins =
     (if origin \<noteq> None \<and> origins \<noteq> None
      then Inl (ValueError ''origin and origins cannot both be configured'')
      else if origin = None \<and> origins = None
      then Inl (ValueError ''one or more origins are required'')
      else (let configured = (case origin of Some o1 \<Rightarrow> Some [o1] | None \<Rightarrow> origins) in
        res_bind (mk_passkey_config rp_id rp_name None timeout_ms ttl uv configured) (\<lambda>validated.
        Inr \<lparr>ps_rp_id = pk_rp_id validated, ps_rp_name = pk_rp_name validated,
             ps_origins = pk_origins validated, ps_timeout_ms = pk_timeout_ms validated,
             ps_challenge_ttl = pk_challenge_ttl validated,
             ps_user_verification = pk_user_verification validated,
             ps_paths = (case paths of Some p \<Rightarrow> p | None \<Rightarrow> passkey_paths_init),
             ps_cookies = (case cookies of Some c \<Rightarrow> c | None \<Rightarrow> passkey_cookies_init)\<rparr>)))"

definition settings_config :: "passkey_settings \<Rightarrow> passkey_config result" where
  "settings_config st =
     mk_passkey_config (ps_rp_id st) (ps_rp_name st) None (ps_timeout_ms st) (ps_challenge_ttl st)
       (ps_user_verification st) (Some (ps_origins st))"

subsection \<open>Reading the environment\<close>

definition env_or :: "environ \<Rightarrow> string \<Rightarrow> string \<Rightarrow> string \<Rightarrow> string" where
  "env_or env prefix name dflt = (case env (prefix @ name) of None \<Rightarrow> dflt | Some v \<Rightarrow> v)"

definition required_env :: "environ \<Rightarrow> string \<Rightarrow> string \<Rightarrow> string result" where
  "required_env env prefix name =
     (case env (prefix @ name) of
        None \<Rightarrow> Inl (ValueError (prefix @ name @ '' is required''))
      | Some v \<Rightarrow>
          if py_strip v = [] then Inl (ValueError (prefix @ name @ '' is required'')) else Inr (py_strip v))"

definition int_env :: "environ \<Rightarrow> string \<Rightarrow> string \<Rightarrow> int \<Rightarrow> int result" where
  "int_env env prefix name dflt =
     (case env (prefix @ name) of
        None \<Rightarrow> Inr dflt
      | Some v \<Rightarrow>
          (case py_int_text v of
             Inl _ \<Rightarrow> Inl (ValueError (prefix @ name @ '' must be an integer'')) | Inr n \<Rightarrow> Inr n))"

definition bool_env :: "environ \<Rightarrow> string \<Rightarrow> string \<Rightarrow> bool \<Rightarrow> bool result" where
  "bool_env env prefix name dflt =
     (case env (prefix @ name) of
        None \<Rightarrow> Inr dflt
      | Some v \<Rightarrow>
          if py_lower v \<in> {''1'', ''true'', ''yes'', ''on''} then Inr True
          else if py_lower v \<in> {''0'', ''false'', ''no'', ''off''} then Inr False
          else Inl (ValueError (prefix @ name @ '' must be a boolean'')))"

definition user_verification_env :: "environ \<Rightarrow> string \<Rightarrow> string result" where
  "user_verification_env env prefix =
     (let v = env_or env prefix ''USER_VERIFICATION'' ''required'' in
      if v \<notin> {''required'', ''preferred'', ''discouraged''}
      then Inl (ValueError (prefix @ ''USER_VERIFICATION is invalid'')) else Inr v)"

definition paths_env :: "environ \<Rightarrow> string \<Rightarrow> passkey_paths" where
  "paths_env env prefix =
     (let d = passkey_paths_init in
     \<lparr>pp_login_page = env_or env prefix ''LOGIN_PAGE'' (pp_login_page d),
      pp_register_page = env_or env prefix ''REGISTER_PAGE'' (pp_register_page d),
      pp_activation_page = env_or env prefix ''ACTIVATION_PAGE'' (pp_activation_page d),
      pp_recovery_page = env_or env prefix ''RECOVERY_PAGE'' (pp_recovery_page d),
      pp_credentials_page = env_or env prefix ''CREDENTIALS_PAGE'' (pp_credentials_page d),
      pp_credential_label = env_or env prefix ''CREDENTIAL_LABEL'' (pp_credential_label d),
      pp_credential_remove = env_or env prefix ''CREDENTIAL_REMOVE'' (pp_credential_remove d),
      pp_logout = env_or env prefix ''LOGOUT_PATH'' (pp_logout d),
      pp_login_options = env_or env prefix ''LOGIN_OPTIONS_PATH'' (pp_login_options d),
      pp_login_verify = env_or env prefix ''LOGIN_VERIFY_PATH'' (pp_login_verify d),
      pp_register_options = env_or env prefix ''REGISTER_OPTIONS_PATH'' (pp_register_options d),
      pp_register_verify = env_or env prefix ''REGISTER_VERIFY_PATH'' (pp_register_verify d)\<rparr>)"

definition cookies_env :: "environ \<Rightarrow> string \<Rightarrow> passkey_cookies result" where
  "cookies_env env prefix =
     (let d = passkey_cookies_init in
      res_bind (bool_env env prefix ''COOKIE_SECURE'' True) (\<lambda>secure.
      res_bind (bool_env env prefix ''COOKIE_HTTPONLY'' True) (\<lambda>httponly.
      Inr \<lparr>pk_authentication_challenge =
             env_or env prefix ''AUTHENTICATION_CHALLENGE_COOKIE'' (pk_authentication_challenge d),
           pk_registration_challenge =
             env_or env prefix ''REGISTRATION_CHALLENGE_COOKIE'' (pk_registration_challenge d),
           pk_cookie_path = env_or env prefix ''COOKIE_PATH'' (pk_cookie_path d),
           pk_secure = secure, pk_httponly = httponly,
           pk_samesite = env_or env prefix ''COOKIE_SAMESITE'' (pk_samesite d)\<rparr>)))"

definition settings_from_env :: "environ \<Rightarrow> string \<Rightarrow> passkey_settings result" where
  "settings_from_env env prefix =
     (let raw_origins = env (prefix @ ''ORIGINS''); raw_origin = env (prefix @ ''ORIGIN'') in
      if raw_origins \<noteq> None \<and> raw_origin \<noteq> None
      then Inl (ValueError (prefix @ ''ORIGIN and '' @ prefix @ ''ORIGINS cannot both be configured''))
      else if raw_origins = None \<and> raw_origin = None
      then Inl (ValueError (prefix @ ''ORIGIN or '' @ prefix @ ''ORIGINS is required''))
      else (let origins = (case raw_origins of
                Some t \<Rightarrow> map py_strip (split_char (CHR '','') t)
              | None \<Rightarrow> (case raw_origin of Some t \<Rightarrow> [py_strip t] | None \<Rightarrow> [])) in
        res_bind (required_env env prefix ''RP_ID'') (\<lambda>rp_id.
        res_bind (required_env env prefix ''RP_NAME'') (\<lambda>rp_name.
        res_bind (int_env env prefix ''TIMEOUT_MS'' 60000) (\<lambda>timeout_ms.
        res_bind (int_env env prefix ''CHALLENGE_TTL_SECONDS'' 300) (\<lambda>ttl.
        res_bind (user_verification_env env prefix) (\<lambda>uv.
        res_bind (cookies_env env prefix) (\<lambda>cookies.
        res_bind (mk_passkey_settings rp_id rp_name None timeout_ms ttl uv (Some (paths_env env prefix))
            (Some cookies) (Some origins)) (\<lambda>settings.
        res_bind (settings_config settings) (\<lambda>_.
        Inr settings))))))))))"

subsection \<open>What the settings promise\<close>

lemma bool_env_Inr:
  "bool_env env prefix name d = Inr b \<longleftrightarrow>
     (case env (prefix @ name) of None \<Rightarrow> b = d
      | Some v \<Rightarrow> (py_lower v \<in> {''1'', ''true'', ''yes'', ''on''} \<and> b)
          \<or> (py_lower v \<in> {''0'', ''false'', ''no'', ''off''} \<and> \<not> b))"
  by (auto simp: bool_env_def split: option.splits)

lemma cookies_env_Inr:
  "cookies_env env prefix = Inr c \<Longrightarrow>
     bool_env env prefix ''COOKIE_SECURE'' True = Inr (pk_secure c)
     \<and> bool_env env prefix ''COOKIE_HTTPONLY'' True = Inr (pk_httponly c)"
  unfolding cookies_env_def guards by auto

lemma mk_passkey_settings_Inr:
  "mk_passkey_settings rp_id rp_name None timeout_ms ttl uv paths cookies (Some origins) = Inr st \<longleftrightarrow>
     (\<exists>c. mk_passkey_config rp_id rp_name None timeout_ms ttl uv (Some origins) = Inr c
       \<and> st = \<lparr>ps_rp_id = pk_rp_id c, ps_rp_name = pk_rp_name c, ps_origins = pk_origins c,
           ps_timeout_ms = pk_timeout_ms c, ps_challenge_ttl = pk_challenge_ttl c,
           ps_user_verification = pk_user_verification c,
           ps_paths = (case paths of Some p \<Rightarrow> p | None \<Rightarrow> passkey_paths_init),
           ps_cookies = (case cookies of Some c \<Rightarrow> c | None \<Rightarrow> passkey_cookies_init)\<rparr>)"
  by (auto simp: mk_passkey_settings_def res_bind_Inr)

text \<open>
  C29: settings that can be read from an environment name exactly one of the two origin variables,
  take the relying party from the required ones, have distinct secure origins, and a positive
  challenge lifetime; the relying party configuration can be built from them again; and the
  challenge cookies are marked secure and http-only unless a variable says otherwise.
\<close>

theorem settings_from_env_sound:
  assumes "settings_from_env env prefix = Inr st"
  shows "(env (prefix @ ''ORIGINS'') = None) \<noteq> (env (prefix @ ''ORIGIN'') = None)
    \<and> required_env env prefix ''RP_ID'' = Inr (ps_rp_id st) \<and> is_ok (required_env env prefix ''RP_NAME'')
    \<and> ps_origins st \<noteq> [] \<and> distinct (ps_origins st) \<and> (\<forall>r \<in> set (ps_origins st). secure_origin r)
    \<and> 0 < ps_challenge_ttl st \<and> is_ok (settings_config st)
    \<and> (pk_secure (ps_cookies st) \<or>
        (\<exists>v. env (prefix @ ''COOKIE_SECURE'') = Some v \<and> py_lower v \<in> {''0'', ''false'', ''no'', ''off''}))
    \<and> (pk_httponly (ps_cookies st) \<or>
        (\<exists>v. env (prefix @ ''COOKIE_HTTPONLY'') = Some v \<and> py_lower v \<in> {''0'', ''false'', ''no'', ''off''}))"
proof -
  define origins where "origins = (case env (prefix @ ''ORIGINS'') of
      Some t \<Rightarrow> map py_strip (split_char (CHR '','') t)
    | None \<Rightarrow> (case env (prefix @ ''ORIGIN'') of Some t \<Rightarrow> [py_strip t] | None \<Rightarrow> []))"
  from assms obtain rp_id rp_name tm ttl uv cookies where
    one: "(env (prefix @ ''ORIGINS'') = None) \<noteq> (env (prefix @ ''ORIGIN'') = None)"
    and req: "required_env env prefix ''RP_ID'' = Inr rp_id" "required_env env prefix ''RP_NAME'' = Inr rp_name"
    and ck: "cookies_env env prefix = Inr cookies"
    and mk: "mk_passkey_settings rp_id rp_name None tm ttl uv (Some (paths_env env prefix)) (Some cookies)
        (Some origins) = Inr st"
    and cfg: "is_ok (settings_config st)"
    unfolding settings_from_env_def origins_def [symmetric] guards by (auto simp: is_ok_iff)
  from mk obtain c where c: "mk_passkey_config rp_id rp_name None tm ttl uv (Some origins) = Inr c"
    and st: "ps_rp_id st = pk_rp_id c" "ps_origins st = pk_origins c" "ps_challenge_ttl st = pk_challenge_ttl c"
      "ps_cookies st = cookies"
    by (auto simp: mk_passkey_settings_Inr)
  have cookies: "pk_secure cookies \<or>
        (\<exists>v. env (prefix @ ''COOKIE_SECURE'') = Some v \<and> py_lower v \<in> {''0'', ''false'', ''no'', ''off''})"
      "pk_httponly cookies \<or>
        (\<exists>v. env (prefix @ ''COOKIE_HTTPONLY'') = Some v \<and> py_lower v \<in> {''0'', ''false'', ''no'', ''off''})"
    using cookies_env_Inr [OF ck] by (auto simp: bool_env_Inr split: option.splits)
  show ?thesis
    using passkey_config_sound [OF c] one req cfg cookies unfolding st by (simp add: is_ok_iff)
qed

definition demo_env :: environ where
  "demo_env = map_of [(''P_ORIGINS'', '' https://a.io , https://W.a.io:443''), (''P_RP_ID'', ''a.io''),
     (''P_RP_NAME'', ''Example''), (''P_COOKIE_SECURE'', ''ON'')]"

lemma settings_from_env_sound_witness:
  "\<exists>st. settings_from_env demo_env ''P_'' = Inr st \<and> ps_origins st = [''https://a.io'', ''https://w.a.io'']
     \<and> pk_secure (ps_cookies st)"
proof -
  have cfg: "mk_passkey_config ''a.io'' ''Example'' None 60000 300 ''required'' (Some os) =
      Inr \<lparr>pk_rp_id = ''a.io'', pk_rp_name = ''Example'', pk_origins = [''https://a.io'', ''https://w.a.io''],
        pk_timeout_ms = 60000, pk_challenge_ttl = 300, pk_user_verification = ''required''\<rparr>"
    if "os = [''https://a.io'', ''https://W.a.io:443''] \<or> os = [''https://a.io'', ''https://w.a.io'']" for os
    using that by (auto simp: mk_passkey_config_def non_empty_trimmed_def py_strip_def py_isspace_def
        py_contains_def py_startswith_def py_lower_def lower_char_def config_eval_defs char_of_def bit_Suc_0_iff)
  have os: "map py_strip (split_char (CHR '','') '' https://a.io , https://W.a.io:443'') =
      [''https://a.io'', ''https://W.a.io:443'']"
    by (simp add: py_strip_def py_isspace_def)
  have env: "demo_env ''P_ORIGINS'' = Some '' https://a.io , https://W.a.io:443''" "demo_env ''P_ORIGIN'' = None"
    "demo_env ''P_RP_ID'' = Some ''a.io''" "demo_env ''P_RP_NAME'' = Some ''Example''"
    "demo_env ''P_COOKIE_SECURE'' = Some ''ON''" "demo_env ''P_COOKIE_HTTPONLY'' = None"
    "demo_env ''P_TIMEOUT_MS'' = None" "demo_env ''P_CHALLENGE_TTL_SECONDS'' = None"
    "demo_env ''P_USER_VERIFICATION'' = None"
    by (simp_all add: demo_env_def)
  have on: "py_lower ''ON'' = ''on''"
    by (simp add: py_lower_def lower_char_def char_of_def bit_Suc_0_iff)
  obtain cookies where ck: "cookies_env demo_env ''P_'' = Inr cookies" "pk_secure cookies"
    by (simp add: cookies_env_def bool_env_def env on)
  obtain st where st: "settings_from_env demo_env ''P_'' = Inr st" "ps_origins st = [''https://a.io'', ''https://w.a.io'']"
    by (simp add: settings_from_env_def env os required_env_def int_env_def user_verification_env_def env_or_def
        ck mk_passkey_settings_def settings_config_def cfg py_strip_def py_isspace_def)
  have "pk_secure (ps_cookies st)"
    using settings_from_env_sound [OF st(1)] env on by auto
  with st show ?thesis by blast
qed

end
