(* ===== verification/PasskeyRouter.thy ===== *)
theory PasskeyRouter
  imports Http PasskeyService PasskeySettings
begin

section \<open>The passkey routes (\<open>fastapi.py\<close>)\<close>

text \<open>
  \<open>PasskeyAuthRouter\<close>: every handler, over any service and any host. The hooks of the host
  application are parameters that may read and change the whole state: the two stores of the
  service and the host's own state \<open>'h\<close>. Each handler is given the clock and the random flow
  identifier it would draw. Logging is left out.
\<close>

subsection \<open>Rate limiting decisions\<close>

datatype rate_operation = LoginOptions | LoginVerify | RegisterOptions | RegisterVerify

record rate_limit_decision =
  rd_allowed :: bool
  rd_retry_after :: "int option"

definition mk_rate_limit_decision :: "bool \<Rightarrow> int option \<Rightarrow> rate_limit_decision result" where
  "mk_rate_limit_decision allowed retry =
     (if retry \<noteq> None \<and> the retry < 0
      then Inl (ValueError ''retry_after_seconds must be a non-negative integer'')
      else Inr \<lparr>rd_allowed = allowed, rd_retry_after = retry\<rparr>)"

definition rate_allow :: "rate_limit_decision result" where
  "rate_allow = mk_rate_limit_decision True None"

definition rate_deny :: "int option \<Rightarrow> rate_limit_decision result" where
  "rate_deny retry = mk_rate_limit_decision False retry"

subsection \<open>The host's hooks and the router\<close>

text \<open>
  \<open>hk_rate_limit\<close> returns \<open>None\<close> for an object that is no \<open>RateLimitDecision\<close>. \<open>login\<close> and
  \<open>logout\<close> change the response they are given.
\<close>

record 's route_hooks =
  hk_get_session_user :: "http_request \<Rightarrow> ('s, passkey_user option) op"
  hk_prepare_registration :: "http_request \<Rightarrow> string \<Rightarrow> ('s, passkey_user) op"
  hk_complete_registration :: "http_request \<Rightarrow> verified_registration \<Rightarrow> ('s, passkey_user option) op"
  hk_get_auth_user :: "string \<Rightarrow> ('s, passkey_user option) op"
  hk_login :: "http_response \<Rightarrow> http_request \<Rightarrow> passkey_user \<Rightarrow> ('s, http_response) op"
  hk_logout :: "http_response \<Rightarrow> http_request \<Rightarrow> ('s, http_response) op"
  hk_render_login :: "http_request \<Rightarrow> ('s, http_response) op"
  hk_render_register :: "http_request \<Rightarrow> ('s, http_response) op"
  hk_after_register :: "http_request \<Rightarrow> passkey_user \<Rightarrow> passkey_credential \<Rightarrow> ('s, unit) op"
  hk_after_login :: "http_request \<Rightarrow> passkey_user \<Rightarrow> passkey_credential \<Rightarrow> ('s, unit) op"
  hk_prepare_context :: "(http_request \<Rightarrow> string \<Rightarrow> string \<Rightarrow> ('s, registration_context) op) option"
  hk_prepare_capability :: "(http_request \<Rightarrow> string \<Rightarrow> registration_kind \<Rightarrow> string
      \<Rightarrow> ('s, registration_context) op) option"
  hk_render_capability :: "(http_request \<Rightarrow> registration_kind \<Rightarrow> string option \<Rightarrow> ('s, http_response) op) option"
  hk_render_credentials :: "(http_request \<Rightarrow> passkey_credential list \<Rightarrow> ('s, http_response) op) option"
  hk_allow_final :: "(http_request \<Rightarrow> passkey_user \<Rightarrow> ('s, bool) op) option"
  hk_rate_limit :: "(http_request \<Rightarrow> rate_operation \<Rightarrow> ('s, rate_limit_decision option) op) option"

record ('c, 'k, 'h) passkey_router =
  rt_service :: "('c, 'k) service"
  rt_hooks :: "(('c \<times> 'k) \<times> 'h) route_hooks"
  rt_paths :: passkey_paths
  rt_cookies :: passkey_cookies

definition build_passkey_plugin ::
  "passkey_settings \<Rightarrow> 'c challenge_ops \<Rightarrow> 'k credential_ops \<Rightarrow> webauthn \<Rightarrow> (json \<Rightarrow> string)
   \<Rightarrow> (('c \<times> 'k) \<times> 'h) route_hooks \<Rightarrow> ('c, 'k, 'h) passkey_router result" where
  "build_passkey_plugin settings challenges credentials wa repr hooks =
     res_bind (settings_config settings) (\<lambda>cfg.
     Inr \<lparr>rt_service = \<lparr>sv_config = cfg, sv_challenges = challenges, sv_credentials = credentials,
            sv_webauthn = wa, sv_repr = repr\<rparr>,
          rt_hooks = hooks, rt_paths = ps_paths settings, rt_cookies = ps_cookies settings\<rparr>)"

datatype endpoint = LoginPage | RegisterPage | CredentialsPage | LabelEndpoint | RemoveEndpoint
  | ActivationPage | RecoveryPage | LogoutEndpoint | OptionsEndpoint rate_operation

definition passkey_routes :: "('c, 'k, 'h) passkey_router \<Rightarrow> (string \<times> string \<times> endpoint) list" where
  "passkey_routes rt =
     (let p = rt_paths rt; h = rt_hooks rt in
     [(''GET'', pp_login_page p, LoginPage), (''GET'', pp_register_page p, RegisterPage)]
     @ (if hk_render_credentials h = None then []
        else [(''GET'', pp_credentials_page p, CredentialsPage),
              (''POST'', pp_credential_label p, LabelEndpoint),
              (''DELETE'', pp_credential_remove p, RemoveEndpoint)])
     @ (if hk_render_capability h = None then []
        else [(''GET'', pp_activation_page p, ActivationPage), (''GET'', pp_recovery_page p, RecoveryPage)])
     @ [(''POST'', pp_logout p, LogoutEndpoint),
        (''POST'', pp_login_options p, OptionsEndpoint LoginOptions),
        (''POST'', pp_login_verify p, OptionsEndpoint LoginVerify),
        (''POST'', pp_register_options p, OptionsEndpoint RegisterOptions),
        (''POST'', pp_register_verify p, OptionsEndpoint RegisterVerify)])"

definition on_service :: "('t, 'a) op \<Rightarrow> ('t \<times> 'h, 'a) op" where
  "on_service f s = (case f (fst s) of (r, t) \<Rightarrow> (r, (t, snd s)))"

subsection \<open>Helpers\<close>

definition json_body :: "http_request \<Rightarrow> json_dict result" where
  "json_body rq =
     (case rq_json rq of
        Inl _ \<Rightarrow> Inl (HTTPException 400 ''invalid JSON body'' [])
      | Inr (JObj d) \<Rightarrow> Inr d
      | Inr _ \<Rightarrow> Inl (HTTPException 400 ''JSON object body is required'' []))"

definition credential_id_path :: "string \<Rightarrow> bytes result" where
  "credential_id_path value =
     (case b64url_to_bytes value of
        Inl _ \<Rightarrow> Inl (HTTPException 404 ''credential not found'' []) | Inr b \<Rightarrow> Inr b)"

text \<open>\<open>raw_kind not in {...}\<close> hashes the value, which a list or a dict refuses.\<close>

definition capability_registration :: "json_dict \<Rightarrow> (registration_kind \<times> string) option result" where
  "capability_registration body =
     (let selected = (\<lambda>kind. case json_get ''capability'' body of
            JStr c \<Rightarrow> (if py_strip c = []
              then Inl (HTTPException 400 ''enrollment capability is unavailable'' [])
              else Inr (Some (kind, py_strip c)))
          | _ \<Rightarrow> Inl (HTTPException 400 ''enrollment capability is unavailable'' []))
      in (case json_get ''registration_kind'' body of
          JStr k \<Rightarrow> (if k = ''invitation'' then selected Invitation
            else if k = ''recovery'' then selected Recovery else Inr None)
        | JArr _ \<Rightarrow> Inl (TypeError ''unhashable type'')
        | JObj _ \<Rightarrow> Inl (TypeError ''unhashable type'')
        | _ \<Rightarrow> Inr None))"

definition registration_username :: "json_dict \<Rightarrow> string result" where
  "registration_username body =
     (case json_get ''username'' body of
        JStr v \<Rightarrow>
          (if py_strip v = [] then Inl (HTTPException 400 ''username is required'' [])
           else if \<exists>c \<in> set (py_strip v). py_isspace c
           then Inl (HTTPException 400 ''username must not contain whitespace'' [])
           else Inr (py_strip v))
      | _ \<Rightarrow> Inl (HTTPException 400 ''username is required'' []))"

fun auth_error :: "exn \<Rightarrow> bool" where
  "auth_error (ChallengeNotFound _) = True"
| "auth_error (CredentialNotFound _) = True"
| "auth_error (UserHandleMismatch _) = True"
| "auth_error (WebAuthnException _) = True"
| "auth_error _ = False"

definition bad_request :: "exn \<Rightarrow> ('s, 'a) op" where
  "bad_request e = raise_op (if auth_error e then HTTPException 400 (exn_text e) [] else e)"

definition challenge_cookie :: "http_request \<Rightarrow> string \<Rightarrow> string result" where
  "challenge_cookie rq name =
     (if truthy (rq_cookies rq name) then Inr (the (rq_cookies rq name))
      else Inl (HTTPException 400 ''missing passkey challenge'' []))"

definition set_challenge_cookie ::
  "('c, 'k, 'h) passkey_router \<Rightarrow> http_response \<Rightarrow> string \<Rightarrow> string \<Rightarrow> http_response" where
  "set_challenge_cookie rt r key value =
     r\<lparr>rs_cookies := rs_cookies r @ [\<lparr>ck_key = key, ck_value = value,
        ck_max_age = Some (pk_challenge_ttl (sv_config (rt_service rt))), ck_path = pk_cookie_path (rt_cookies rt),
        ck_secure = pk_secure (rt_cookies rt), ck_httponly = pk_httponly (rt_cookies rt),
        ck_samesite = pk_samesite (rt_cookies rt)\<rparr>]\<rparr>"

definition delete_challenge_cookie ::
  "('c, 'k, 'h) passkey_router \<Rightarrow> http_response \<Rightarrow> string \<Rightarrow> http_response" where
  "delete_challenge_cookie rt r key =
     r\<lparr>rs_cookies := rs_cookies r @ [\<lparr>ck_key = key, ck_value = [], ck_max_age = Some 0,
        ck_path = pk_cookie_path (rt_cookies rt), ck_secure = pk_secure (rt_cookies rt),
        ck_httponly = pk_httponly (rt_cookies rt), ck_samesite = pk_samesite (rt_cookies rt)\<rparr>]\<rparr>"

definition check_rate_limit ::
  "('c, 'k, 'h) passkey_router \<Rightarrow> http_request \<Rightarrow> rate_operation \<Rightarrow> (('c \<times> 'k) \<times> 'h, unit) op" where
  "check_rate_limit rt rq operation =
     (case hk_rate_limit (rt_hooks rt) of
        None \<Rightarrow> return_op ()
      | Some limiter \<Rightarrow>
          op_bind (op_try (limiter rq operation)
              (\<lambda>_. raise_op (HTTPException 503 ''authentication temporarily unavailable'' []))) (\<lambda>decision.
          case decision of
            None \<Rightarrow> raise_op (HTTPException 503 ''authentication temporarily unavailable'' [])
          | Some d \<Rightarrow>
              if \<not> rd_allowed d
              then raise_op (HTTPException 429 ''too many authentication attempts''
                (case rd_retry_after d of None \<Rightarrow> [] | Some n \<Rightarrow> [(''Retry-After'', int_text n)]))
              else return_op ()))"

definition require_session_user ::
  "('c, 'k, 'h) passkey_router \<Rightarrow> http_request \<Rightarrow> (('c \<times> 'k) \<times> 'h, passkey_user) op" where
  "require_session_user rt rq =
     op_bind (hk_get_session_user (rt_hooks rt) rq) (\<lambda>user.
     case user of
       None \<Rightarrow> raise_op (HTTPException 401 ''authentication required'' []) | Some u \<Rightarrow> return_op u)"

subsection \<open>Pages\<close>

definition login_page ::
  "('c, 'k, 'h) passkey_router \<Rightarrow> http_request \<Rightarrow> (('c \<times> 'k) \<times> 'h, http_response) op" where
  "login_page rt rq = hk_render_login (rt_hooks rt) rq"

definition register_page ::
  "('c, 'k, 'h) passkey_router \<Rightarrow> http_request \<Rightarrow> (('c \<times> 'k) \<times> 'h, http_response) op" where
  "register_page rt rq = hk_render_register (rt_hooks rt) rq"

definition credentials_page ::
  "('c, 'k, 'h) passkey_router \<Rightarrow> http_request \<Rightarrow> (('c \<times> 'k) \<times> 'h, http_response) op" where
  "credentials_page rt rq =
     op_bind (require_session_user rt rq) (\<lambda>user.
     case hk_render_credentials (rt_hooks rt) of
       None \<Rightarrow> raise_op (HTTPException 404 ''not found'' [])
     | Some renderer \<Rightarrow>
         op_bind (on_service (\<lambda>s. (list_credentials (rt_service rt) (pu_user_id user) s, s))) (renderer rq))"

definition capability_registration_page ::
  "('c, 'k, 'h) passkey_router \<Rightarrow> http_request \<Rightarrow> registration_kind \<Rightarrow> (('c \<times> 'k) \<times> 'h, http_response) op" where
  "capability_registration_page rt rq kind =
     (case hk_render_capability (rt_hooks rt) of
        None \<Rightarrow> raise_op (HTTPException 404 ''not found'' [])
      | Some renderer \<Rightarrow> renderer rq kind (query_get rq ''capability''))"

subsection \<open>Managing credentials\<close>

definition credential_label ::
  "('c, 'k, 'h) passkey_router \<Rightarrow> http_request \<Rightarrow> string \<Rightarrow> (('c \<times> 'k) \<times> 'h, http_response) op" where
  "credential_label rt rq credential_id =
     op_bind (require_session_user rt rq) (\<lambda>user.
     op_bind (pure_op (json_body rq)) (\<lambda>body.
     op_bind (pure_op (case json_get ''label'' body of
         JNull \<Rightarrow> Inr None | JStr l \<Rightarrow> Inr (Some l)
       | _ \<Rightarrow> Inl (HTTPException 400 ''invalid credential label'' []))) (\<lambda>label.
     op_bind (op_try
         (op_bind (pure_op (credential_id_path credential_id)) (\<lambda>cid.
          on_service (label_credential (rt_service rt) (pu_user_id user) cid label)))
         (\<lambda>e. if is_ValueError e then raise_op (HTTPException 400 (exn_text e) [])
           else (case e of CredentialNotFound _ \<Rightarrow> raise_op (HTTPException 404 ''credential not found'' [])
             | _ \<Rightarrow> raise_op e))) (\<lambda>_.
     credentials_page rt rq))))"

definition credential_remove ::
  "('c, 'k, 'h) passkey_router \<Rightarrow> http_request \<Rightarrow> string \<Rightarrow> (('c \<times> 'k) \<times> 'h, http_response) op" where
  "credential_remove rt rq credential_id =
     op_bind (require_session_user rt rq) (\<lambda>user.
     op_bind (case hk_allow_final (rt_hooks rt) of
         None \<Rightarrow> return_op False | Some allow \<Rightarrow> allow rq user) (\<lambda>allow_final.
     op_bind (op_try
         (op_bind (pure_op (credential_id_path credential_id)) (\<lambda>cid.
          on_service (remove_credential (rt_service rt) (pu_user_id user) cid allow_final)))
         (\<lambda>e. case e of
             CredentialNotFound _ \<Rightarrow> raise_op (HTTPException 404 ''credential not found'' [])
           | CredentialMutationDenied m \<Rightarrow> raise_op (HTTPException 409 m [])
           | _ \<Rightarrow> raise_op e)) (\<lambda>_.
     credentials_page rt rq)))"

subsection \<open>Logging in\<close>

definition ok_body :: json where
  "ok_body = JObj [(''ok'', JBool True)]"

definition login_options ::
  "('c, 'k, 'h) passkey_router \<Rightarrow> datetime \<Rightarrow> string \<Rightarrow> http_request \<Rightarrow> (('c \<times> 'k) \<times> 'h, http_response) op" where
  "login_options rt now flow_id rq =
     op_bind (check_rate_limit rt rq LoginOptions) (\<lambda>_.
     op_bind (on_service (begin_authentication (rt_service rt) now flow_id [])) (\<lambda>options.
     return_op (set_challenge_cookie rt (json_response 200 [] options)
       (pk_authentication_challenge (rt_cookies rt)) flow_id)))"

text \<open>The observer \<open>after_login\<close> may fail: what it did is kept, the failure is not reported.\<close>

definition observe :: "('s, unit) op \<Rightarrow> ('s, unit) op" where
  "observe f = op_try f (\<lambda>_. return_op ())"

definition admit_login ::
  "('c, 'k, 'h) passkey_router \<Rightarrow> http_request \<Rightarrow> authentication_result \<Rightarrow> (('c \<times> 'k) \<times> 'h, http_response) op" where
  "admit_login rt rq ar =
     op_bind (hk_get_auth_user (rt_hooks rt) (pu_user_id (ar_user ar))) (\<lambda>user.
     case user of
       None \<Rightarrow> raise_op (HTTPException 403 ''authenticated user is not allowed'' [])
     | Some u \<Rightarrow>
         op_bind (hk_login (rt_hooks rt) (delete_challenge_cookie rt (json_response 200 [] ok_body)
             (pk_authentication_challenge (rt_cookies rt))) rq u) (\<lambda>response.
         op_bind (observe (hk_after_login (rt_hooks rt) rq u (ar_credential ar))) (\<lambda>_.
         return_op response)))"

definition login_verify ::
  "('c, 'k, 'h) passkey_router \<Rightarrow> datetime \<Rightarrow> http_request \<Rightarrow> (('c \<times> 'k) \<times> 'h, http_response) op" where
  "login_verify rt now rq =
     op_bind (check_rate_limit rt rq LoginVerify) (\<lambda>_.
     op_bind (pure_op (challenge_cookie rq (pk_authentication_challenge (rt_cookies rt)))) (\<lambda>flow_id.
     op_bind (pure_op (json_body rq)) (\<lambda>credential.
     op_bind (op_try (on_service
         (finish_authentication (rt_service rt) now flow_id (CMapping credential) False)) bad_request)
       (admit_login rt rq))))"

subsection \<open>Registering\<close>

text \<open>What decides the context of a registration, for a session user or from the request body.\<close>

definition capability_context ::
  "('c, 'k, 'h) passkey_router \<Rightarrow> http_request \<Rightarrow> string \<Rightarrow> registration_kind \<Rightarrow> string
   \<Rightarrow> (('c \<times> 'k) \<times> 'h, registration_context) op" where
  "capability_context rt rq flow_id kind capability =
     (case hk_prepare_capability (rt_hooks rt) of
        None \<Rightarrow> raise_op (HTTPException 400 ''enrollment capability is unavailable'' [])
      | Some resolver \<Rightarrow>
          op_bind (op_try (resolver rq flow_id kind capability)
              (\<lambda>_. raise_op (HTTPException 400 ''enrollment capability is unavailable'' []))) (\<lambda>context.
          if rc_kind context \<noteq> kind
          then raise_op (HTTPException 400 ''enrollment capability is unavailable'' [])
          else return_op context))"

definition body_context ::
  "('c, 'k, 'h) passkey_router \<Rightarrow> http_request \<Rightarrow> string \<Rightarrow> (('c \<times> 'k) \<times> 'h, registration_context) op" where
  "body_context rt rq flow_id =
     op_bind (pure_op (json_body rq)) (\<lambda>body.
     op_bind (pure_op (capability_registration body)) (\<lambda>capability_flow.
     case capability_flow of
       Some (kind, capability) \<Rightarrow> capability_context rt rq flow_id kind capability
     | None \<Rightarrow>
         op_bind (pure_op (registration_username body)) (\<lambda>username.
         case hk_prepare_context (rt_hooks rt) of
           Some prepare \<Rightarrow> prepare rq flow_id username
         | None \<Rightarrow>
             op_bind (hk_prepare_registration (rt_hooks rt) rq username) (\<lambda>user.
             pure_op (mk_registration_context SelfRegistration user None)))))"

definition register_options ::
  "('c, 'k, 'h) passkey_router \<Rightarrow> datetime \<Rightarrow> string \<Rightarrow> http_request \<Rightarrow> (('c \<times> 'k) \<times> 'h, http_response) op" where
  "register_options rt now flow_id rq =
     op_bind (check_rate_limit rt rq RegisterOptions) (\<lambda>_.
     op_bind (hk_get_session_user (rt_hooks rt) rq) (\<lambda>session_user.
     op_bind (case session_user of
         Some u \<Rightarrow> pure_op (mk_registration_context AdditionalCredential u None)
       | None \<Rightarrow> body_context rt rq flow_id) (\<lambda>context.
     op_bind (on_service (begin_registration (rt_service rt) now flow_id None (Some context))) (\<lambda>options.
     return_op (set_challenge_cookie rt (json_response 200 [] options)
       (pk_registration_challenge (rt_cookies rt)) flow_id)))))"

definition admit_registration ::
  "('c, 'k, 'h) passkey_router \<Rightarrow> http_request \<Rightarrow> verified_registration \<Rightarrow> (('c \<times> 'k) \<times> 'h, http_response) op" where
  "admit_registration rt rq vr =
     op_bind (op_try (hk_complete_registration (rt_hooks rt) rq vr)
         (\<lambda>_. raise_op (HTTPException 500 ''registration could not be completed'' []))) (\<lambda>user.
     case user of
       None \<Rightarrow> raise_op (HTTPException 403 ''registered user is not allowed'' [])
     | Some u \<Rightarrow>
         op_bind (hk_login (rt_hooks rt) (delete_challenge_cookie rt (json_response 200 [] ok_body)
             (pk_registration_challenge (rt_cookies rt))) rq u) (\<lambda>response.
         op_bind (observe (hk_after_register (rt_hooks rt) rq u (vr_credential vr))) (\<lambda>_.
         return_op response)))"

definition register_verify ::
  "('c, 'k, 'h) passkey_router \<Rightarrow> datetime \<Rightarrow> http_request \<Rightarrow> (('c \<times> 'k) \<times> 'h, http_response) op" where
  "register_verify rt now rq =
     op_bind (check_rate_limit rt rq RegisterVerify) (\<lambda>_.
     op_bind (pure_op (challenge_cookie rq (pk_registration_challenge (rt_cookies rt)))) (\<lambda>flow_id.
     op_bind (op_try
         (op_bind (pure_op (json_body rq)) (\<lambda>credential.
          on_service (verify_registration (rt_service rt) now flow_id (CMapping credential)))) bad_request)
       (admit_registration rt rq)))"

definition logout ::
  "('c, 'k, 'h) passkey_router \<Rightarrow> http_request \<Rightarrow> (('c \<times> 'k) \<times> 'h, http_response) op" where
  "logout rt rq =
     op_bind (hk_logout (rt_hooks rt) (redirect_response 303 (pp_login_page (rt_paths rt))) rq) (\<lambda>response.
     return_op (delete_challenge_cookie rt
       (delete_challenge_cookie rt response (pk_authentication_challenge (rt_cookies rt)))
       (pk_registration_challenge (rt_cookies rt))))"

text \<open>The handler of an endpoint; the path parameter is used by two of them.\<close>

fun handle ::
  "('c, 'k, 'h) passkey_router \<Rightarrow> datetime \<Rightarrow> string \<Rightarrow> string \<Rightarrow> http_request \<Rightarrow> endpoint
   \<Rightarrow> (('c \<times> 'k) \<times> 'h, http_response) op" where
  "handle rt now fresh param rq LoginPage = login_page rt rq"
| "handle rt now fresh param rq RegisterPage = register_page rt rq"
| "handle rt now fresh param rq CredentialsPage = credentials_page rt rq"
| "handle rt now fresh param rq LabelEndpoint = credential_label rt rq param"
| "handle rt now fresh param rq RemoveEndpoint = credential_remove rt rq param"
| "handle rt now fresh param rq ActivationPage = capability_registration_page rt rq Invitation"
| "handle rt now fresh param rq RecoveryPage = capability_registration_page rt rq Recovery"
| "handle rt now fresh param rq LogoutEndpoint = logout rt rq"
| "handle rt now fresh param rq (OptionsEndpoint LoginOptions) = login_options rt now fresh rq"
| "handle rt now fresh param rq (OptionsEndpoint LoginVerify) = login_verify rt now rq"
| "handle rt now fresh param rq (OptionsEndpoint RegisterOptions) = register_options rt now fresh rq"
| "handle rt now fresh param rq (OptionsEndpoint RegisterVerify) = register_verify rt now rq"

end
