(* ===== verification/RouterProperties.thy ===== *)
theory RouterProperties
  imports PasskeyRouter PasskeyProperties
begin

section \<open>Properties of the passkey routes\<close>

text \<open>
  What the handlers guarantee to a host, over the SQLite stores and any \<open>webauthn\<close> package. The
  host is arbitrary but for the hooks that are said to be quiet: they only read.
\<close>

definition quiet :: "('s, 'a) op \<Rightarrow> bool" where
  "quiet f \<longleftrightarrow> (\<forall>s. snd (f s) = s)"

definition quiet_limiter :: "'s route_hooks \<Rightarrow> bool" where
  "quiet_limiter h \<longleftrightarrow> (\<forall>limiter rq operation. hk_rate_limit h = Some limiter \<longrightarrow> quiet (limiter rq operation))"

lemma quietD: "quiet f \<Longrightarrow> f s = (r, s') \<Longrightarrow> s' = s"
  by (metis quiet_def snd_conv)

lemma rate_limit_quiet:
  assumes "quiet_limiter (rt_hooks rt)" and "check_rate_limit rt rq operation s = (r, s')"
  shows "s' = s"
  using assms by (auto simp: check_rate_limit_def op_bind_def op_try_def quiet_limiter_def
      split: option.splits prod.splits sum.splits if_splits dest: quietD)

lemma challenge_cookie_Inr:
  "challenge_cookie rq name = Inr v \<longleftrightarrow> rq_cookies rq name = Some v \<and> v \<noteq> []"
  by (cases "rq_cookies rq name") (auto simp: challenge_cookie_def)

lemma json_body_Inr: "json_body rq = Inr d \<longleftrightarrow> rq_json rq = Inr (JObj d)"
  by (auto simp: json_body_def split: sum.splits json.splits)

lemma on_service_eq: "on_service f s = (r, s') \<longleftrightarrow> (\<exists>t. f (fst s) = (r, t) \<and> s' = (t, snd s))"
  by (auto simp: on_service_def split: prod.splits)

lemma pure_op_bind: "op_bind (pure_op r) g s = (case r of Inl e \<Rightarrow> (Inl e, s) | Inr a \<Rightarrow> g a s)"
  by (simp add: op_bind_def pure_op_def)

subsection \<open>A login changes the host only after a verified assertion\<close>

text \<open>The stored facts that a login with the response \<open>d\<close> in the flow \<open>f\<close> rests on.\<close>

definition assertion_verified ::
  "passkey_config \<Rightarrow> webauthn \<Rightarrow> (json \<Rightarrow> string) \<Rightarrow> datetime \<Rightarrow> string \<Rightarrow> json_dict
   \<Rightarrow> challenge_table \<times> cred_db \<Rightarrow> passkey_user \<Rightarrow> bool" where
  "assertion_verified cfg wa repr now f d s user \<longleftrightarrow>
     (\<exists>cid stored r v. credential_id_from_response repr d = Inr cid
        \<and> sql_get_credential cid (snd s) = Inr (Some stored)
        \<and> sql_get_user (pc_user_id stored) (snd s) = Inr (Some user)
        \<and> user_handle_from_response d \<in> {Inr None, Inr (Some (pu_user_handle user))}
        \<and> sql_live (fst s) now f Authentication = Some r
        \<and> wa_verify_authentication wa d (ch_challenge r) (pk_rp_id cfg) (pk_origins cfg) (pc_public_key stored)
            (pc_sign_count stored) (require_user_verification cfg) = Inr v)"

lemma finish_verified:
  assumes "challenge_table_ok (fst s)" and "cred_db_ok (snd s)" and "valid_datetime now"
    and "finish_authentication (sql_service cfg wa repr) now f (CMapping d) False s = (Inr ar, s')"
  shows "assertion_verified cfg wa repr now f d s (ar_user ar)"
proof -
  obtain d' cid stored r v where
    subj: "login_subject (sql_service cfg wa repr) (CMapping d) False (snd s) = Inr (d', cid, stored, ar_user ar)"
    and live: "sql_live (fst s) now f Authentication = Some r"
    and verified: "wa_verify_authentication wa d' (ch_challenge r) (pk_rp_id cfg) (pk_origins cfg)
        (pc_public_key stored) (pc_sign_count stored) (require_user_verification cfg) = Inr v"
    by (rule sqlsvc.finish_Inr [OF assms]) simp
  then show ?thesis
    using subj unfolding sqlsvc.login_subject_Inr [OF assms(2)] assertion_verified_def
    by (auto simp: sqlc.get_cred_spec assms(2) sqlc.get_user_spec)
qed

lemma login_verify_unfold:
  "login_verify rt now rq s =
    (case check_rate_limit rt rq LoginVerify s of
       (Inl e, s1) \<Rightarrow> (Inl e, s1)
     | (Inr _, s1) \<Rightarrow>
        (case challenge_cookie rq (pk_authentication_challenge (rt_cookies rt)) of
           Inl e \<Rightarrow> (Inl e, s1)
         | Inr f \<Rightarrow>
            (case json_body rq of
               Inl e \<Rightarrow> (Inl e, s1)
             | Inr d \<Rightarrow>
                (case finish_authentication (rt_service rt) now f (CMapping d) False (fst s1) of
                   (Inl e, t) \<Rightarrow> (Inl (if auth_error e then HTTPException 400 (exn_text e) [] else e), (t, snd s1))
                 | (Inr ar, t) \<Rightarrow> admit_login rt rq ar (t, snd s1)))))"
  by (auto simp: login_verify_def op_bind_def pure_op_def op_try_def on_service_def bad_request_def
      split: sum.split prod.split)

text \<open>
  C10: posting to the login route changes nothing of the host's state (so it opens no session)
  unless the request carries the cookie of a running flow and a response that the package accepts
  against the challenge of that flow with a stored credential, whose user the host then admits.
\<close>

theorem session_only_after_verified_login:
  assumes "challenge_table_ok (fst (fst s))" and "cred_db_ok (snd (fst s))" and "valid_datetime now"
    and "rt_service rt = sql_service cfg wa repr" and "quiet_limiter (rt_hooks rt)"
    and "\<forall>uid. quiet (hk_get_auth_user (rt_hooks rt) uid)"
    and "login_verify rt now rq s = (res, s')" and "snd s' \<noteq> snd s"
  shows "\<exists>f d user u. rq_cookies rq (pk_authentication_challenge (rt_cookies rt)) = Some f
    \<and> rq_json rq = Inr (JObj d) \<and> assertion_verified cfg wa repr now f d (fst s) user
    \<and> (\<exists>t. fst (hk_get_auth_user (rt_hooks rt) (pu_user_id user) t) = Inr (Some u))"
proof -
  obtain x s1 where rate: "check_rate_limit rt rq LoginVerify s = (x, s1)" by (metis surj_pair)
  then have s1: "s1 = s" using rate_limit_quiet assms(5) by blast
  note run = assms(7) [unfolded login_verify_unfold rate s1 prod.case]
  obtain f where f: "challenge_cookie rq (pk_authentication_challenge (rt_cookies rt)) = Inr f"
    using run assms(8) by (cases x; cases "challenge_cookie rq (pk_authentication_challenge (rt_cookies rt))") simp_all
  obtain d where d: "json_body rq = Inr d"
    using run assms(8) f by (cases x; cases "json_body rq") simp_all
  obtain y t where fin: "finish_authentication (rt_service rt) now f (CMapping d) False (fst s) = (y, t)"
    by (metis surj_pair)
  obtain ar where ar: "y = Inr ar" and admit: "admit_login rt rq ar (t, snd s) = (res, s')"
    using run assms(8) f d fin by (cases x; cases y) auto
  obtain z t' where auth: "hk_get_auth_user (rt_hooks rt) (pu_user_id (ar_user ar)) (t, snd s) = (z, t')"
    by (metis surj_pair)
  have t': "t' = (t, snd s)" by (rule quietD [OF assms(6) [rule_format] auth])
  have "\<exists>u. z = Inr (Some u)"
    using admit assms(8) auth t' by (auto simp: admit_login_def op_bind_def split: sum.splits option.splits)
  then have "\<exists>u t. fst (hk_get_auth_user (rt_hooks rt) (pu_user_id (ar_user ar)) t) = Inr (Some u)"
    using auth by (metis fst_conv)
  moreover have "assertion_verified cfg wa repr now f d (fst s) (ar_user ar)"
    using finish_verified assms(1-4) fin ar by simp
  ultimately show ?thesis
    using f [unfolded challenge_cookie_Inr] d [unfolded json_body_Inr] by blast
qed

definition demo_hooks :: "((challenge_table \<times> cred_db) \<times> string list) route_hooks" where
  "demo_hooks = \<lparr>hk_get_session_user = (\<lambda>_. return_op None),
     hk_prepare_registration = (\<lambda>_ _. return_op ann),
     hk_complete_registration = (\<lambda>_ vr. on_service (\<lambda>t. case on_credentials (sql_save_registration vr) t of
       (Inl e, t') \<Rightarrow> (Inl e, t') | (Inr _, t') \<Rightarrow> (Inr (Some (vr_user vr)), t'))),
     hk_get_auth_user = (\<lambda>uid. return_op (if uid = ''ann'' then Some ann else None)),
     hk_login = (\<lambda>r _ u s. (Inr r, (fst s, pu_user_id u # snd s))),
     hk_logout = (\<lambda>r _ s. (Inr r, (fst s, []))),
     hk_render_login = (\<lambda>_. return_op (empty_response 200 [])),
     hk_render_register = (\<lambda>_. return_op (empty_response 200 [])),
     hk_after_register = (\<lambda>_ _ _. return_op ()), hk_after_login = (\<lambda>_ _ _. raise_op (HostError ''observer'')),
     hk_prepare_context = None, hk_prepare_capability = None, hk_render_capability = None,
     hk_render_credentials = None, hk_allow_final = None, hk_rate_limit = None\<rparr>"

definition demo_router :: "(challenge_table, cred_db, string list) passkey_router" where
  "demo_router = \<lparr>rt_service = demo_sv, rt_hooks = demo_hooks, rt_paths = passkey_paths_init,
     rt_cookies = passkey_cookies_init\<rparr>"

definition demo_request :: "(string \<times> string) list \<Rightarrow> json_dict \<Rightarrow> http_request" where
  "demo_request cookies body = \<lparr>rq_method = ''POST'', rq_path = ''/'', rq_query_string = [], rq_query = [],
     rq_headers = (\<lambda>_. None), rq_cookies = map_of cookies, rq_body = [], rq_json = Inr (JObj body)\<rparr>"

lemma demo_login_run:
  "\<exists>res s'. login_verify demo_router 3
      (demo_request [(''passkey_authentication_challenge'', ''g'')] demo_response) (demo_state, []) = (res, s')
    \<and> res = Inr (delete_challenge_cookie demo_router (json_response 200 [] ok_body) ''passkey_authentication_challenge'')
    \<and> snd s' = [''ann'']"
proof -
  have "fst (finish_authentication demo_sv 3 ''g'' (CMapping demo_response) False demo_state) =
      Inr \<lparr>ar_user = ann, ar_credential = (ann_key 1)\<lparr>pc_sign_count := 5, pc_device_type := None, pc_backed_up := None\<rparr>\<rparr>"
    using sqlsvc.finish_success [of demo_state 3 demo_cfg demo_wa demo_repr "CMapping demo_response" False
        demo_response "[1]" "ann_key 1" ann "''g''" demo_login
        "\<lparr>vl_new_sign_count = 5, vl_device_type = NoValue, vl_backed_up = None\<rparr>"]
      demo_state_ok demo_live demo_subject
    by (simp add: sqlsvc.login_subject_Inr demo_wa_def demo_login_def ann_key_def sqlite_int_ok_def)
  then obtain ar t where fin: "finish_authentication demo_sv 3 ''g'' (CMapping demo_response) False demo_state = (Inr ar, t)"
    and user: "ar_user ar = ann"
    by (cases "finish_authentication demo_sv 3 ''g'' (CMapping demo_response) False demo_state") auto
  then show ?thesis
    unfolding login_verify_unfold
    by (simp add: demo_router_def demo_hooks_def demo_request_def check_rate_limit_def passkey_cookies_init_def
        challenge_cookie_def json_body_def admit_login_def op_bind_def observe_def op_try_def ann_def)
qed

lemma session_only_after_verified_login_witness:
  "\<exists>user. pu_user_id user = ''ann'' \<and> assertion_verified demo_cfg demo_wa demo_repr 3 ''g'' demo_response demo_state user"
proof -
  obtain res s' where run: "login_verify demo_router 3
      (demo_request [(''passkey_authentication_challenge'', ''g'')] demo_response) (demo_state, []) = (res, s')"
    and changed: "snd s' = [''ann'']"
    using demo_login_run by blast
  have "\<exists>f d user u. rq_cookies (demo_request [(''passkey_authentication_challenge'', ''g'')] demo_response)
        (pk_authentication_challenge (rt_cookies demo_router)) = Some f
    \<and> rq_json (demo_request [(''passkey_authentication_challenge'', ''g'')] demo_response) = Inr (JObj d)
    \<and> assertion_verified demo_cfg demo_wa demo_repr 3 f d (fst (demo_state, [] :: string list)) user
    \<and> (\<exists>t. fst (hk_get_auth_user (rt_hooks demo_router) (pu_user_id user) t) = Inr (Some u))"
    by (rule session_only_after_verified_login [OF _ _ demo_state_ok(3) _ _ _ run])
      (simp_all add: demo_state_ok demo_router_def demo_hooks_def quiet_limiter_def quiet_def changed)
  then show ?thesis
    by (auto simp: demo_router_def demo_hooks_def demo_request_def passkey_cookies_init_def split: if_splits)
qed

subsection \<open>The context of a registration\<close>

definition keeps_stores :: "('t \<times> 'h, 'a) op \<Rightarrow> bool" where
  "keeps_stores f \<longleftrightarrow> (\<forall>s. fst (snd (f s)) = fst s)"

text \<open>The hooks that prepare a registration keep their work outside the two stores of the service.\<close>

definition prepare_keeps_stores :: "('t \<times> 'h) route_hooks \<Rightarrow> bool" where
  "prepare_keeps_stores h \<longleftrightarrow>
     (\<forall>rq. keeps_stores (hk_get_session_user h rq)) \<and> (\<forall>rq name. keeps_stores (hk_prepare_registration h rq name))
     \<and> (\<forall>p rq f name. hk_prepare_context h = Some p \<longrightarrow> keeps_stores (p rq f name))
     \<and> (\<forall>p rq f kind capability. hk_prepare_capability h = Some p \<longrightarrow> keeps_stores (p rq f kind capability))"

lemma keeps_storesD: "keeps_stores f \<Longrightarrow> f s = (r, s') \<Longrightarrow> fst s' = fst s"
  by (metis keeps_stores_def snd_conv)

lemma keeps_stores_ops [intro]:
  "keeps_stores (raise_op e)" "keeps_stores (return_op a)" "keeps_stores (pure_op r)"
  by (simp_all add: keeps_stores_def pure_op_def)

lemma keeps_stores_bind [intro]:
  assumes "keeps_stores f" and "\<And>a. keeps_stores (g a)"
  shows "keeps_stores (op_bind f g)"
  unfolding keeps_stores_def
proof
  fix s
  obtain r t where f: "f s = (r, t)" by (metis surj_pair)
  then have "fst t = fst s" by (rule keeps_storesD [OF assms(1)])
  moreover have "fst (snd (g a u)) = fst u" for a u using assms(2) [of a] unfolding keeps_stores_def by blast
  ultimately show "fst (snd (op_bind f g s)) = fst s"
    using f by (cases r) (simp_all add: op_bind_def)
qed

lemma keeps_stores_try [intro]:
  assumes "keeps_stores f" and "\<And>e. keeps_stores (g e)"
  shows "keeps_stores (op_try f g)"
  unfolding keeps_stores_def
proof
  fix s
  obtain r t where f: "f s = (r, t)" by (metis surj_pair)
  then have "fst t = fst s" by (rule keeps_storesD [OF assms(1)])
  moreover have "fst (snd (g e u)) = fst u" for e u using assms(2) [of e] unfolding keeps_stores_def by blast
  ultimately show "fst (snd (op_try f g s)) = fst s"
    using f by (cases r) (simp_all add: op_try_def)
qed

lemma body_context_stores:
  assumes "prepare_keeps_stores (rt_hooks rt)"
  shows "keeps_stores (body_context rt rq f)"
  using assms unfolding body_context_def capability_context_def prepare_keeps_stores_def
  by (auto intro!: keeps_stores_bind keeps_stores_try keeps_stores_ops split: option.split prod.split)

lemma capability_context_kind:
  "capability_context rt rq f kind capability s = (Inr ctx, s') \<Longrightarrow> rc_kind ctx = kind"
  by (auto simp: capability_context_def op_bind_eq_Inr split: option.splits if_splits)

lemma body_context_Inr:
  assumes "body_context rt rq f s = (Inr ctx, s')"
  shows "\<exists>d. rq_json rq = Inr (JObj d) \<and> (case capability_registration d of
      Inl _ \<Rightarrow> False
    | Inr (Some (kind, capability)) \<Rightarrow> rc_kind ctx = kind
    | Inr None \<Rightarrow> is_ok (registration_username d) \<and> (hk_prepare_context (rt_hooks rt) = None \<longrightarrow> rc_kind ctx = SelfRegistration))"
proof -
  obtain d cf where d: "rq_json rq = Inr (JObj d)" and cf: "capability_registration d = Inr cf"
    and run: "(case cf of Some (kind, capability) \<Rightarrow> capability_context rt rq f kind capability
      | None \<Rightarrow> op_bind (pure_op (registration_username d)) (\<lambda>username.
         case hk_prepare_context (rt_hooks rt) of
           Some prepare \<Rightarrow> prepare rq f username
         | None \<Rightarrow>
             op_bind (hk_prepare_registration (rt_hooks rt) rq username) (\<lambda>user.
             pure_op (mk_registration_context SelfRegistration user None)))) s = (Inr ctx, s')"
    using assms unfolding body_context_def by (auto simp: op_bind_eq_Inr pure_op_def json_body_Inr)
  show ?thesis
  proof (cases cf)
    case None
    then show ?thesis
      using run d cf by (auto simp: op_bind_eq_Inr pure_op_def mk_registration_context_def split: option.splits)
  next
    case (Some kc)
    obtain kind capability where kc: "kc = (kind, capability)" by (cases kc)
    have "capability_context rt rq f kind capability s = (Inr ctx, s')" using run Some kc by simp
    then have "rc_kind ctx = kind" by (rule capability_context_kind)
    then show ?thesis using d cf Some kc by simp
  qed
qed

lemma on_challenges_eq: "on_challenges f s = (r, s') \<longleftrightarrow> (\<exists>c. f (fst s) = (r, c) \<and> s' = (c, snd s))"
  by (auto simp: on_challenges_def split: prod.splits)

lemma on_credentials_eq: "on_credentials f s = (r, s') \<longleftrightarrow> (\<exists>k. f (snd s) = (r, k) \<and> s' = (fst s, k))"
  by (auto simp: on_credentials_def split: prod.splits)

lemma begin_registration_stored:
  assumes "challenge_table_ok (fst s)"
    and "begin_registration (sql_service cfg wa repr) now f None (Some ctx) s = (Inr j, s')"
  shows "snd s' = snd s \<and> challenge_table_ok (fst s') \<and> (\<exists>r. ch_user r = Some (rc_user ctx)
    \<and> ch_registration_kind r = Some (rc_kind ctx) \<and> ch_capability_id r = rc_capability_id ctx
    \<and> (\<forall>t. sql_live (fst s') t f Registration = (if t < ch_expires_at r then Some r else None)))"
proof -
  obtain c r c' where save: "sql_save_challenge now f Registration c (pk_challenge_ttl cfg)
      (Some (rc_user ctx)) (Some ctx) (fst s) = (Inr r, c')" and s': "s' = (c', snd s)"
    using assms(2)
    by (auto simp: begin_registration_def op_bind_eq_Inr pure_op_def registration_of_Some Let_def
        on_challenges_eq)
  have rec: "challenge_record_for now f Registration c (pk_challenge_ttl cfg) (Some (rc_user ctx)) (Some ctx) = Inr r"
    using sql.save_result [OF assms(1)] save by (metis fst_conv)
  then have "ch_user r = Some (rc_user ctx) \<and> ch_registration_kind r = Some (rc_kind ctx)
      \<and> ch_capability_id r = rc_capability_id ctx"
    by (auto simp: challenge_record_for_def res_bind_Inr split: sum.splits)
  moreover have "\<forall>t. sql_live c' t f Registration = (if t < ch_expires_at r then Some r else None)"
    using sql.save_live [OF assms(1) rec, of _ f Registration] save by simp
  moreover have "challenge_table_ok c'" using sql.save_inv [OF assms(1)] save by (metis snd_conv)
  ultimately show ?thesis unfolding s' fst_conv snd_conv by blast
qed

text \<open>Whom a registration is for: the user of the session, or what the body of the request asks for.\<close>

lemma registration_source:
  assumes session: "hk_get_session_user (rt_hooks rt) rq s = (Inr su, s)"
    and ctx: "(case su of Some u \<Rightarrow> pure_op (mk_registration_context AdditionalCredential u None)
       | None \<Rightarrow> body_context rt rq f) s = (Inr ctx, s2)"
  shows "case fst (hk_get_session_user (rt_hooks rt) rq s) of
        Inl _ \<Rightarrow> False
      | Inr (Some u) \<Rightarrow> rc_kind ctx = AdditionalCredential \<and> rc_user ctx = u
      | Inr None \<Rightarrow> (\<exists>d. rq_json rq = Inr (JObj d) \<and> (case capability_registration d of
            Inl _ \<Rightarrow> False
          | Inr (Some (kind, capability)) \<Rightarrow> rc_kind ctx = kind
          | Inr None \<Rightarrow> is_ok (registration_username d)
              \<and> (hk_prepare_context (rt_hooks rt) = None \<longrightarrow> rc_kind ctx = SelfRegistration)))"
proof (cases su)
  case None
  then show ?thesis using ctx body_context_Inr session by simp
next
  case (Some u)
  then show ?thesis using ctx session by (simp add: pure_op_def mk_registration_context_def) auto
qed

text \<open>
  A registration flow that the route opens holds a challenge for the context it determined:
  with a session, an additional credential of exactly the session's user; without one, the kind
  that the body names when it names one, with the capability the host resolved, and otherwise a
  user name without white space. The credential store is untouched, and the flow id is in a cookie
  that lives as long as the challenge.
\<close>

theorem registration_flow_bound:
  assumes "challenge_table_ok (fst (fst s))" and "rt_service rt = sql_service cfg wa repr"
    and "quiet_limiter (rt_hooks rt)" and "quiet (hk_get_session_user (rt_hooks rt) rq)"
    and "prepare_keeps_stores (rt_hooks rt)"
    and "register_options rt now f rq s = (Inr resp, s')"
  shows "\<exists>(ctx :: registration_context) r. ch_user r = Some (rc_user ctx) \<and> ch_registration_kind r = Some (rc_kind ctx)
    \<and> ch_capability_id r = rc_capability_id ctx
    \<and> (\<forall>t. sql_live (fst (fst s')) t f Registration = (if t < ch_expires_at r then Some r else None))
    \<and> (case fst (hk_get_session_user (rt_hooks rt) rq s) of
        Inl _ \<Rightarrow> False
      | Inr (Some u) \<Rightarrow> rc_kind ctx = AdditionalCredential \<and> rc_user ctx = u
      | Inr None \<Rightarrow> (\<exists>d. rq_json rq = Inr (JObj d) \<and> (case capability_registration d of
            Inl _ \<Rightarrow> False
          | Inr (Some (kind, capability)) \<Rightarrow> rc_kind ctx = kind
          | Inr None \<Rightarrow> is_ok (registration_username d)
              \<and> (hk_prepare_context (rt_hooks rt) = None \<longrightarrow> rc_kind ctx = SelfRegistration))))
    \<and> snd (fst s') = snd (fst s)
    \<and> map (\<lambda>c. (ck_key c, ck_value c, ck_max_age c)) (http_response.rs_cookies resp)
        = [(pk_registration_challenge (rt_cookies rt), f, Some (pk_challenge_ttl cfg))]"
proof -
  obtain u0 s0 su s1 ctx s2 j t where rate: "check_rate_limit rt rq RegisterOptions s = (Inr u0, s0)"
    and session: "hk_get_session_user (rt_hooks rt) rq s0 = (Inr su, s1)"
    and ctx: "(case su of Some u \<Rightarrow> pure_op (mk_registration_context AdditionalCredential u None)
       | None \<Rightarrow> body_context rt rq f) s1 = (Inr ctx, s2)"
    and begun: "begin_registration (rt_service rt) now f None (Some ctx) (fst s2) = (Inr j, t)"
    and s': "s' = (t, snd s2)"
    and resp: "resp = set_challenge_cookie rt (json_response 200 [] j) (pk_registration_challenge (rt_cookies rt)) f"
    using assms(6) unfolding register_options_def op_bind_eq_Inr on_service_eq return_op_def prod.inject sum.inject
    by blast
  have s0: "s0 = s" by (rule rate_limit_quiet [OF assms(3) rate])
  then have s1: "s1 = s" using quietD [OF assms(4)] session by blast
  have s2: "fst s2 = fst s"
  proof (cases su)
    case None
    then show ?thesis using ctx s1 keeps_storesD [OF body_context_stores [OF assms(5)]] by simp
  next
    case (Some u)
    then show ?thesis using ctx s1 by (simp add: pure_op_def)
  qed
  obtain r where r: "ch_user r = Some (rc_user ctx)" "ch_registration_kind r = Some (rc_kind ctx)"
    "ch_capability_id r = rc_capability_id ctx" "snd t = snd (fst s)"
    "\<forall>x. sql_live (fst t) x f Registration = (if x < ch_expires_at r then Some r else None)"
    using begin_registration_stored [OF _ begun [unfolded assms(2)]] assms(1) s2 by auto
  note who = registration_source [OF session [unfolded s0 s1] ctx [unfolded s1]]
  show ?thesis
  proof (rule exI [where x = ctx], rule exI [where x = r], intro conjI)
    show "map (\<lambda>c. (ck_key c, ck_value c, ck_max_age c)) (http_response.rs_cookies resp)
        = [(pk_registration_challenge (rt_cookies rt), f, Some (pk_challenge_ttl cfg))]"
      by (simp add: resp set_challenge_cookie_def json_response_def assms(2))
  qed (use r who s' in simp_all)
qed

subsection \<open>A session over the routes\<close>

text \<open>
  A host without rate limiting that prepares the user \<open>u\<close> for the user name \<open>name\<close>, stores what a
  registration verified, admits \<open>u\<close> and leaves the stores alone otherwise.
\<close>

definition plain_host :: "((challenge_table \<times> cred_db) \<times> 'h) route_hooks \<Rightarrow> string \<Rightarrow> passkey_user \<Rightarrow> bool" where
  "plain_host h name u \<longleftrightarrow> hk_rate_limit h = None \<and> hk_prepare_context h = None
     \<and> (\<forall>rq. hk_get_session_user h rq = return_op None)
     \<and> (\<forall>rq. hk_prepare_registration h rq name = return_op u)
     \<and> (\<forall>rq vr s t. sql_save_registration vr (snd (fst s)) = (Inr (), t) \<longrightarrow>
          hk_complete_registration h rq vr s = (Inr (Some (vr_user vr)), ((fst (fst s), t), snd s)))
     \<and> hk_get_auth_user h (pu_user_id u) = return_op (Some u)
     \<and> (\<forall>r rq. keeps_stores (hk_login h r rq u) \<and> (\<forall>s. fst (hk_login h r rq u s) = Inr r))
     \<and> (\<forall>rq c. keeps_stores (hk_after_register h rq u c))"

lemma admit_login_ok:
  assumes "plain_host (rt_hooks rt) name u" and "ar_user ar = u"
  shows "fst (admit_login rt rq ar s) =
    Inr (delete_challenge_cookie rt (json_response 200 [] ok_body) (pk_authentication_challenge (rt_cookies rt)))"
proof -
  let ?r = "delete_challenge_cookie rt (json_response 200 [] ok_body) (pk_authentication_challenge (rt_cookies rt))"
  obtain s1 where login: "hk_login (rt_hooks rt) ?r rq u s = (Inr ?r, s1)"
    using assms(1) unfolding plain_host_def by (metis fst_conv surj_pair)
  have auth: "hk_get_auth_user (rt_hooks rt) (pu_user_id u) = return_op (Some u)"
    using assms(1) unfolding plain_host_def by blast
  obtain x s2 where after: "hk_after_login (rt_hooks rt) rq u (ar_credential ar) s1 = (x, s2)" by (metis surj_pair)
  show ?thesis
    by (cases x) (simp_all add: admit_login_def assms(2) auth op_bind_def login observe_def op_try_def after)
qed

lemma admit_registration_ok:
  assumes "plain_host (rt_hooks rt) name u" and "vr_user vr = u"
    and "sql_save_registration vr (snd (fst s)) = (Inr (), t)"
  shows "\<exists>s'. admit_registration rt rq vr s =
      (Inr (delete_challenge_cookie rt (json_response 200 [] ok_body) (pk_registration_challenge (rt_cookies rt))), s')
    \<and> fst s' = (fst (fst s), t)"
proof -
  let ?r = "delete_challenge_cookie rt (json_response 200 [] ok_body) (pk_registration_challenge (rt_cookies rt))"
  let ?t = "((fst (fst s), t), snd s)"
  have complete: "hk_complete_registration (rt_hooks rt) rq vr s = (Inr (Some u), ?t)"
    using assms unfolding plain_host_def by blast
  obtain s1 where login: "hk_login (rt_hooks rt) ?r rq u ?t = (Inr ?r, s1)"
    using assms(1) unfolding plain_host_def by (metis fst_conv surj_pair)
  have k1: "fst s1 = fst ?t"
  proof (rule keeps_storesD [where f = "hk_login (rt_hooks rt) ?r rq u"])
    show "keeps_stores (hk_login (rt_hooks rt) ?r rq u)" using assms(1) unfolding plain_host_def by blast
  qed (rule login)
  obtain x s2 where after: "hk_after_register (rt_hooks rt) rq u (vr_credential vr) s1 = (x, s2)" by (metis surj_pair)
  have "fst s2 = fst s1"
  proof (rule keeps_storesD [where f = "hk_after_register (rt_hooks rt) rq u (vr_credential vr)"])
    show "keeps_stores (hk_after_register (rt_hooks rt) rq u (vr_credential vr))"
      using assms(1) unfolding plain_host_def by blast
  qed (rule after)
  with k1 show ?thesis
    by (cases x) (simp_all add: admit_registration_def complete op_bind_def login observe_def op_try_def after)
qed

lemma challenge_cookie_ok:
  "rq_cookies rq name = Some f \<Longrightarrow> f \<noteq> [] \<Longrightarrow> challenge_cookie rq name = Inr f"
  by (simp add: challenge_cookie_Inr)

lemma no_limit [simp]: "hk_rate_limit (rt_hooks rt) = None \<Longrightarrow> check_rate_limit rt rq op1 s = (Inr (), s)"
  by (simp add: check_rate_limit_def)

lemma register_options_ok:
  assumes "plain_host (rt_hooks rt) name u" and "rq_json rq = Inr (JObj d)"
    and "capability_registration d = Inr None" and "registration_username d = Inr name"
    and "begin_registration (rt_service rt) now f None (Some \<lparr>rc_kind = SelfRegistration, rc_user = u,
      rc_capability_id = None\<rparr>) (fst s) = (Inr j, t)"
  shows "register_options rt now f rq s = (Inr (set_challenge_cookie rt (json_response 200 [] j)
    (pk_registration_challenge (rt_cookies rt)) f), (t, snd s))"
  using assms
  by (simp add: plain_host_def register_options_def op_bind_def body_context_def pure_op_def json_body_def
      mk_registration_context_def on_service_def)

lemma register_verify_ok:
  assumes "plain_host (rt_hooks rt) name u" and "rq_json rq = Inr (JObj d)" and "f \<noteq> []"
    and "rq_cookies rq (pk_registration_challenge (rt_cookies rt)) = Some f"
    and "verify_registration (rt_service rt) now f (CMapping d) (fst s) = (Inr vr, a)" and "vr_user vr = u"
    and "sql_save_registration vr (snd a) = (Inr (), k)"
  shows "\<exists>r s'. register_verify rt now rq s = (Inr r, s') \<and> rs_status r = 200 \<and> fst s' = (fst a, k)"
proof -
  obtain s' where "admit_registration rt rq vr (a, snd s) =
      (Inr (delete_challenge_cookie rt (json_response 200 [] ok_body) (pk_registration_challenge (rt_cookies rt))), s')"
    "fst s' = (fst a, k)"
    using admit_registration_ok [OF assms(1,6), of "(a, snd s)" k rq] assms(7) by auto
  moreover have "hk_rate_limit (rt_hooks rt) = None" using assms(1) by (simp add: plain_host_def)
  ultimately show ?thesis
    using assms(2,5) challenge_cookie_ok [OF assms(4,3)]
    by (simp add: register_verify_def op_bind_def pure_op_def op_try_def json_body_def on_service_def
        delete_challenge_cookie_def json_response_def)
qed

lemma login_options_ok:
  assumes "plain_host (rt_hooks rt) name u"
    and "begin_authentication (rt_service rt) now g [] (fst s) = (Inr j, a)"
  shows "\<exists>r. login_options rt now g rq s = (Inr r, (a, snd s)) \<and> rs_status r = 200"
  using assms by (simp add: plain_host_def login_options_def op_bind_def on_service_def
      set_challenge_cookie_def json_response_def)

lemma login_verify_ok:
  assumes "plain_host (rt_hooks rt) name u" and "rq_json rq = Inr (JObj d)" and "g \<noteq> []"
    and "rq_cookies rq (pk_authentication_challenge (rt_cookies rt)) = Some g"
    and "fst (finish_authentication (rt_service rt) now g (CMapping d) False (fst s)) = Inr ar" and "ar_user ar = u"
  shows "\<exists>r. fst (login_verify rt now rq s) = Inr r \<and> rs_status r = 200 \<and> rs_body r = JsonBody ok_body"
proof -
  have "hk_rate_limit (rt_hooks rt) = None" using assms(1) by (simp add: plain_host_def)
  then show ?thesis
    using assms(2,5) challenge_cookie_ok [OF assms(4,3)] admit_login_ok [OF assms(1,6), of rq]
    by (cases "finish_authentication (rt_service rt) now g (CMapping d) False (fst s)")
      (simp add: login_verify_unfold json_body_def delete_challenge_cookie_def json_response_def)
qed

text \<open>
  C12: the four requests of a new user, made in time and each with the cookie of its flow, are all
  answered with status 200: a browser that follows the routes registers and logs in.
\<close>

theorem http_register_then_login:
  assumes stores: "challenge_table_ok (fst (fst s))" "cred_db_ok (snd (fst s))"
    and new: "sql_get_user (pu_user_id u) (snd (fst s)) = Inr None"
      "sql_get_user_by_handle (pu_user_handle u) (snd (fst s)) = Inr None"
      "sql_get_credential (vg_credential_id v) (snd (fst s)) = Inr None"
    and rt: "rt_service rt = sql_service cfg wa repr" "plain_host (rt_hooks rt) name u" "f \<noteq> []" "g \<noteq> []"
    and rq1: "rq_json rq1 = Inr (JObj d1)" "capability_registration d1 = Inr None" "registration_username d1 = Inr name"
    and rq2: "rq_cookies rq2 (pk_registration_challenge (rt_cookies rt)) = Some f" "rq_json rq2 = Inr (JObj d2)"
    and rq4: "rq_cookies rq4 (pk_authentication_challenge (rt_cookies rt)) = Some g" "rq_json rq4 = Inr (JObj d4)"
    and reg: "registration_answered cfg wa repr u (CMapping d2) v" "sqlite_int_ok (vg_sign_count v)"
      "valid_datetime t1" "add_seconds t0 (pk_challenge_ttl cfg) = Inr e1" "t1 < e1"
    and log: "login_answered cfg wa repr u (CMapping d4) v l" "vg_sign_count v \<le> vl_new_sign_count l"
      "sqlite_int_ok (vl_new_sign_count l)" "valid_datetime t3" "add_seconds t2 (pk_challenge_ttl cfg) = Inr e2" "t3 < e2"
  shows "\<exists>r1 s1 r2 s2 r3 s3 r4. register_options rt t0 f rq1 s = (Inr r1, s1) \<and> register_verify rt t1 rq2 s1 = (Inr r2, s2)
    \<and> login_options rt t2 g rq3 s2 = (Inr r3, s3) \<and> fst (login_verify rt t3 rq4 s3) = Inr r4
    \<and> map rs_status [r1, r2, r3, r4] = [200, 200, 200, 200]"
proof -
  let ?ctx = "\<lparr>rc_kind = SelfRegistration, rc_user = u, rc_capability_id = None\<rparr>"
  have ctx: "context_ok ?ctx" "rc_user ?ctx = u" by (simp_all add: context_ok_def)
  obtain k ts where run: "register (sql_service cfg wa repr) t0 t1 f ?ctx (CMapping d2) (fst s) = (Inr (), k)"
    and k: "challenge_table_ok (fst k)" "cred_db_ok (snd k)" "sp_users (sql_cred_abs (snd k)) (pu_user_id u) = Some u"
      "sp_creds (sql_cred_abs (snd k)) (vg_credential_id v) = Some (registered t1 u ts v)"
    using register_ok [OF stores ctx(1), unfolded ctx(2), OF new reg, of f] by blast
  obtain j1 a1 vr a2 where begun: "begin_registration (rt_service rt) t0 f None (Some ?ctx) (fst s) = (Inr j1, a1)"
    and verified: "verify_registration (rt_service rt) t1 f (CMapping d2) a1 = (Inr vr, a2)"
    and saved: "sql_save_registration vr (snd a2) = (Inr (), snd k)" "fst k = fst a2"
    using run rt(1) unfolding register_def op_bind_eq_Inr on_credentials_eq by auto
  obtain r where a1: "challenge_table_ok (fst a1)" and r: "ch_user r = Some u"
    "\<forall>t. sql_live (fst a1) t f Registration = (if t < ch_expires_at r then Some r else None)"
    using begin_registration_stored [OF stores(1) begun [unfolded rt(1)]] by auto
  have u: "vr_user vr = u"
    using sqlsvc.verify_unfold [of a1 t1 cfg wa repr f "CMapping d2"] verified a1 reg(3) r rt(1)
      sqlsvc.registration_outcome_Inr [of cfg wa repr t1 "CMapping d2" r vr]
    by (auto split: option.splits if_splits)
  obtain r2 s2 where two: "register_verify rt t1 rq2 (a1, snd s) = (Inr r2, s2)" "rs_status r2 = 200"
    "fst s2 = k"
    using register_verify_ok [OF rt(2) rq2(2) rt(3) rq2(1), of t1 "(a1, snd s)"] verified u saved
    by (auto simp: prod_eq_iff)
  obtain j c ar where begin2: "begin_authentication (rt_service rt) t2 g [] k = (Inr j, (c, snd k))"
    and fin: "fst (finish_authentication (rt_service rt) t3 g (CMapping d4) False (c, snd k)) = Inr ar" "ar_user ar = u"
    using login_steps [OF k log, of g False] rt(1) by auto
  obtain r3 where three: "login_options rt t2 g rq3 s2 = (Inr r3, ((c, snd k), snd s2))" "rs_status r3 = 200"
    using login_options_ok [OF rt(2), of t2 g s2] begin2 two(3) by blast
  obtain r4 where four: "fst (login_verify rt t3 rq4 ((c, snd k), snd s2)) = Inr r4" "rs_status r4 = 200"
    using login_verify_ok [OF rt(2) rq4(2) rt(4) rq4(1), of t3 "((c, snd k), snd s2)"] fin by auto
  obtain r1 where one: "register_options rt t0 f rq1 s = (Inr r1, (a1, snd s))" "rs_status r1 = 200"
    using register_options_ok [OF rt(2) rq1 begun] by (simp add: set_challenge_cookie_def json_response_def)
  show ?thesis
    by (intro exI conjI) (rule one(1), rule two(1), rule three(1), rule four(1), simp add: one two three four)
qed

lemma demo_plain_host: "plain_host demo_hooks ''ann'' ann"
  by (auto simp: plain_host_def demo_hooks_def keeps_stores_def on_service_def on_credentials_def ann_def
      return_op_def)

lemma http_register_then_login_witness:
  "\<exists>r1 s1 r2 s2 r3 s3 r4.
     register_options demo_router 0 ''f'' (demo_request [] [(''username'', JStr ''ann'')])
       (([], \<lparr>cd_users = [], cd_creds = []\<rparr>), []) = (Inr r1, s1)
   \<and> register_verify demo_router 1 (demo_request [(''passkey_registration_challenge'', ''f'')] demo_response) s1 = (Inr r2, s2)
   \<and> login_options demo_router 2 ''g'' (demo_request [] []) s2 = (Inr r3, s3)
   \<and> fst (login_verify demo_router 3 (demo_request [(''passkey_authentication_challenge'', ''g'')] demo_response) s3) = Inr r4
   \<and> map rs_status [r1, r2, r3, r4] = [200, 200, 200, 200]"
proof (rule http_register_then_login [where u = ann and name = "''ann''" and ?d1.0 = "[(''username'', JStr ''ann'')]"
      and ?d2.0 = demo_response and ?d4.0 = demo_response])
  have db: "cred_db_ok \<lparr>cd_users = [], cd_creds = []\<rparr>" by simp
  show "sql_get_user (pu_user_id ann) (snd (fst (([], \<lparr>cd_users = [], cd_creds = []\<rparr>), []))) = Inr None"
    "sql_get_user_by_handle (pu_user_handle ann) (snd (fst (([], \<lparr>cd_users = [], cd_creds = []\<rparr>), []))) = Inr None"
    by (simp_all add: sqlc.get_user_spec [OF db] sqlc.by_handle_spec [OF db] spec_empty_def spec_by_handle_def)
  show "registration_answered demo_cfg demo_wa demo_repr ann (CMapping demo_response)
     \<lparr>vg_credential_id = [1], vg_public_key = [9], vg_sign_count = 0,
      vg_device_type = EnumMember ''single_device'', vg_backed_up = Some False\<rparr>"
    by (rule demo_answers)
  show "sql_get_credential (vg_credential_id \<lparr>vg_credential_id = [1], vg_public_key = [9], vg_sign_count = 0,
      vg_device_type = EnumMember ''single_device'', vg_backed_up = Some False\<rparr>)
      (snd (fst (([], \<lparr>cd_users = [], cd_creds = []\<rparr>), []))) = Inr None"
    by (simp add: sqlc.get_cred_spec [OF db] spec_empty_def)
  show "login_answered demo_cfg demo_wa demo_repr ann (CMapping demo_response)
     \<lparr>vg_credential_id = [1], vg_public_key = [9], vg_sign_count = 0,
      vg_device_type = EnumMember ''single_device'', vg_backed_up = Some False\<rparr>
     \<lparr>vl_new_sign_count = 5, vl_device_type = NoValue, vl_backed_up = None\<rparr>"
    by (rule demo_answers)
  show "add_seconds 0 (pk_challenge_ttl demo_cfg) = Inr 300000000" "add_seconds 2 (pk_challenge_ttl demo_cfg) = Inr 300000002"
    "valid_datetime 1" "valid_datetime 3"
    by (simp_all add: add_seconds_def demo_cfg_def valid_datetime_def datetime_max_def us_per_second_def Let_def)
qed (simp_all add: demo_plain_host demo_router_def demo_request_def challenge_table_ok_def sqlite_int_ok_def
    passkey_cookies_init_def capability_registration_def registration_username_def json_get_def py_strip_def py_isspace_def)

lemma demo_begin:
  "\<exists>j t. begin_registration demo_sv 0 ''f'' None (Some \<lparr>rc_kind = SelfRegistration, rc_user = ann,
     rc_capability_id = None\<rparr>) ([], \<lparr>cd_users = [], cd_creds = []\<rparr>) = (Inr j, t)"
proof -
  let ?s = "([], \<lparr>cd_users = [], cd_creds = []\<rparr>) :: challenge_table \<times> cred_db"
  let ?v = "\<lparr>vg_credential_id = [1], vg_public_key = [9], vg_sign_count = 0,
      vg_device_type = EnumMember ''single_device'', vg_backed_up = Some False\<rparr>"
  have db: "cred_db_ok \<lparr>cd_users = [], cd_creds = []\<rparr>" by simp
  have "\<exists>s' ts. register demo_sv 0 1 ''f'' demo_context (CMapping demo_response) ?s = (Inr (), s')
    \<and> challenge_table_ok (fst s') \<and> cred_db_ok (snd s')
    \<and> sp_users (sql_cred_abs (snd s')) (pu_user_id (rc_user demo_context)) = Some (rc_user demo_context)
    \<and> sp_creds (sql_cred_abs (snd s')) (vg_credential_id ?v) = Some (registered 1 (rc_user demo_context) ts ?v)"
  proof (rule register_ok)
    show "registration_answered demo_cfg demo_wa demo_repr (rc_user demo_context) (CMapping demo_response) ?v"
      using demo_answers(1) by (simp add: demo_context_ann)
    show "add_seconds 0 (pk_challenge_ttl demo_cfg) = Inr 300000000" "valid_datetime 1"
      by (simp_all add: add_seconds_def demo_cfg_def valid_datetime_def datetime_max_def us_per_second_def Let_def)
    show "sql_get_user (pu_user_id (rc_user demo_context)) (snd ?s) = Inr None"
      "sql_get_user_by_handle (pu_user_handle (rc_user demo_context)) (snd ?s) = Inr None"
      "sql_get_credential (vg_credential_id ?v) (snd ?s) = Inr None"
      by (simp_all add: sqlc.get_user_spec [OF db] sqlc.by_handle_spec [OF db] sqlc.get_cred_spec [OF db]
          spec_empty_def spec_by_handle_def)
  qed (simp_all add: challenge_table_ok_def context_ok_def demo_context_def sqlite_int_ok_def db)
  then show ?thesis
    by (auto simp: register_def op_bind_eq_Inr demo_context_def)
qed

lemma registration_flow_bound_witness:
  "\<exists>s' r. fst (register_options demo_router 0 ''f'' (demo_request [] [(''username'', JStr ''ann'')])
        (([], \<lparr>cd_users = [], cd_creds = []\<rparr>), [])) = Inr r
    \<and> snd (register_options demo_router 0 ''f'' (demo_request [] [(''username'', JStr ''ann'')])
        (([], \<lparr>cd_users = [], cd_creds = []\<rparr>), [])) = s'
    \<and> (\<exists>c. ch_registration_kind c = Some SelfRegistration
        \<and> (\<forall>t. sql_live (fst (fst s')) t ''f'' Registration = (if t < ch_expires_at c then Some c else None)))"
proof -
  let ?s = "([], \<lparr>cd_users = [], cd_creds = []\<rparr>) :: challenge_table \<times> cred_db"
  let ?rq = "demo_request [] [(''username'', JStr ''ann'')]"
  let ?ctx = "\<lparr>rc_kind = SelfRegistration, rc_user = ann, rc_capability_id = None\<rparr>"
  have db: "cred_db_ok \<lparr>cd_users = [], cd_creds = []\<rparr>" by simp
  have empty: "challenge_table_ok ([] :: challenge_table)" by (simp add: challenge_table_ok_def)
  have body: "capability_registration [(''username'', JStr ''ann'')] = Inr None"
    "registration_username [(''username'', JStr ''ann'')] = Inr ''ann''"
    by (simp_all add: capability_registration_def registration_username_def json_get_def py_strip_def py_isspace_def)
  obtain j t where run: "begin_registration demo_sv 0 ''f'' None (Some ?ctx) ?s = (Inr j, t)"
    using demo_begin by blast
  have "\<exists>r s'. register_options demo_router 0 ''f'' ?rq (?s, []) = (Inr r, s')"
    using register_options_ok [of demo_router "''ann''" ann ?rq "[(''username'', JStr ''ann'')]" 0 "''f''" "(?s, [])" j t]
      demo_plain_host body run by (simp add: demo_router_def demo_request_def)
  then obtain r s' where res: "register_options demo_router 0 ''f'' ?rq (?s, []) = (Inr r, s')" by blast
  have rt: "rt_service demo_router = sql_service demo_cfg demo_wa demo_repr" "quiet_limiter (rt_hooks demo_router)"
    "quiet (hk_get_session_user (rt_hooks demo_router) ?rq)" "prepare_keeps_stores (rt_hooks demo_router)"
    "hk_get_session_user (rt_hooks demo_router) ?rq (?s, []) = (Inr None, (?s, []))" "hk_prepare_context (rt_hooks demo_router) = None"
    by (simp_all add: demo_router_def)
      (simp_all add: demo_hooks_def quiet_limiter_def quiet_def prepare_keeps_stores_def keeps_stores_def)
  obtain ctx :: registration_context and c where "ch_registration_kind c = Some (rc_kind ctx)"
    and live: "\<forall>t. sql_live (fst (fst s')) t ''f'' Registration = (if t < ch_expires_at c then Some c else None)"
    and who: "case fst (hk_get_session_user (rt_hooks demo_router) ?rq (?s, [])) of
        Inl _ \<Rightarrow> False
      | Inr (Some u) \<Rightarrow> rc_kind ctx = AdditionalCredential \<and> rc_user ctx = u
      | Inr None \<Rightarrow> (\<exists>d. rq_json ?rq = Inr (JObj d) \<and> (case capability_registration d of
            Inl _ \<Rightarrow> False
          | Inr (Some (kind, capability)) \<Rightarrow> rc_kind ctx = kind
          | Inr None \<Rightarrow> is_ok (registration_username d)
              \<and> (hk_prepare_context (rt_hooks demo_router) = None \<longrightarrow> rc_kind ctx = SelfRegistration)))"
    using registration_flow_bound [OF _ rt(1-4) res] empty by auto
  moreover have "rc_kind ctx = SelfRegistration" using who rt body by (auto simp: demo_request_def)
  ultimately show ?thesis using res by auto
qed

subsection \<open>Errors of the login route\<close>

lemma malformed_id: "\<exists>m. b64url_to_bytes ''a'' = Inl (ValueError m)"
proof -
  have v: "b64_val (CHR ''a'') = Some 26" by (simp add: b64_val_def)
  have "pad_len ''a'' = 3" by (simp add: pad_len_def)
  then have "replicate (pad_len ''a'') (CHR ''='') = ''==''  @ ''=''" by (simp add: numeral_3_eq_3)
  then show ?thesis by (simp add: b64url_to_bytes_def v)
qed

text \<open>
  A login request whose credential id is not base64url is answered with a server error and not,
  like a missing or unknown id, with status 400: the decoding error is none of those the handler
  expects. Nothing is changed, so the flow can still be used.
\<close>

theorem malformed_id_server_error:
  assumes "hk_rate_limit (rt_hooks rt) = None"
    and "rq_cookies rq (pk_authentication_challenge (rt_cookies rt)) = Some f" and "f \<noteq> []"
  shows "response_status (fst (login_verify rt now (rq\<lparr>rq_json := Inr (JObj [(''id'', JStr ''a'')])\<rparr>) s)) = 500
    \<and> response_status (fst (login_verify rt now (rq\<lparr>rq_json := Inr (JObj [])\<rparr>) s)) = 400
    \<and> snd (login_verify rt now (rq\<lparr>rq_json := Inr (JObj [(''id'', JStr ''a'')])\<rparr>) s) = s"
proof -
  have cookie: "challenge_cookie (rq\<lparr>rq_json := j\<rparr>) (pk_authentication_challenge (rt_cookies rt)) = Inr f" for j
    by (rule challenge_cookie_ok) (simp_all add: assms)
  obtain m where "finish_authentication (rt_service rt) now f (CMapping [(''id'', JStr ''a'')]) False (fst s) =
      (Inl (ValueError m), fst s)"
    using malformed_id by (auto simp: finish_authentication_def login_subject_def op_bind_def
        credential_id_from_response_def json_get_def)
  moreover have "finish_authentication (rt_service rt) now f (CMapping []) False (fst s) =
      (Inl (CredentialNotFound ''credential response has no id/rawId''), fst s)"
    by (simp add: finish_authentication_def login_subject_def op_bind_def credential_id_from_response_def json_get_def)
  ultimately show ?thesis
    by (simp add: login_verify_unfold assms(1) cookie json_body_def)
qed

lemma malformed_id_server_error_witness:
  "response_status (fst (login_verify demo_router 3 ((demo_request [(''passkey_authentication_challenge'', ''g'')] [])
     \<lparr>rq_json := Inr (JObj [(''id'', JStr ''a'')])\<rparr>) (demo_state, []))) = 500"
  using malformed_id_server_error [of demo_router "demo_request [(''passkey_authentication_challenge'', ''g'')] []" "''g''"]
  by (simp add: demo_router_def demo_hooks_def demo_request_def passkey_cookies_init_def)

end
