(* ===== verification/Htmx.thy ===== *)
theory Htmx
  imports PasskeyRouter Oidc
begin

section \<open>The HTMX pages (\<open>fastapi_htmx\<close>)\<close>

text \<open>
  The decisions of the UI adapter: the configuration, the target of a login, the locale, the
  success page of a registration, the copy table, and the installation of the UI on an application.
  Jinja, the \<open>app_factory\<close> package and Starlette's mounts are parameters; the HTML is not modelled.
\<close>

subsection \<open>\<open>PasskeyUiConfig\<close>\<close>

text \<open>\<open>uc_csrf_token\<close> stands for the identity of the callback, which configurations are compared by.\<close>

record ui_config =
  uc_paths :: passkey_paths
  uc_cookies :: passkey_cookies
  uc_static_mount_path :: string
  uc_static_url_path :: string
  uc_csrf_header_name :: string
  uc_csrf_token :: nat
  uc_login_success_url :: "string option"
  uc_register_success_url :: "string option"
  uc_activation_success_url :: "string option"
  uc_recovery_success_url :: "string option"
  uc_login_error_target_id :: string
  uc_register_error_target_id :: string
  uc_conditional_ui :: bool
  uc_capability_query_param :: string
  uc_locale_cookie_name :: "string option"
  uc_locale_query_param :: string
  uc_supported_locales :: "string list"
  uc_default_locale :: string

definition ui_config_init :: ui_config where
  "ui_config_init =
     \<lparr>uc_paths = passkey_paths_init, uc_cookies = passkey_cookies_init,
      uc_static_mount_path = ''/auth/ui/static'', uc_static_url_path = ''/auth/ui/static'',
      uc_csrf_header_name = ''X-CSRF-Token'', uc_csrf_token = 0, uc_login_success_url = None,
      uc_register_success_url = None, uc_activation_success_url = None, uc_recovery_success_url = None,
      uc_login_error_target_id = ''passkey-login-status'',
      uc_register_error_target_id = ''passkey-register-status'', uc_conditional_ui = False,
      uc_capability_query_param = ''capability'', uc_locale_cookie_name = None,
      uc_locale_query_param = ''lang'', uc_supported_locales = [''pl'', ''en'', ''de''],
      uc_default_locale = ''en''\<rparr>"

definition absolute_non_root :: "string \<Rightarrow> bool" where
  "absolute_non_root v \<longleftrightarrow> py_startswith v ''/'' \<and> v \<noteq> ''/''"

definition mk_ui_config :: "ui_config \<Rightarrow> ui_config result" where
  "mk_ui_config c =
     (if \<not> absolute_non_root (uc_static_mount_path c)
      then Inl (ValueError ''static_mount_path must be an absolute non-root path'')
      else if \<not> absolute_non_root (uc_static_url_path c)
      then Inl (ValueError ''static_url_path must be an absolute non-root path'')
      else Inr c)"

subsection \<open>Where a login leads\<close>

definition same_origin_return_path :: "string option \<Rightarrow> string option result" where
  "same_origin_return_path value =
     (case value of
        None \<Rightarrow> Inr None
      | Some v \<Rightarrow>
          if \<not> py_startswith v ''/'' \<or> py_startswith v ''//'' \<or> CHR 0x5C \<in> set v \<or> CHR '' '' \<in> set v
          then Inr None
          else res_bind (urlsplit v) (\<lambda>u.
            if su_scheme u \<noteq> [] \<or> su_netloc u \<noteq> [] \<or> su_fragment u \<noteq> [] then Inr None else Inr (Some v)))"

definition login_success_url :: "http_request \<Rightarrow> ui_config \<Rightarrow> string option result" where
  "login_success_url rq config =
     res_bind (same_origin_return_path (query_get rq ''next'')) (\<lambda>requested.
       Inr (if requested \<noteq> None then requested else uc_login_success_url config))"

definition register_success_url :: "ui_config \<Rightarrow> registration_kind option \<Rightarrow> string option" where
  "register_success_url config kind =
     (if kind = Some Invitation then uc_activation_success_url config
      else if kind = Some Recovery then uc_recovery_success_url config
      else uc_register_success_url config)"

text \<open>\<open>bool(capability and capability.strip())\<close>: the capability that the page shows.\<close>

definition shown_capability :: "string option \<Rightarrow> string option" where
  "shown_capability capability =
     (case capability of None \<Rightarrow> None | Some c \<Rightarrow> if py_strip c \<noteq> [] then Some c else None)"

definition resolve_locale :: "http_request \<Rightarrow> ui_config \<Rightarrow> string" where
  "resolve_locale rq config =
     (let param = (if uc_locale_query_param config \<noteq> [] then uc_locale_query_param config else ''lang'');
          supported = uc_supported_locales config;
          known = (\<lambda>v. case v of None \<Rightarrow> False | Some l \<Rightarrow> l \<in> set supported);
          query = query_get rq param;
          cookie = (if truthy (uc_locale_cookie_name config)
            then rq_cookies rq (the (uc_locale_cookie_name config)) else None)
      in if known query then the query
         else if known cookie then the cookie
         else if uc_default_locale config \<in> set supported then uc_default_locale config
         else if supported \<noteq> [] then hd supported else ''en'')"

subsection \<open>Installing the UI\<close>

record 'p app_state =
  as_ui :: "('p \<times> ui_config) option"
  as_platform :: "'p option"
  as_routes :: "string list"

definition mount_overlaps :: "string \<Rightarrow> string \<Rightarrow> bool" where
  "mount_overlaps mount route =
     (let existing = rstrip_slash route in
      existing \<noteq> [] \<and> (mount = existing \<or> py_startswith mount (existing @ ''/'')
        \<or> py_startswith existing (mount @ ''/'')))"

text \<open>
  \<open>install_factory\<close> is the call of \<open>install_app_factory_ui\<close>, \<open>routes\<close> are the paths of the
  passkey router. \<open>PasskeyUiConflict\<close> is a \<open>ValueError\<close>; the conflict of \<open>app_factory\<close> is an error
  of that package.
\<close>

definition install_passkey_ui ::
  "('p app_state, unit) op \<Rightarrow> string list \<Rightarrow> 'p \<Rightarrow> ui_config option \<Rightarrow> ('p app_state, 'p \<times> ui_config) op" where
  "install_passkey_ui install_factory routes platform config app =
     (let resolved = (case config of Some c \<Rightarrow> c | None \<Rightarrow> ui_config_init);
          mount = rstrip_slash (uc_static_mount_path resolved) in
      case as_ui app of
        Some (platform0, config0) \<Rightarrow>
          (if platform0 \<noteq> platform \<or> config0 \<noteq> resolved
           then (Inl (ValueError ''my-auth passkey UI is already installed with different configuration''), app)
           else (Inr (platform0, config0), app))
      | None \<Rightarrow>
          if as_platform app \<noteq> Some platform
          then (Inl (HostError ''platform must be installed on this application before my-auth UI''), app)
          else if \<exists>route \<in> set (as_routes app). mount_overlaps mount route
          then (Inl (ValueError ''static mount path overlaps existing mount''), app)
          else op_bind install_factory (\<lambda>_ app1.
            (Inr (platform, resolved), app1\<lparr>as_routes := as_routes app1 @ mount # routes,
              as_ui := Some (platform, resolved)\<rparr>)) app)"

text \<open>The hooks of the installed router: the host's, with the pages of the UI.\<close>

definition wrap_hooks ::
  "'s route_hooks \<Rightarrow> (http_request \<Rightarrow> ('s, http_response) op) \<Rightarrow> (http_request \<Rightarrow> ('s, http_response) op)
   \<Rightarrow> (http_request \<Rightarrow> registration_kind \<Rightarrow> string option \<Rightarrow> ('s, http_response) op)
   \<Rightarrow> (http_request \<Rightarrow> passkey_credential list \<Rightarrow> ('s, http_response) op) \<Rightarrow> 's route_hooks" where
  "wrap_hooks hooks login register capability credentials =
     hooks\<lparr>hk_render_login := login, hk_render_register := register,
           hk_render_capability := Some capability, hk_render_credentials := Some credentials\<rparr>"

subsection \<open>Properties\<close>

text \<open>
  What a browser makes of a location: tabs and line breaks are dropped, and a location that then
  starts with two slashes (or backslashes) names another host.
\<close>

definition browser_leaves :: "string \<Rightarrow> bool" where
  "browser_leaves p =
     (case filter (\<lambda>c. c \<noteq> CHR 0x09 \<and> c \<noteq> CHR 0x0A \<and> c \<noteq> CHR 0x0D) p of
        a # b # _ \<Rightarrow> a \<in> {CHR ''/'', CHR 0x5C} \<and> b \<in> {CHR ''/'', CHR 0x5C}
      | _ \<Rightarrow> False)"

lemma return_path_Some:
  assumes "same_origin_return_path v = Inr (Some p)"
  shows "v = Some p \<and> (\<exists>rest. p = CHR ''/'' # rest \<and> \<not> py_startswith rest ''/'') \<and> CHR 0x5C \<notin> set p"
proof -
  have v: "v = Some p" and p: "py_startswith p ''/''" "\<not> py_startswith p ''//''" "CHR 0x5C \<notin> set p"
    using assms by (auto simp: same_origin_return_path_def res_bind_Inr split: option.splits if_splits)
  then show ?thesis by (cases p) (auto simp: py_startswith_def)
qed

text \<open>
  C36: the return path of a login that has no tab or line break stays on the site; one with a tab
  before two more slashes passes the check, because \<open>urlsplit\<close> drops the tab too and then sees an
  empty authority, and a browser follows it to another host.
\<close>

theorem return_path_leaves_only_with_tab:
  "(\<forall>v p. same_origin_return_path v = Inr (Some p)
      \<longrightarrow> set p \<inter> {CHR 0x09, CHR 0x0A, CHR 0x0D} = {} \<longrightarrow> \<not> browser_leaves p)
   \<and> (let p = [CHR ''/'', CHR 0x09] @ ''//evil.com'' in
        same_origin_return_path (Some p) = Inr (Some p) \<and> browser_leaves p)"
proof (intro conjI allI impI)
  fix v p assume ok: "same_origin_return_path v = Inr (Some p)" and clean: "set p \<inter> {CHR 0x09, CHR 0x0A, CHR 0x0D} = {}"
  then obtain rest where p: "p = CHR ''/'' # rest" "\<not> py_startswith rest ''/''" "CHR 0x5C \<notin> set p"
    using return_path_Some [OF ok] by auto
  have "filter (\<lambda>c. c \<noteq> CHR 0x09 \<and> c \<noteq> CHR 0x0A \<and> c \<noteq> CHR 0x0D) p = p"
    using clean by (auto simp: filter_id_conv)
  then show "\<not> browser_leaves p" using p by (cases rest) (auto simp: browser_leaves_def py_startswith_def)
next
  show "let p = [CHR ''/'', CHR 0x09] @ ''//evil.com'' in
      same_origin_return_path (Some p) = Inr (Some p) \<and> browser_leaves p"
    by (simp add: same_origin_return_path_def browser_leaves_def py_startswith_def urlsplit_def split_scheme_def
        clean_url_def c0_or_space_def partition_char_def netloc_char_def)
qed

lemma return_path_leaves_only_with_tab_witness:
  "same_origin_return_path (Some ''/account'') = Inr (Some ''/account'') \<and> \<not> browser_leaves ''/account''"
proof -
  have "same_origin_return_path (Some ''/account'') = Inr (Some ''/account'')"
    by (simp add: same_origin_return_path_def py_startswith_def urlsplit_def split_scheme_def
        clean_url_def c0_or_space_def partition_char_def netloc_char_def)
  then show ?thesis using return_path_leaves_only_with_tab by simp
qed

text \<open>
  Installing the UI again with the same platform and configuration returns the first
  installation and changes nothing, and an installation that fails leaves the routes and the
  installed UI as they were; the mounted path never overlaps a route that was there before.
\<close>

theorem install_idempotent:
  assumes "install_passkey_ui install_factory routes platform config app = (r, app')"
    and "\<forall>a. as_ui (snd (install_factory a)) = as_ui a" and "as_ui app = None"
  shows "(case r of
      Inr (p, c) \<Rightarrow> as_ui app' = Some (p, c) \<and> p = platform
        \<and> install_passkey_ui install_factory routes platform config app' = (Inr (p, c), app')
        \<and> (\<forall>c'. c' \<noteq> c \<longrightarrow> \<not> is_ok (fst (install_passkey_ui install_factory routes platform (Some c') app')))
        \<and> \<not> (\<exists>route \<in> set (as_routes app). mount_overlaps (rstrip_slash (uc_static_mount_path c)) route)
    | Inl e \<Rightarrow> as_ui app' = None)"
proof -
  obtain x app1 where f: "install_factory app = (x, app1)" by (metis surj_pair)
  have "as_ui app1 = None" using assms(2,3) f by (metis snd_conv)
  then show ?thesis
    using assms(1,3) f
    by (cases x) (auto simp: install_passkey_ui_def Let_def op_bind_def split: if_splits option.splits)
qed

lemma install_idempotent_witness:
  "\<exists>app'. install_passkey_ui (return_op ()) [''/login''] True None
      \<lparr>as_ui = None, as_platform = Some True, as_routes = [''/static'']\<rparr> = (Inr (True, ui_config_init), app')
    \<and> install_passkey_ui (return_op ()) [''/login''] True None app' = (Inr (True, ui_config_init), app')"
proof -
  have mount: "uc_static_mount_path ui_config_init = ''/auth/ui/static''" by (simp add: ui_config_init_def)
  obtain app' where run: "install_passkey_ui (return_op ()) [''/login''] True None
      \<lparr>as_ui = None, as_platform = Some True, as_routes = [''/static'']\<rparr> = (Inr (True, ui_config_init), app')"
    using mount by (simp add: install_passkey_ui_def op_bind_def mount_overlaps_def rstrip_slash_def Let_def
        py_startswith_def)
  then show ?thesis using install_idempotent [OF run] by simp
qed

end
