(* ===== verification/JsonFuel.thy ===== *)
theory JsonFuel
  imports PasskeyService
begin

section \<open>The JSON reader always ends\<close>

text \<open>
  \<open>json_value\<close> is defined with fuel. Here: every successful step consumes characters, so fuel
  beyond twice the length of the text changes no result, and \<open>None\<close> is never a lack of fuel.
\<close>

lemma skip_ws_Cons: "skip_ws s = c # cs \<Longrightarrow> length cs < length s"
  by (metis Suc_le_lessD length_Cons length_dropWhile_le)

lemma cons_char_Some: "cons_char c r = Some (x, t) \<longleftrightarrow> (\<exists>y. r = Some (y, t) \<and> x = c # y)"
  by (auto simp: cons_char_def)

lemma json_string_consumes: "json_string s = Some (x, r) \<Longrightarrow> length r < length s"
proof (induction s arbitrary: x rule: length_induct)
  case (1 s)
  then obtain c cs where s: "s = c # cs" by (cases s) auto
  have IH: "json_string t = Some (y, r) \<Longrightarrow> length t < length s \<Longrightarrow> length r < length t" for t y
    using "1.IH" by blast
  show ?case
    using "1.prems" IH by (fastforce simp: s cons_char_Some split: if_splits list.splits option.splits)
qed

lemma json_int_part_consumes: "json_int_part s = Some (ds, r) \<Longrightarrow> length r < length s"
  by (auto simp: json_int_part_def split: list.splits if_splits)
    (metis is_digit_def dropWhile.simps(2) le_imp_less_Suc length_dropWhile_le)

lemma json_fraction_length: "length (snd (json_fraction s)) \<le> length s"
  by (auto simp: json_fraction_def split: list.split if_split)
    (metis Suc_leD Suc_le_mono le_SucI length_dropWhile_le)+

lemma json_exponent_length: "length (snd (json_exponent s)) \<le> length s"
proof (cases s)
  case (Cons e cs)
  have "length (dropWhile is_digit (drop k cs)) \<le> Suc (length cs)" for k
    using length_dropWhile_le [of is_digit "drop k cs"] by simp
  then show ?thesis by (auto simp: Cons json_exponent_def Let_def)
qed (simp add: json_exponent_def)

lemma json_number_consumes:
  assumes "json_number s = Some (v, r)"
  shows "length r < length s"
proof -
  define body where "body = (if case s of c # _ \<Rightarrow> c = CHR ''-'' | [] \<Rightarrow> False then tl s else s)"
  obtain ds r1 where int: "json_int_part body = Some (ds, r1)"
    using assms by (auto simp: json_number_def Let_def body_def split: option.splits if_splits)
  have "r = snd (json_exponent (snd (json_fraction r1)))"
    using assms int unfolding json_number_def Let_def body_def [symmetric]
    by (auto split: prod.splits if_splits)
  then have "length r \<le> length r1"
    using json_exponent_length [of "snd (json_fraction r1)"] json_fraction_length [of r1] by simp
  moreover have "length body \<le> length s" by (simp add: body_def)
  ultimately show ?thesis using json_int_part_consumes [OF int] by simp
qed

lemma json_scalar_consumes:
  assumes "json_scalar s = Some (v, r)"
  shows "length r < length s"
proof (cases "List.find (\<lambda>(w, _). py_startswith s w) json_literals")
  case None
  then show ?thesis using assms json_number_consumes by (simp add: json_scalar_def)
next
  case (Some p)
  obtain w x where p: "p = (w, x)" by (cases p)
  have "(w, x) \<in> set json_literals" and start: "py_startswith s w"
    using find_Some_in [OF Some] by (auto simp: p)
  then have "w \<noteq> []" by (auto simp: json_literals_def)
  moreover have "length w \<le> length s"
    using start by (metis py_startswith_def length_take min.cobounded1 min_def nat_le_linear)
  moreover have "r = drop (length w) s" using assms Some p by (simp add: json_scalar_def)
  ultimately show ?thesis by (cases w) simp_all
qed

text \<open>The parts of the parser's steps, as rules: what succeeded, and on which rest.\<close>

lemma json_value_Some:
  "json_value (Suc n) s = Some (v, r) \<Longrightarrow>
   (\<exists>c cs. skip_ws s = c # cs \<and>
      ((\<exists>x. json_string cs = Some (x, r))
       \<or> (\<exists>d ds. skip_ws cs = d # ds \<and> (r = ds \<or> (\<exists>xs. json_elements n (d # ds) = Some (xs, r))
            \<or> (\<exists>ms. json_members n (d # ds) = Some (ms, r))))
       \<or> json_scalar (c # cs) = Some (v, r)))"
  by (auto split: list.splits if_splits)

lemma json_elements_Some:
  "json_elements (Suc n) s = Some (xs, r) \<Longrightarrow>
   (\<exists>v rest d ds. json_value n s = Some (v, rest) \<and> skip_ws rest = d # ds
      \<and> (r = ds \<or> (\<exists>ys. json_elements n ds = Some (ys, r))))"
  by (auto split: option.splits list.splits if_splits)

lemma json_members_Some:
  "json_members (Suc n) s = Some (ms, r) \<Longrightarrow>
   (\<exists>q cs k r1 e es v r2 d ds. skip_ws s = q # cs \<and> json_string cs = Some (k, r1) \<and> skip_ws r1 = e # es
      \<and> json_value n es = Some (v, r2) \<and> skip_ws r2 = d # ds \<and> (r = ds \<or> (\<exists>ys. json_members n ds = Some (ys, r))))"
  by (auto split: option.splits list.splits if_splits)

lemma json_consumes:
  "(\<forall>s v r. json_value n s = Some (v, r) \<longrightarrow> length r < length s)
   \<and> (\<forall>s xs r. json_elements n s = Some (xs, r) \<longrightarrow> length r < length s)
   \<and> (\<forall>s ms r. json_members n s = Some (ms, r) \<longrightarrow> length r < length s)"
proof (induction n)
  case (Suc n)
  then have V: "json_value n s = Some (v, r) \<Longrightarrow> length r < length s"
    and E: "json_elements n s = Some (xs, r) \<Longrightarrow> length r < length s"
    and M: "json_members n s = Some (ms, r) \<Longrightarrow> length r < length s" for s v xs ms r
    by blast+
  show ?case
  proof (intro conjI allI impI)
    fix s v r assume "json_value (Suc n) s = Some (v, r)"
    from json_value_Some [OF this] obtain c cs where c: "skip_ws s = c # cs"
      and or: "(\<exists>x. json_string cs = Some (x, r))
       \<or> (\<exists>d ds. skip_ws cs = d # ds \<and> (r = ds \<or> (\<exists>xs. json_elements n (d # ds) = Some (xs, r))
            \<or> (\<exists>ms. json_members n (d # ds) = Some (ms, r))))
       \<or> json_scalar (c # cs) = Some (v, r)" by blast
    have cs: "length cs < length s" by (rule skip_ws_Cons [OF c])
    from or show "length r < length s"
    proof (elim disjE exE conjE)
      fix d ds assume d: "skip_ws cs = d # ds"
      then have "length (d # ds) \<le> length cs" by (metis length_dropWhile_le)
      then show "r = ds \<Longrightarrow> length r < length s" "\<And>xs. json_elements n (d # ds) = Some (xs, r) \<Longrightarrow> length r < length s"
        "\<And>ms. json_members n (d # ds) = Some (ms, r) \<Longrightarrow> length r < length s"
        using cs by (auto dest!: E M)
    qed (use cs json_string_consumes json_scalar_consumes in fastforce)+
  next
    fix s xs r assume "json_elements (Suc n) s = Some (xs, r)"
    from json_elements_Some [OF this] show "length r < length s"
      by (auto dest!: V E skip_ws_Cons)
  next
    fix s ms r assume "json_members (Suc n) s = Some (ms, r)"
    from json_members_Some [OF this] show "length r < length s"
      by (auto dest!: V M skip_ws_Cons json_string_consumes)
  qed
qed simp

declare json_value.simps(2) [simp del] json_elements.simps(2) [simp del] json_members.simps(2) [simp del]

lemma json_fuel_step:
  "(\<forall>s. 2 * length s + 1 \<le> n \<longrightarrow> json_value (Suc n) s = json_value n s)
   \<and> (\<forall>s. 2 * length s + 2 \<le> n \<longrightarrow> json_elements (Suc n) s = json_elements n s)
   \<and> (\<forall>s. 2 * length s + 2 \<le> n \<longrightarrow> json_members (Suc n) s = json_members n s)"
proof (induction n)
  case (Suc n)
  then have V: "2 * length s + 1 \<le> n \<Longrightarrow> json_value (Suc n) s = json_value n s"
    and E: "2 * length s + 2 \<le> n \<Longrightarrow> json_elements (Suc n) s = json_elements n s"
    and M: "2 * length s + 2 \<le> n \<Longrightarrow> json_members (Suc n) s = json_members n s" for s
    by blast+
  show ?case
  proof (intro conjI allI impI)
    fix s :: string assume len: "2 * length s + 1 \<le> Suc n"
    have E': "json_elements (Suc n) (d # ds) = json_elements n (d # ds)"
      "json_members (Suc n) (d # ds) = json_members n (d # ds)"
      if "skip_ws s = c # cs" "skip_ws cs = d # ds" for c cs d ds
    proof -
      have "length (d # ds) \<le> length cs" by (metis that(2) length_dropWhile_le)
      then have "2 * length (d # ds) + 2 \<le> n" using skip_ws_Cons [OF that(1)] len by simp
      then show "json_elements (Suc n) (d # ds) = json_elements n (d # ds)"
        "json_members (Suc n) (d # ds) = json_members n (d # ds)" using E M by blast+
    qed
    show "json_value (Suc (Suc n)) s = json_value (Suc n) s"
      unfolding json_value.simps(2) [of "Suc n" s] json_value.simps(2) [of n s]
      by (simp add: E' cong: list.case_cong if_cong)
  next
    fix s :: string assume len: "2 * length s + 2 \<le> Suc n"
    have V': "json_value (Suc n) s = json_value n s" using len by (intro V) simp
    have E': "json_elements (Suc n) ds = json_elements n ds"
      if "json_value n s = Some (v, rest)" "skip_ws rest = d # ds" for v rest d ds
      using json_consumes [of n] that skip_ws_Cons [OF that(2)] len by (intro E) fastforce
    show "json_elements (Suc (Suc n)) s = json_elements (Suc n) s"
      unfolding json_elements.simps(2) [of "Suc n" s] json_elements.simps(2) [of n s] V'
      by (simp add: E' cong: list.case_cong option.case_cong prod.case_cong if_cong)
  next
    fix s :: string assume len: "2 * length s + 2 \<le> Suc n"
    have V': "json_value (Suc n) es = json_value n es"
      if "skip_ws s = q # cs" "json_string cs = Some (k, r1)" "skip_ws r1 = e # es" for q cs k r1 e es
      using skip_ws_Cons [OF that(1)] json_string_consumes [OF that(2)] skip_ws_Cons [OF that(3)] len by (intro V) linarith
    have M': "json_members (Suc n) ds = json_members n ds"
      if "skip_ws s = q # cs" "json_string cs = Some (k, r1)" "skip_ws r1 = e # es"
        "json_value n es = Some (v, r2)" "skip_ws r2 = d # ds" for q cs k r1 e es v r2 d ds
    proof (rule M)
      have "length r2 < length es" using json_consumes that(4) by blast
      then show "2 * length ds + 2 \<le> n"
        using skip_ws_Cons [OF that(1)] json_string_consumes [OF that(2)] skip_ws_Cons [OF that(3)]
          skip_ws_Cons [OF that(5)] len by linarith
    qed
    show "json_members (Suc (Suc n)) s = json_members (Suc n) s"
      unfolding json_members.simps(2) [of "Suc n" s] json_members.simps(2) [of n s]
      by (simp add: V' M' cong: list.case_cong option.case_cong prod.case_cong if_cong)
  qed
qed simp

lemma json_fuel:
  assumes "2 * length s + 2 \<le> n"
  shows "json_value n s = json_value (2 * length s + 2) s"
  using assms
proof (induction n rule: dec_induct)
  case (step n)
  then show ?case using json_fuel_step [of n] by simp
qed simp



end
