(* ===== verification/SqlTables.thy ===== *)
theory SqlTables
  imports SqliteConn Http Base64
begin

section \<open>Tables of a SQLite database\<close>

text \<open>
  What the schema code uses of SQLite: tables with declared columns, indexes, foreign keys and
  rows, the statements that create, alter and drop them, and the pragmas that describe them.
  Names are compared as written. Foreign keys are enforced, which both transaction modes of the
  schema functions make sure of; NO ACTION is checked when a row is deleted and not at the end of
  the statement. Error texts name the kind of the violation only.
\<close>

subsection \<open>Values\<close>

text \<open>Of a REAL only what \<open>int\<close> makes of it matters: \<open>None\<close> is an infinity.\<close>

datatype sql_value = SqlNull | SqlInt int | SqlReal "int option" | SqlText string | SqlBlob bytes

text \<open>\<open>int(value)\<close> of a cell. \<open>int\<close> of bytes reads ASCII text and strips ASCII white space only.\<close>

definition int_of_bytes :: "bytes \<Rightarrow> int result" where
  "int_of_bytes b =
     (if list_ex (\<lambda>x. unat x \<ge> 128 \<or> (28 \<le> unat x \<and> unat x \<le> 31)) b
      then Inl (ValueError ''invalid literal for int() with base 10'')
      else py_int_text (map (\<lambda>x. char_of (unat x)) b))"

fun as_int :: "sql_value \<Rightarrow> int result" where
  "as_int SqlNull = Inl (TypeError ''int() argument must be a string, a bytes-like object or a real number'')"
| "as_int (SqlInt n) = Inr n"
| "as_int (SqlReal None) = Inl OverflowError"
| "as_int (SqlReal (Some n)) = Inr n"
| "as_int (SqlText s) = py_int_text s"
| "as_int (SqlBlob b) = int_of_bytes b"

text \<open>
  Column affinity. A value of the declared class, NULL and a BLOB are stored as they are;
  \<open>conv\<close> stands for SQLite's conversions between numbers and texts.
\<close>

definition affinity :: "(string \<Rightarrow> sql_value \<Rightarrow> sql_value) \<Rightarrow> string \<Rightarrow> sql_value \<Rightarrow> sql_value" where
  "affinity conv ty v =
     (case v of
        SqlNull \<Rightarrow> v
      | SqlBlob _ \<Rightarrow> v
      | SqlText _ \<Rightarrow> if ty = ''INTEGER'' then conv ty v else v
      | SqlInt _ \<Rightarrow> if ty = ''TEXT'' then conv ty v else v
      | SqlReal _ \<Rightarrow> if ty = ''BLOB'' then v else conv ty v)"

subsection \<open>Tables\<close>

record column_info =
  ci_name :: string
  ci_type :: string
  ci_notnull :: int
  ci_pk :: int
  ci_default :: "string option"

text \<open>An automatic index of a UNIQUE or PRIMARY KEY constraint has the empty name here.\<close>

record index_info =
  ix_name :: string
  ix_unique :: bool
  ix_columns :: "string list"

record foreign_key =
  fk_table :: string
  fk_from :: string
  fk_to :: "string option"
  fk_update_action :: string
  fk_delete_action :: string

record sql_table =
  tb_columns :: "column_info list"
  tb_indexes :: "index_info list"
  tb_foreign_keys :: "foreign_key list"
  tb_rows :: "sql_value list list"

type_synonym sql_db = "(string, sql_table) dict"

definition column_names :: "sql_table \<Rightarrow> string list" where
  "column_names tb = map ci_name (tb_columns tb)"

fun cell_of :: "string list \<Rightarrow> sql_value list \<Rightarrow> string \<Rightarrow> sql_value" where
  "cell_of (n # ns) (v # vs) c = (if n = c then v else cell_of ns vs c)"
| "cell_of _ _ c = SqlNull"

definition cell :: "sql_table \<Rightarrow> string \<Rightarrow> sql_value list \<Rightarrow> sql_value" where
  "cell tb c row = cell_of (column_names tb) row c"

definition rows_of :: "sql_db \<Rightarrow> string \<Rightarrow> sql_value list list" where
  "rows_of db t = (case map_of db t of None \<Rightarrow> [] | Some tb \<Rightarrow> tb_rows tb)"

text \<open>The pragmas give no rows for a table that does not exist.\<close>

definition table_info :: "sql_db \<Rightarrow> string \<Rightarrow> column_info list" where
  "table_info db t = (case map_of db t of None \<Rightarrow> [] | Some tb \<Rightarrow> tb_columns tb)"

definition index_list :: "sql_db \<Rightarrow> string \<Rightarrow> index_info list" where
  "index_list db t = (case map_of db t of None \<Rightarrow> [] | Some tb \<Rightarrow> tb_indexes tb)"

definition foreign_key_list :: "sql_db \<Rightarrow> string \<Rightarrow> foreign_key list" where
  "foreign_key_list db t = (case map_of db t of None \<Rightarrow> [] | Some tb \<Rightarrow> tb_foreign_keys tb)"

definition index_exists :: "sql_db \<Rightarrow> string \<Rightarrow> bool" where
  "index_exists db name = list_ex (\<lambda>(_, tb). list_ex (\<lambda>ix. ix_name ix = name) (tb_indexes tb)) db"

subsection \<open>Statements\<close>

abbreviation no_such_table :: exn where
  "no_such_table \<equiv> OperationalError ''no such table''"

definition on_table :: "string \<Rightarrow> (sql_table \<Rightarrow> 'a result \<times> sql_table) \<Rightarrow> (sql_db, 'a) op" where
  "on_table t f db =
     (case map_of db t of
        None \<Rightarrow> (Inl no_such_table, db)
      | Some tb \<Rightarrow>
          (case f tb of (Inl e, _) \<Rightarrow> (Inl e, db) | (Inr a, tb') \<Rightarrow> (Inr a, AList.update t tb' db)))"

definition create_table :: "bool \<Rightarrow> string \<Rightarrow> sql_table \<Rightarrow> (sql_db, unit) op" where
  "create_table if_not_exists name tb db =
     (if map_of db name \<noteq> None
      then (if if_not_exists then (Inr (), db) else (Inl (OperationalError ''table already exists''), db))
      else if index_exists db name then (Inl (OperationalError ''there is already an index of that name''), db)
      else (Inr (), db @ [(name, tb)]))"

definition create_index :: "bool \<Rightarrow> string \<Rightarrow> string \<Rightarrow> string list \<Rightarrow> (sql_db, unit) op" where
  "create_index if_not_exists name t cols db =
     (if map_of db t = None then (Inl no_such_table, db)
      else if map_of db name \<noteq> None then (Inl (OperationalError ''there is already a table of that name''), db)
      else if index_exists db name
      then (if if_not_exists then (Inr (), db) else (Inl (OperationalError ''index already exists''), db))
      else on_table t (\<lambda>tb.
        if \<not> set cols \<subseteq> set (column_names tb) then (Inl (OperationalError ''no such column''), tb)
        else (Inr (), tb\<lparr>tb_indexes := \<lparr>ix_name = name, ix_unique = False, ix_columns = cols\<rparr> # tb_indexes tb\<rparr>)) db)"

definition add_column :: "string \<Rightarrow> column_info \<Rightarrow> (sql_db, unit) op" where
  "add_column t col = on_table t (\<lambda>tb.
     if ci_name col \<in> set (column_names tb) then (Inl (OperationalError ''duplicate column name''), tb)
     else (Inr (), tb\<lparr>tb_columns := tb_columns tb @ [col], tb_rows := map (\<lambda>row. row @ [SqlNull]) (tb_rows tb)\<rparr>))"

text \<open>Renaming a table rewrites the foreign keys that name it.\<close>

definition rename_table :: "string \<Rightarrow> string \<Rightarrow> (sql_db, unit) op" where
  "rename_table old new db =
     (if map_of db old = None then (Inl no_such_table, db)
      else if map_of db new \<noteq> None \<or> index_exists db new
      then (Inl (OperationalError ''there is already another table or index with this name''), db)
      else (Inr (), map (\<lambda>(n, tb). (if n = old then new else n,
        tb\<lparr>tb_foreign_keys := map (\<lambda>fk. if fk_table fk = old then fk\<lparr>fk_table := new\<rparr> else fk)
           (tb_foreign_keys tb)\<rparr>)) db))"

definition select_columns :: "string list \<Rightarrow> string \<Rightarrow> (sql_db, sql_value list list) op" where
  "select_columns cols t db =
     (case map_of db t of
        None \<Rightarrow> (Inl no_such_table, db)
      | Some tb \<Rightarrow>
          if \<not> set cols \<subseteq> set (column_names tb) then (Inl (OperationalError ''no such column''), db)
          else (Inr (map (\<lambda>row. map (\<lambda>c. cell tb c row) cols) (tb_rows tb)), db))"

definition count_rows :: "string \<Rightarrow> (sql_db, nat) op" where
  "count_rows t db = (case map_of db t of None \<Rightarrow> (Inl no_such_table, db) | Some tb \<Rightarrow> (Inr (length (tb_rows tb)), db))"

definition delete_all :: "string \<Rightarrow> (sql_db, unit) op" where
  "delete_all t = on_table t (\<lambda>tb. (Inr (), tb\<lparr>tb_rows := []\<rparr>))"

definition set_cell :: "sql_table \<Rightarrow> string \<Rightarrow> sql_value \<Rightarrow> sql_value list \<Rightarrow> sql_value list" where
  "set_cell tb c v row = map2 (\<lambda>n old. if n = c then v else old) (column_names tb) row"

definition update_all :: "(string \<Rightarrow> sql_value \<Rightarrow> sql_value) \<Rightarrow> string \<Rightarrow> string \<Rightarrow> sql_value \<Rightarrow> (sql_db, unit) op" where
  "update_all conv t c v = on_table t (\<lambda>tb.
     case filter (\<lambda>i. ci_name i = c) (tb_columns tb) of
       [] \<Rightarrow> (Inl (OperationalError ''no such column''), tb)
     | i # _ \<Rightarrow> (Inr (), tb\<lparr>tb_rows := map (set_cell tb c (affinity conv (ci_type i) v)) (tb_rows tb)\<rparr>))"

subsection \<open>Constraints\<close>

text \<open>Two rows clash in a unique index when they agree on its columns and none of these is NULL.\<close>

definition clash :: "sql_table \<Rightarrow> string list \<Rightarrow> sql_value list \<Rightarrow> sql_value list \<Rightarrow> bool" where
  "clash tb cols r1 r2 = list_all (\<lambda>c. cell tb c r1 = cell tb c r2 \<and> cell tb c r1 \<noteq> SqlNull) cols"

definition unique_ok :: "sql_table \<Rightarrow> sql_value list \<Rightarrow> bool" where
  "unique_ok tb row =
     list_all (\<lambda>ix. ix_unique ix \<longrightarrow> \<not> list_ex (clash tb (ix_columns ix) row) (tb_rows tb)) (tb_indexes tb)"

text \<open>A foreign key without a parent column refers to the parent's primary key.\<close>

definition parent_column :: "sql_table \<Rightarrow> foreign_key \<Rightarrow> string" where
  "parent_column parent fk =
     (case fk_to fk of Some c \<Rightarrow> c
      | None \<Rightarrow> (case filter (\<lambda>c. ci_pk c = 1) (tb_columns parent) of [] \<Rightarrow> [] | c # _ \<Rightarrow> ci_name c))"

definition has_parent :: "sql_db \<Rightarrow> sql_table \<Rightarrow> sql_value list \<Rightarrow> foreign_key \<Rightarrow> bool" where
  "has_parent db tb row fk =
     (cell tb (fk_from fk) row = SqlNull \<or>
      (case map_of db (fk_table fk) of
         None \<Rightarrow> False
       | Some parent \<Rightarrow>
           list_ex (\<lambda>r. cell parent (parent_column parent fk) r = cell tb (fk_from fk) row) (tb_rows parent)))"

definition insert_row :: "(string \<Rightarrow> sql_value \<Rightarrow> sql_value) \<Rightarrow> string \<Rightarrow> sql_value list \<Rightarrow> (sql_db, unit) op" where
  "insert_row conv t values db = on_table t (\<lambda>tb.
     let row = map2 (\<lambda>c. affinity conv (ci_type c)) (tb_columns tb) values in
     if length values \<noteq> length (tb_columns tb) then (Inl (OperationalError ''wrong number of values''), tb)
     else if list_ex (\<lambda>(c, v). ci_notnull c \<noteq> 0 \<and> v = SqlNull) (zip (tb_columns tb) row)
     then (Inl (IntegrityError ''NOT NULL constraint failed''), tb)
     else if \<not> unique_ok tb row then (Inl (IntegrityError ''UNIQUE constraint failed''), tb)
     else if \<not> list_all (has_parent db tb row) (tb_foreign_keys tb)
     then (Inl (IntegrityError ''FOREIGN KEY constraint failed''), tb)
     else (Inr (), tb\<lparr>tb_rows := tb_rows tb @ [row]\<rparr>)) db"

text \<open>\<open>PRAGMA foreign_key_check\<close>: is there a row without its parent?\<close>

definition fk_violated :: "sql_db \<Rightarrow> bool" where
  "fk_violated db =
     list_ex (\<lambda>(_, tb). list_ex (\<lambda>row. \<not> list_all (has_parent db tb row) (tb_foreign_keys tb)) (tb_rows tb)) db"

subsection \<open>Dropping a table\<close>

text \<open>
  With foreign keys enforced, DROP TABLE first deletes every row of the table, and with each row
  the actions of the foreign keys that refer to it take place. A cascade deletes a row at each
  step, so the number of rows bounds its depth.
\<close>

definition referencing :: "string \<Rightarrow> sql_db \<Rightarrow> (string \<times> foreign_key) list" where
  "referencing t db = concat (map (\<lambda>(n, tb). map (Pair n) (filter (\<lambda>fk. fk_table fk = t) (tb_foreign_keys tb))) db)"

definition refers_to :: "sql_table \<Rightarrow> sql_value list list \<Rightarrow> foreign_key \<Rightarrow> sql_table \<Rightarrow> sql_value list \<Rightarrow> bool" where
  "refers_to parent gone fk child row =
     (cell child (fk_from fk) row \<noteq> SqlNull
      \<and> cell child (fk_from fk) row \<in> set (map (cell parent (parent_column parent fk)) gone))"

function (sequential) delete_rows :: "nat \<Rightarrow> string \<Rightarrow> (sql_value list \<Rightarrow> bool) \<Rightarrow> sql_db \<Rightarrow> sql_db result"
  and delete_actions :: "nat \<Rightarrow> sql_table \<Rightarrow> sql_value list list \<Rightarrow> (string \<times> foreign_key) list \<Rightarrow> sql_db \<Rightarrow> sql_db result" where
  "delete_rows fuel t gone db =
     (case map_of db t of
        None \<Rightarrow> Inr db
      | Some tb \<Rightarrow>
          let deleted = filter gone (tb_rows tb);
              db' = AList.update t (tb\<lparr>tb_rows := filter (\<lambda>r. \<not> gone r) (tb_rows tb)\<rparr>) db
          in if deleted = [] then Inr db
             else (case fuel of
                 0 \<Rightarrow> Inl (HostError ''cascade deeper than the rows of the database'')
               | Suc n \<Rightarrow> delete_actions n tb deleted (referencing t db) db'))"
| "delete_actions n parent gone [] db = Inr db"
| "delete_actions n parent gone ((child, fk) # rest) db =
     (case map_of db child of
        None \<Rightarrow> delete_actions n parent gone rest db
      | Some tb \<Rightarrow>
          if \<not> list_ex (refers_to parent gone fk tb) (tb_rows tb) then delete_actions n parent gone rest db
          else if fk_delete_action fk = ''CASCADE''
          then (case delete_rows n child (refers_to parent gone fk tb) db of
              Inl e \<Rightarrow> Inl e
            | Inr db' \<Rightarrow> delete_actions n parent gone rest db')
          else if fk_delete_action fk = ''SET NULL''
          then delete_actions n parent gone rest (AList.update child (tb\<lparr>tb_rows := map (\<lambda>row.
            if refers_to parent gone fk tb row then set_cell tb (fk_from fk) SqlNull row else row) (tb_rows tb)\<rparr>) db)
          else if fk_delete_action fk = ''SET DEFAULT'' then Inl (HostError ''SET DEFAULT is not modelled'')
          else Inl (IntegrityError ''FOREIGN KEY constraint failed''))"
  by pat_completeness auto

termination
  by (relation "measures [\<lambda>x. case x of Inl (fuel, _) \<Rightarrow> fuel | Inr (n, _) \<Rightarrow> n,
      \<lambda>x. case x of Inl _ \<Rightarrow> 0 | Inr (_, _, _, fks, _) \<Rightarrow> Suc (length fks)]") auto

declare delete_rows.simps [simp del]

definition drop_table :: "string \<Rightarrow> (sql_db, unit) op" where
  "drop_table t db =
     (if map_of db t = None then (Inl no_such_table, db)
      else (case delete_rows (sum_list (map (\<lambda>(_, tb). length (tb_rows tb)) db)) t (\<lambda>_. True) db of
          Inl e \<Rightarrow> (Inl e, db)
        | Inr db' \<Rightarrow> (Inr (), AList.delete t db')))"

subsection \<open>The depth of a cascade\<close>

definition total_rows :: "sql_db \<Rightarrow> nat" where
  "total_rows db = sum_list (map (\<lambda>(_, tb). length (tb_rows tb)) db)"

abbreviation too_deep :: exn where
  "too_deep \<equiv> HostError ''cascade deeper than the rows of the database''"

lemma total_rows_update:
  "map_of db t = Some tb \<Longrightarrow> total_rows (AList.update t tb' db) + length (tb_rows tb) = total_rows db + length (tb_rows tb')"
  by (induction db) (auto simp: total_rows_def split: if_splits)

lemma delete_fuel:
  "total_rows db \<le> fuel \<Longrightarrow> (case delete_rows fuel t gone db of Inl e \<Rightarrow> e \<noteq> too_deep | Inr d \<Rightarrow> total_rows d \<le> total_rows db)"
  "total_rows db \<le> n \<Longrightarrow> (case delete_actions n parent rows fks db of Inl e \<Rightarrow> e \<noteq> too_deep | Inr d \<Rightarrow> total_rows d \<le> total_rows db)"
proof (induction fuel t gone db and n parent rows fks db rule: delete_rows_delete_actions.induct)
  case (1 fuel t gone db)
  show ?case
  proof (cases "map_of db t")
    case (Some tb)
    let ?db = "AList.update t (tb\<lparr>tb_rows := filter (\<lambda>r. \<not> gone r) (tb_rows tb)\<rparr>) db"
    have less: "total_rows ?db + length (filter gone (tb_rows tb)) = total_rows db"
      using total_rows_update [OF Some, of "tb\<lparr>tb_rows := filter (\<lambda>r. \<not> gone r) (tb_rows tb)\<rparr>"]
        sum_length_filter_compl [of gone "tb_rows tb"] by simp
    show ?thesis
    proof (cases "filter gone (tb_rows tb) = []")
      case False
      then obtain n where n: "fuel = Suc n" using less 1(2) by (cases fuel) auto
      moreover have "total_rows ?db \<le> n" using less 1(2) False n by (cases "filter gone (tb_rows tb)") auto
      ultimately show ?thesis
        using 1(1) [OF Some refl refl False n] less False Some
        by (auto simp: delete_rows.simps split: sum.splits)
    qed (simp add: Some delete_rows.simps)
  qed (simp add: delete_rows.simps)
next
  case (3 n parent gone child fk rest db)
  show ?case
  proof (cases "map_of db child")
    case None
    with 3 show ?thesis by simp
  next
    case (Some tb)
    have upd: "total_rows (AList.update child (tb\<lparr>tb_rows := map f (tb_rows tb)\<rparr>) db) = total_rows db" for f
      using total_rows_update [OF Some, of "tb\<lparr>tb_rows := map f (tb_rows tb)\<rparr>"] by simp
    show ?thesis
    proof (cases "delete_rows n child (refers_to parent gone fk tb) db")
      case (Inl e)
      then show ?thesis using 3 Some upd by (auto split: sum.splits)
    next
      case (Inr db')
      show ?thesis
      proof (cases "list_ex (refers_to parent gone fk tb) (tb_rows tb) \<and> fk_delete_action fk = ''CASCADE''")
        case True
        then have "total_rows db' \<le> total_rows db" using 3(3) [OF Some _ _ 3(6)] Inr by simp
        then show ?thesis using 3(4) [OF Some _ _ Inr] 3(6) True Some Inr by (auto split: sum.splits)
      next
        case False
        then show ?thesis using 3 Some upd by (auto split: sum.splits)
      qed
    qed
  qed
qed simp

text \<open>The fuel that \<open>drop_table\<close> starts with is enough.\<close>

lemma drop_table_fuel: "fst (drop_table t db) \<noteq> Inl too_deep"
  using delete_fuel(1) [of db "total_rows db" t "\<lambda>_. True"]
  by (auto simp: drop_table_def total_rows_def split: sum.splits)

subsection \<open>Tables a deletion does not reach\<close>

text \<open>The foreign keys of the tables of \<open>S\<close> refer to tables of \<open>S\<close> only.\<close>

definition closed_tables :: "string set \<Rightarrow> sql_db \<Rightarrow> bool" where
  "closed_tables S db \<longleftrightarrow> (\<forall>n tb fk. n \<in> S \<longrightarrow> (n, tb) \<in> set db \<longrightarrow> fk \<in> set (tb_foreign_keys tb) \<longrightarrow> fk_table fk \<in> S)"

definition agrees_on :: "string set \<Rightarrow> sql_db \<Rightarrow> sql_db \<Rightarrow> bool" where
  "agrees_on S db db' \<longleftrightarrow> map fst db' = map fst db \<and> (\<forall>n \<in> S. map_of db' n = map_of db n)
     \<and> (closed_tables S db \<longrightarrow> closed_tables S db')"

lemma agrees_on_refl [simp]: "agrees_on S db db"
  by (simp add: agrees_on_def)

lemma agrees_on_trans: "agrees_on S d1 d2 \<Longrightarrow> agrees_on S d2 d3 \<Longrightarrow> agrees_on S d1 d3"
  by (simp add: agrees_on_def)

lemma map_fst_update: "map_of db n = Some tb \<Longrightarrow> map fst (AList.update n tb' db) = map fst db"
  by (induction db) (auto split: if_splits)

lemma set_update_sub: "x \<in> set (AList.update k v d) \<Longrightarrow> x = (k, v) \<or> x \<in> set d"
  by (induction d) (auto split: if_splits)

lemma agrees_on_update:
  assumes "map_of db n = Some tb" and "n \<notin> S"
  shows "agrees_on S db (AList.update n tb' db)"
proof -
  have "closed_tables S (AList.update n tb' db)" if "closed_tables S db"
    using that assms(2) set_update_sub [of _ n tb' db] unfolding closed_tables_def by blast
  then show ?thesis using assms by (auto simp: agrees_on_def map_fst_update update_conv)
qed

text \<open>The ways in which the action of one foreign key can succeed.\<close>

definition nulled_rows ::
  "sql_table \<Rightarrow> sql_value list list \<Rightarrow> foreign_key \<Rightarrow> string \<Rightarrow> sql_table \<Rightarrow> sql_db \<Rightarrow> sql_db" where
  "nulled_rows parent gone fk child tb db = AList.update child (tb\<lparr>tb_rows := map (\<lambda>row.
     if refers_to parent gone fk tb row then set_cell tb (fk_from fk) SqlNull row else row) (tb_rows tb)\<rparr>) db"

lemma delete_actions_cases [consumes 2, case_names skip cascade null]:
  assumes "delete_actions n parent gone ((child, fk) # rest) db = Inr d" and "map_of db child = Some tb"
  obtains "delete_actions n parent gone rest db = Inr d" "\<not> list_ex (refers_to parent gone fk tb) (tb_rows tb)"
  | db' where "list_ex (refers_to parent gone fk tb) (tb_rows tb)" "fk_delete_action fk = ''CASCADE''"
      "delete_rows n child (refers_to parent gone fk tb) db = Inr db'" "delete_actions n parent gone rest db' = Inr d"
  | "list_ex (refers_to parent gone fk tb) (tb_rows tb)" "fk_delete_action fk = ''SET NULL''"
      "delete_actions n parent gone rest (nulled_rows parent gone fk child tb db) = Inr d"
  using assms by (auto simp: nulled_rows_def split: if_splits sum.splits)

lemma delete_agrees:
  "closed_tables S db \<Longrightarrow> t \<notin> S \<Longrightarrow> delete_rows fuel t gone db = Inr d \<Longrightarrow> agrees_on S db d"
  "closed_tables S db \<Longrightarrow> fst ` set fks \<inter> S = {} \<Longrightarrow> delete_actions n parent rows fks db = Inr d \<Longrightarrow> agrees_on S db d"
proof (induction fuel t gone db and n parent rows fks db arbitrary: d and d rule: delete_rows_delete_actions.induct)
  case (1 fuel t gone db)
  show ?case
  proof (cases "map_of db t")
    case (Some tb)
    let ?db = "AList.update t (tb\<lparr>tb_rows := filter (\<lambda>r. \<not> gone r) (tb_rows tb)\<rparr>) db"
    have upd: "agrees_on S db ?db" by (rule agrees_on_update [OF Some 1(3)])
    have refs: "fst ` set (referencing t db) \<inter> S = {}"
      using 1(2,3) by (fastforce simp: referencing_def closed_tables_def)
    show ?thesis
    proof (cases "filter gone (tb_rows tb) = []")
      case False
      then obtain n where n: "fuel = Suc n" and "delete_actions n tb (filter gone (tb_rows tb)) (referencing t db) ?db = Inr d"
        using 1(4) Some by (cases fuel) (auto simp: delete_rows.simps)
      then have "agrees_on S ?db d"
        using 1(1) [OF Some refl refl False n _ refs] upd 1(2) by (simp add: agrees_on_def)
      with upd show ?thesis by (rule agrees_on_trans)
    qed (use 1(4) Some in \<open>simp add: delete_rows.simps\<close>)
  qed (use 1(4) in \<open>simp add: delete_rows.simps\<close>)
next
  case (3 n parent gone child fk rest db)
  show ?case
  proof (cases "map_of db child")
    case None
    with 3 show ?thesis by simp
  next
    case (Some tb)
    have child: "child \<notin> S" and rest: "fst ` set rest \<inter> S = {}" using 3(7) by auto
    have nulled: "agrees_on S db (nulled_rows parent gone fk child tb db)"
      unfolding nulled_rows_def by (rule agrees_on_update [OF Some child])
    from 3(8) Some show ?thesis
    proof (cases rule: delete_actions_cases)
      case skip
      then show ?thesis using 3(1) 3(2) [OF Some] 3(6) rest by blast
    next
      case (cascade db')
      have first: "agrees_on S db db'" by (rule 3(3) [OF Some _ cascade(2) 3(6) child cascade(3)]) (use cascade(1) in simp)
      then have "agrees_on S db' d"
        using 3(4) [OF Some _ cascade(2,3) _ rest cascade(4)] cascade(1) 3(6) by (simp add: agrees_on_def)
      with first show ?thesis by (rule agrees_on_trans)
    next
      case null
      have "agrees_on S (nulled_rows parent gone fk child tb db) d"
        using 3(5) [OF Some _ _ null(2) _ rest null(3) [unfolded nulled_rows_def]] null(1,2) nulled 3(6)
        by (simp add: agrees_on_def nulled_rows_def)
      with nulled show ?thesis by (rule agrees_on_trans)
    qed
  qed
qed simp

end
