(* ===== verification/SqliteSchema.thy ===== *)
theory SqliteSchema
  imports SqlTables
begin

section \<open>The schema lifecycle (\<open>sqlite_schema.py\<close>)\<close>

text \<open>
  Inspection, initialization and migration of the tables of the package, on a connection in one of
  the two transaction modes. What other connections commit until BEGIN IMMEDIATE takes the write
  lock is a parameter \<open>others\<close>, \<open>None\<close> if the lock is not given. The sets of the code that only
  order its diagnostics are lists here.
\<close>

subsection \<open>The canonical layout\<close>

definition col :: "string \<Rightarrow> string \<Rightarrow> int \<Rightarrow> int \<Rightarrow> string option \<Rightarrow> column_info" where
  "col name ty notnull pk dflt = \<lparr>ci_name = name, ci_type = ty, ci_notnull = notnull, ci_pk = pk, ci_default = dflt\<rparr>"

definition schema_columns :: "column_info list" where
  "schema_columns = [col ''schema_version'' ''INTEGER'' 1 0 None]"

definition user_columns :: "column_info list" where
  "user_columns = [col ''user_id'' ''TEXT'' 0 1 None, col ''user_handle'' ''TEXT'' 1 0 None,
     col ''name'' ''TEXT'' 1 0 None, col ''display_name'' ''TEXT'' 0 0 None]"

definition credential_columns :: "column_info list" where
  "credential_columns = [col ''credential_id'' ''TEXT'' 0 1 None, col ''user_id'' ''TEXT'' 1 0 None,
     col ''public_key'' ''BLOB'' 1 0 None, col ''sign_count'' ''INTEGER'' 1 0 (Some ''0''),
     col ''transports'' ''TEXT'' 0 0 None, col ''device_type'' ''TEXT'' 0 0 None,
     col ''backed_up'' ''INTEGER'' 0 0 None, col ''label'' ''TEXT'' 0 0 None, col ''created_at'' ''TEXT'' 1 0 None]"

definition challenge_columns_v2 :: "column_info list" where
  "challenge_columns_v2 = [col ''key'' ''TEXT'' 1 1 None, col ''kind'' ''TEXT'' 1 2 None,
     col ''challenge'' ''BLOB'' 1 0 None, col ''expires_at'' ''TEXT'' 1 0 None, col ''user_id'' ''TEXT'' 0 0 None,
     col ''user_handle'' ''TEXT'' 0 0 None, col ''user_name'' ''TEXT'' 0 0 None,
     col ''user_display_name'' ''TEXT'' 0 0 None]"

definition challenge_columns :: "column_info list" where
  "challenge_columns = challenge_columns_v2
     @ [col ''registration_kind'' ''TEXT'' 0 0 None, col ''capability_id'' ''TEXT'' 0 0 None]"

definition enrollment_columns :: "column_info list" where
  "enrollment_columns = [col ''capability_id'' ''TEXT'' 0 1 None, col ''token_hash'' ''TEXT'' 1 0 None,
     col ''purpose'' ''TEXT'' 1 0 None, col ''subject'' ''TEXT'' 1 0 None, col ''expires_at'' ''TEXT'' 1 0 None,
     col ''issued_by'' ''TEXT'' 0 0 None, col ''claimed_flow_id'' ''TEXT'' 0 0 None, col ''claimed_at'' ''TEXT'' 0 0 None,
     col ''consumed_at'' ''TEXT'' 0 0 None, col ''revoked_at'' ''TEXT'' 0 0 None]"

abbreviation schema_t :: string where "schema_t \<equiv> ''my_auth_schema''"
abbreviation users_t :: string where "users_t \<equiv> ''passkey_users''"
abbreviation credentials_t :: string where "credentials_t \<equiv> ''passkey_credentials''"
abbreviation challenges_t :: string where "challenges_t \<equiv> ''passkey_challenges''"
abbreviation enrollment_t :: string where "enrollment_t \<equiv> ''passkey_enrollment_capabilities''"

definition canonical_columns :: "(string \<times> column_info list) list" where
  "canonical_columns = [(schema_t, schema_columns), (users_t, user_columns), (credentials_t, credential_columns),
     (challenges_t, challenge_columns), (enrollment_t, enrollment_columns)]"

subsection \<open>Inspection\<close>

datatype schema_state = Empty | CanonicalUnversioned | Legacy | Current | Unsupported

record inspection =
  si_state :: schema_state
  si_version :: "int option"
  si_diagnostics :: "string list"

fun state_text :: "schema_state \<Rightarrow> string" where
  "state_text Empty = ''empty''"
| "state_text CanonicalUnversioned = ''canonical_unversioned''"
| "state_text Legacy = ''legacy''"
| "state_text Current = ''current''"
| "state_text Unsupported = ''unsupported''"

definition found :: "schema_state \<Rightarrow> int option \<Rightarrow> string list \<Rightarrow> inspection" where
  "found state version diagnostics = \<lparr>si_state = state, si_version = version, si_diagnostics = diagnostics\<rparr>"

definition unsupported :: "int option \<Rightarrow> string list \<Rightarrow> inspection" where
  "unsupported version diagnostics = found Unsupported version diagnostics"

definition tables :: "sql_db \<Rightarrow> string list" where
  "tables db = map fst db"

definition columns :: "sql_db \<Rightarrow> string \<Rightarrow> string list" where
  "columns db t = map ci_name (table_info db t)"

definition has_unique_column_index :: "sql_db \<Rightarrow> string \<Rightarrow> string \<Rightarrow> bool" where
  "has_unique_column_index db t c = list_ex (\<lambda>ix. ix_unique ix \<and> ix_columns ix = [c]) (index_list db t)"

definition has_plain_index :: "sql_db \<Rightarrow> string \<Rightarrow> string \<Rightarrow> bool" where
  "has_plain_index db t name = list_ex (\<lambda>ix. ix_name ix = name \<and> \<not> ix_unique ix) (index_list db t)"

text \<open>\<open>str.upper\<close> as far as it can give one of the type names: the sharp s becomes SS.\<close>

definition py_upper :: "string \<Rightarrow> string" where
  "py_upper s = concat (map (\<lambda>c. let n = (of_char c :: nat) in
     if n = 223 then ''SS''
     else if (97 \<le> n \<and> n \<le> 122) \<or> (224 \<le> n \<and> n \<le> 254 \<and> n \<noteq> 247) then [char_of (n - 32)] else [c]) s)"

definition layout :: "sql_db \<Rightarrow> string \<Rightarrow> column_info list" where
  "layout db t = map (\<lambda>c. c\<lparr>ci_type := py_upper (ci_type c)\<rparr>) (table_info db t)"

definition diag :: "bool \<Rightarrow> string \<Rightarrow> string list" where
  "diag holds message = (if holds then [] else [message])"

definition credential_fk :: "foreign_key" where
  "credential_fk = \<lparr>fk_table = users_t, fk_from = ''user_id'', fk_to = Some ''user_id'',
     fk_update_action = ''NO ACTION'', fk_delete_action = ''CASCADE''\<rparr>"

definition canonical_layout_diagnostics :: "bool \<Rightarrow> sql_db \<Rightarrow> string list" where
  "canonical_layout_diagnostics require_metadata db =
     concat (map (\<lambda>(t, expected).
        if (t = schema_t \<and> \<not> require_metadata) \<or> (t = enrollment_t \<and> t \<notin> set (tables db)) then []
        else diag (layout db t = expected) (''divergent columns ('' @ t @ '')'')) canonical_columns)
     @ diag (has_plain_index db credentials_t ''idx_passkey_credentials_user_id'')
         ''missing index (idx_passkey_credentials_user_id)''
     @ diag (has_plain_index db challenges_t ''idx_passkey_challenges_expires_at'')
         ''missing index (idx_passkey_challenges_expires_at)''
     @ diag (has_unique_column_index db users_t ''user_handle'') ''missing unique index (passkey_users.user_handle)''
     @ (if enrollment_t \<in> set (tables db)
        then diag (has_plain_index db enrollment_t ''idx_passkey_enrollment_capabilities_expires_at'')
               ''missing index (idx_passkey_enrollment_capabilities_expires_at)''
             @ diag (has_unique_column_index db enrollment_t ''token_hash'')
               ''missing unique index (passkey_enrollment_capabilities.token_hash)''
             @ diag (has_unique_column_index db enrollment_t ''claimed_flow_id'')
               ''missing unique index (passkey_enrollment_capabilities.claimed_flow_id)''
        else [])
     @ diag (foreign_key_list db credentials_t = [credential_fk])
         ''divergent foreign key (passkey_credentials.user_id)''"

definition v2_layout_diagnostics :: "sql_db \<Rightarrow> string list" where
  "v2_layout_diagnostics db =
     diag (has_plain_index db credentials_t ''idx_passkey_credentials_user_id'')
       ''missing index (idx_passkey_credentials_user_id)''
     @ diag (has_plain_index db challenges_t ''idx_passkey_challenges_expires_at'')
       ''missing index (idx_passkey_challenges_expires_at)''
     @ diag (foreign_key_list db credentials_t = [credential_fk])
       ''divergent foreign key (passkey_credentials.user_id)''"

definition required_tables :: "string list" where
  "required_tables = [users_t, credentials_t, challenges_t]"

definition expected_legacy :: "(string \<times> string list) list" where
  "expected_legacy =
     [(users_t, [''user_id'', ''user_handle'', ''name'', ''display_name'']),
      (credentials_t, [''credential_id'', ''user_id'', ''public_key'', ''sign_count'', ''created_at'']),
      (challenges_t, [''flow_key'', ''kind'', ''challenge'', ''expires_at'', ''user_id'', ''user_handle'',
         ''user_name'', ''user_display_name''])]"

definition missing_columns :: "sql_db \<Rightarrow> string list" where
  "missing_columns db = concat (map (\<lambda>(t, expected).
     let absent = filter (\<lambda>c. c \<notin> set (columns db t)) expected in
     diag (absent = []) (''missing columns ('' @ t @ '': '' @ py_join '', '' (sort absent) @ '')'')) expected_legacy)"

definition inspect_legacy :: "sql_db \<Rightarrow> inspection" where
  "inspect_legacy db =
     (if missing_columns db \<noteq> [] then unsupported None (missing_columns db)
      else if schema_t \<in> set (tables db) then unsupported None [''legacy layout has schema metadata'']
      else found Legacy None [''legacy flow_key challenge layout''])"

definition int_text :: "int \<Rightarrow> string" where
  "int_text n = (if n < 0 then CHR ''-'' # nat_text (nat (- n)) else nat_text (nat n))"

definition inspect_version :: "sql_db \<Rightarrow> int \<Rightarrow> inspection" where
  "inspect_version db version =
     (let other = unsupported (Some version) [''schema version '' @ int_text version @ '' is not supported''] in
      if version = 3
      then (if canonical_layout_diagnostics True db \<noteq> []
            then unsupported None (canonical_layout_diagnostics True db) else found Current (Some version) [])
      else if version = 2 \<and> layout db challenges_t = challenge_columns_v2
      then (if v2_layout_diagnostics db \<noteq> [] then unsupported None (v2_layout_diagnostics db)
            else found Legacy (Some 2) [''schema v2''])
      else other)"

definition inspect_sqlite_schema :: "sql_db \<Rightarrow> inspection result" where
  "inspect_sqlite_schema db =
     (let ts = tables db; challenge = columns db challenges_t in
      if ts = [] \<or> ts = [''sqlite_sequence''] then Inr (found Empty None [])
      else if \<not> list_ex (\<lambda>t. t \<in> set ts) (schema_t # required_tables) then Inr (found Empty None [])
      else if \<not> set required_tables \<subseteq> set ts
      then Inr (unsupported None [''missing tables: '' @
        py_join '', '' (sort (filter (\<lambda>t. t \<notin> set ts) required_tables))])
      else if ''flow_key'' \<in> set challenge \<and> ''key'' \<in> set challenge
      then Inr (unsupported None [''challenge table has both flow_key and key columns''])
      else if ''flow_key'' \<in> set challenge then Inr (inspect_legacy db)
      else if schema_t \<notin> set ts
      then Inr (if canonical_layout_diagnostics False db \<noteq> []
        then unsupported None (canonical_layout_diagnostics False db) else found CanonicalUnversioned None [])
      else (case fst (select_columns [''schema_version''] schema_t db) of
          Inl e \<Rightarrow> Inl e
        | Inr [row] \<Rightarrow>
            (case as_int (hd row) of
               Inr version \<Rightarrow> Inr (inspect_version db version)
             | Inl e \<Rightarrow> if is_ValueError e \<or> is_TypeError e
                 then Inr (unsupported None [''schema version must be an integer'']) else Inl e)
        | Inr _ \<Rightarrow> Inr (unsupported None [''schema metadata must contain one row''])))"

subsection \<open>The statements of the schema\<close>

definition auto_unique :: "string list \<Rightarrow> index_info" where
  "auto_unique cols = \<lparr>ix_name = [], ix_unique = True, ix_columns = cols\<rparr>"

definition new_table :: "column_info list \<Rightarrow> string list list \<Rightarrow> foreign_key list \<Rightarrow> sql_table" where
  "new_table cols uniques fks =
     \<lparr>tb_columns = cols, tb_indexes = map auto_unique uniques, tb_foreign_keys = fks, tb_rows = []\<rparr>"

definition schema_table :: sql_table where
  "schema_table = new_table schema_columns [] []"

definition users_table :: sql_table where
  "users_table = new_table user_columns [[''user_id''], [''user_handle'']] []"

definition credentials_table :: "string \<Rightarrow> sql_table" where
  "credentials_table users = new_table credential_columns [[''credential_id'']] [credential_fk\<lparr>fk_table := users\<rparr>]"

definition challenges_table :: sql_table where
  "challenges_table = new_table challenge_columns [[''key'', ''kind'']] []"

definition enrollment_table :: sql_table where
  "enrollment_table = new_table enrollment_columns [[''capability_id''], [''token_hash''], [''claimed_flow_id'']] []"

definition apply_enrollment_schema :: "(sql_db, unit) op" where
  "apply_enrollment_schema = run_all
     [create_table True enrollment_t enrollment_table,
      create_index True ''idx_passkey_enrollment_capabilities_expires_at'' enrollment_t [''expires_at'']]"

definition apply_schema :: "(sql_db, unit) op" where
  "apply_schema = run_all
     [create_table True schema_t schema_table,
      create_table True users_t users_table,
      create_table True credentials_t (credentials_table users_t),
      create_index True ''idx_passkey_credentials_user_id'' credentials_t [''user_id''],
      create_table True challenges_t challenges_table,
      create_index True ''idx_passkey_challenges_expires_at'' challenges_t [''expires_at''],
      apply_enrollment_schema]"

subsection \<open>The connection\<close>

type_synonym world = "sql_db \<Rightarrow> sql_db option"

definition begin_immediate :: "world \<Rightarrow> (sql_db conn, unit) op" where
  "begin_immediate others c =
     (if in_tx c then (Inl (OperationalError ''cannot start a transaction within a transaction''), c)
      else (case others (committed c) of
          None \<Rightarrow> (Inl (OperationalError ''database is locked''), c)
        | Some db \<Rightarrow> (Inr (), c\<lparr>committed := db, current := db, in_tx := True\<rparr>)))"

definition in_conn :: "(sql_db, 'a) op \<Rightarrow> (sql_db conn, 'a) op" where
  "in_conn f c = (case f (current c) of (r, db) \<Rightarrow> (r, c\<lparr>current := db\<rparr>))"

definition commit_op :: "(sql_db conn, unit) op" where
  "commit_op c = (Inr (), conn_commit c)"

definition rolled_back :: "(sql_db conn, 'a) op \<Rightarrow> (sql_db conn, 'a) op" where
  "rolled_back f = op_try f (\<lambda>e c. (Inl e, conn_rollback c))"

definition inspect_conn :: "(sql_db conn, inspection) op" where
  "inspect_conn c = (inspect_sqlite_schema (current c), c)"

text \<open>The checks both functions begin with.\<close>

definition check_schema_mode :: "string \<Rightarrow> string \<Rightarrow> (sql_db conn, unit) op" where
  "check_schema_mode pending mode c =
     (if mode \<noteq> ''standalone'' \<and> mode \<noteq> ''external''
      then (Inl (ValueError (''transaction_mode must be 'standalone' or 'external'' @ [CHR 0x27])), c)
      else if mode = ''external''
      then (if \<not> in_tx c then (Inl (SQLiteSchemaError ''external schema mode requires an active transaction''), c)
        else if \<not> fk_on c
        then (Inl (SQLiteSchemaError ''external schema mode requires PRAGMA foreign_keys=ON before the transaction''), c)
        else (Inr (), c))
      else if in_tx c then (Inl (SQLiteSchemaError pending), c)
      else (Inr (), c\<lparr>fk_on := True\<rparr>))"

subsection \<open>\<open>ensure_sqlite_schema\<close>\<close>

definition complete_schema :: "(string \<Rightarrow> sql_value \<Rightarrow> sql_value) \<Rightarrow> schema_state \<Rightarrow> (sql_db, unit) op" where
  "complete_schema conv state = run_all
     [if state = Empty then apply_schema
      else op_bind (create_table True schema_t schema_table) (\<lambda>_. apply_enrollment_schema),
      delete_all schema_t, insert_row conv schema_t [SqlInt 3]]"

definition cannot_ensure :: "inspection \<Rightarrow> exn" where
  "cannot_ensure st = UnsupportedSQLiteSchema (''cannot ensure '' @ state_text (si_state st) @ '': ''
     @ py_join ''; '' (si_diagnostics st))"

definition ensure_sqlite_schema ::
  "(string \<Rightarrow> sql_value \<Rightarrow> sql_value) \<Rightarrow> world \<Rightarrow> string \<Rightarrow> (sql_db conn, unit) op" where
  "ensure_sqlite_schema conv others mode =
     op_bind (check_schema_mode ''schema initialization requires a connection with no pending transaction'' mode) (\<lambda>_.
     op_bind inspect_conn (\<lambda>st.
       if si_state st = Current
       then (if mode = ''standalone''
         then op_bind (begin_immediate others) (\<lambda>_.
           rolled_back (op_bind (in_conn apply_enrollment_schema) (\<lambda>_. commit_op)))
         else in_conn apply_enrollment_schema)
       else if si_state st \<noteq> Empty \<and> si_state st \<noteq> CanonicalUnversioned then raise_op (cannot_ensure st)
       else if mode = ''external'' then in_conn (complete_schema conv (si_state st))
       else rolled_back (op_bind (begin_immediate others) (\<lambda>_.
         op_bind inspect_conn (\<lambda>now.
           if si_state now = Current then op_bind (in_conn apply_enrollment_schema) (\<lambda>_. commit_op)
           else if si_state now \<noteq> Empty \<and> si_state now \<noteq> CanonicalUnversioned then raise_op (cannot_ensure now)
           else op_bind (in_conn (complete_schema conv (si_state now))) (\<lambda>_. commit_op))))))"

subsection \<open>\<open>migrate_sqlite_schema\<close>\<close>

fun b64_cell :: "sql_value \<Rightarrow> sql_value" where
  "b64_cell (SqlBlob b) = SqlText (bytes_to_b64url b)"
| "b64_cell v = v"

definition migrate_v2 :: "(string \<Rightarrow> sql_value \<Rightarrow> sql_value) \<Rightarrow> (sql_db, unit) op" where
  "migrate_v2 conv = run_all
     [add_column challenges_t (col ''registration_kind'' ''TEXT'' 0 0 None),
      add_column challenges_t (col ''capability_id'' ''TEXT'' 0 0 None),
      apply_enrollment_schema,
      update_all conv schema_t ''schema_version'' (SqlInt 3)]"

definition migrate_user :: "sql_value list \<Rightarrow> sql_value list" where
  "migrate_user row = [row ! 0, b64_cell (row ! 1), row ! 2, row ! 3]"

definition optional_columns :: "sql_db \<Rightarrow> string list" where
  "optional_columns db =
     filter (\<lambda>c. c \<in> set (columns db credentials_t)) [''transports'', ''device_type'', ''backed_up'', ''label'']"

definition migrate_credential :: "string list \<Rightarrow> sql_value list \<Rightarrow> sql_value list" where
  "migrate_credential optional row =
     (let field = (\<lambda>n. case map_of (zip optional (drop 4 row)) n of None \<Rightarrow> SqlNull | Some v \<Rightarrow> v) in
      [b64_cell (row ! 0), row ! 1, row ! 2, row ! 3, field ''transports'', field ''device_type'',
       field ''backed_up'', field ''label'', last row])"

definition migrate_challenge :: "sql_value list \<Rightarrow> sql_value list" where
  "migrate_challenge row = row[5 := b64_cell (row ! 5)] @ [SqlNull, SqlNull]"

definition v2_name :: "string \<Rightarrow> string" where
  "v2_name t = t @ ''_v2''"

definition insert_all :: "(string \<Rightarrow> sql_value \<Rightarrow> sql_value) \<Rightarrow> string \<Rightarrow> sql_value list list \<Rightarrow> (sql_db, unit) op" where
  "insert_all conv t rows = run_all (map (insert_row conv t) rows)"

definition copy_users :: "(string \<Rightarrow> sql_value \<Rightarrow> sql_value) \<Rightarrow> (sql_db, unit) op" where
  "copy_users conv =
     op_bind (select_columns [''user_id'', ''user_handle'', ''name'', ''display_name''] users_t) (\<lambda>rows.
       insert_all conv (v2_name users_t) (map migrate_user rows))"

definition copy_credentials :: "(string \<Rightarrow> sql_value \<Rightarrow> sql_value) \<Rightarrow> (sql_db, unit) op" where
  "copy_credentials conv db =
     (if \<not> {''credential_id'', ''user_id'', ''public_key'', ''sign_count'', ''created_at''} \<subseteq> set (columns db credentials_t)
      then (Inl (UnsupportedSQLiteSchema ''legacy credentials missing required columns''), db)
      else op_bind (select_columns ([''credential_id'', ''user_id'', ''public_key'', ''sign_count'']
          @ optional_columns db @ [''created_at'']) credentials_t) (\<lambda>rows.
        insert_all conv (v2_name credentials_t) (map (migrate_credential (optional_columns db)) rows)) db)"

definition copy_challenges :: "(string \<Rightarrow> sql_value \<Rightarrow> sql_value) \<Rightarrow> (sql_db, unit) op" where
  "copy_challenges conv db =
     (if ''flow_key'' \<notin> set (columns db challenges_t) \<or> ''key'' \<in> set (columns db challenges_t)
      then (Inl (UnsupportedSQLiteSchema ''cannot migrate schema: expected exclusive legacy flow_key column''), db)
      else op_bind (select_columns [''flow_key'', ''kind'', ''challenge'', ''expires_at'', ''user_id'', ''user_handle'',
          ''user_name'', ''user_display_name''] challenges_t) (\<lambda>rows.
        insert_all conv (v2_name challenges_t) (map migrate_challenge rows)) db)"

definition check_count :: "string \<Rightarrow> (sql_db, string list) op" where
  "check_count t =
     op_bind (count_rows t) (\<lambda>source. op_bind (count_rows (v2_name t)) (\<lambda>target.
       return_op (if source = target then [] else
         [t @ '': source='' @ nat_text source @ '' target='' @ nat_text target])))"

definition check_counts :: "(sql_db, unit) op" where
  "check_counts =
     op_bind (check_count users_t) (\<lambda>a. op_bind (check_count credentials_t) (\<lambda>b. op_bind (check_count challenges_t) (\<lambda>c.
       if a @ b @ c \<noteq> []
       then raise_op (SQLiteSchemaError (''migration row count validation failed: '' @ py_join ''; '' (a @ b @ c)))
       else return_op ())))"

definition replace_tables :: "(sql_db, unit) op" where
  "replace_tables = run_all
     [drop_table credentials_t, drop_table challenges_t, drop_table users_t,
      rename_table (v2_name users_t) users_t,
      rename_table (v2_name credentials_t) credentials_t,
      rename_table (v2_name challenges_t) challenges_t,
      create_index False ''idx_passkey_credentials_user_id'' credentials_t [''user_id''],
      create_index False ''idx_passkey_challenges_expires_at'' challenges_t [''expires_at'']]"

definition migrate_legacy :: "(string \<Rightarrow> sql_value \<Rightarrow> sql_value) \<Rightarrow> (sql_db, unit) op" where
  "migrate_legacy conv = run_all
     [create_table False (v2_name users_t) users_table,
      create_table False (v2_name credentials_t) (credentials_table (v2_name users_t)),
      create_table False (v2_name challenges_t) challenges_table,
      copy_users conv, copy_credentials conv, copy_challenges conv, check_counts, replace_tables,
      create_table False schema_t schema_table,
      insert_row conv schema_t [SqlInt 3],
      apply_enrollment_schema,
      (\<lambda>db. if fk_violated db then (Inl (SQLiteSchemaError ''foreign key check failed during migration''), db)
        else (Inr (), db))]"

definition own_transaction :: "world \<Rightarrow> string \<Rightarrow> (sql_db, unit) op \<Rightarrow> (sql_db conn, unit) op" where
  "own_transaction others mode f =
     (if mode = ''standalone''
      then rolled_back (op_bind (begin_immediate others) (\<lambda>_. op_bind (in_conn f) (\<lambda>_. commit_op)))
      else in_conn f)"

definition migrate_sqlite_schema ::
  "(string \<Rightarrow> sql_value \<Rightarrow> sql_value) \<Rightarrow> world \<Rightarrow> string \<Rightarrow> (sql_db conn, inspection) op" where
  "migrate_sqlite_schema conv others mode =
     op_bind (check_schema_mode ''schema migration requires a connection with no pending transaction'' mode) (\<lambda>_.
     op_bind inspect_conn (\<lambda>st.
       if si_state st = Current then return_op st
       else if si_state st = Empty \<or> si_state st = CanonicalUnversioned
       then op_bind (ensure_sqlite_schema conv others mode) (\<lambda>_. inspect_conn)
       else if si_state st \<noteq> Legacy
       then raise_op (UnsupportedSQLiteSchema (''cannot migrate schema: '' @ py_join ''; '' (si_diagnostics st)))
       else if si_version st = Some 2
       then op_bind (own_transaction others mode (migrate_v2 conv)) (\<lambda>_. inspect_conn)
       else op_bind (own_transaction others mode (migrate_legacy conv)) (\<lambda>_. inspect_conn)))"

end
