(* ===== verification/SqliteSchemaProperties.thy ===== *)
theory SqliteSchemaProperties
  imports SqliteSchema
begin

section \<open>Properties of the schema lifecycle\<close>

text \<open>
  What an inspection that says current has checked, what initialization creates, that both
  functions change everything or nothing, which rows a migration keeps, and the cases in which it
  loses rows of the host or commits a schema that the stores then refuse.
\<close>

subsection \<open>Inspection\<close>

lemma diag_Nil: "diag b m = [] \<longleftrightarrow> b"
  by (simp add: diag_def)

definition canonical_layout :: "sql_db \<Rightarrow> bool" where
  "canonical_layout db \<longleftrightarrow>
     layout db users_t = user_columns \<and> layout db credentials_t = credential_columns
     \<and> layout db challenges_t = challenge_columns
     \<and> has_plain_index db credentials_t ''idx_passkey_credentials_user_id''
     \<and> has_plain_index db challenges_t ''idx_passkey_challenges_expires_at''
     \<and> has_unique_column_index db users_t ''user_handle''
     \<and> foreign_key_list db credentials_t = [credential_fk]
     \<and> (enrollment_t \<notin> set (tables db) \<or> layout db enrollment_t = enrollment_columns
         \<and> has_plain_index db enrollment_t ''idx_passkey_enrollment_capabilities_expires_at''
         \<and> has_unique_column_index db enrollment_t ''token_hash''
         \<and> has_unique_column_index db enrollment_t ''claimed_flow_id'')"

lemma canonical_diagnostics:
  "canonical_layout_diagnostics meta db = [] \<longleftrightarrow> canonical_layout db \<and> (meta \<longrightarrow> layout db schema_t = schema_columns)"
  by (auto simp: canonical_layout_diagnostics_def canonical_columns_def canonical_layout_def diag_Nil)

definition schema_versions :: "sql_db \<Rightarrow> sql_value list list result" where
  "schema_versions db = fst (select_columns [''schema_version''] schema_t db)"

lemma inspect_Current_iff:
  "inspect_sqlite_schema db = Inr st \<and> si_state st = Current \<longleftrightarrow>
   st = found Current (Some 3) [] \<and> set (schema_t # required_tables) \<subseteq> set (tables db)
   \<and> ''flow_key'' \<notin> set (columns db challenges_t)
   \<and> canonical_layout db \<and> layout db schema_t = schema_columns
   \<and> (\<exists>row. schema_versions db = Inr [row] \<and> as_int (hd row) = Inr 3)"
  (is "?L \<longleftrightarrow> ?R")
proof
  assume L: ?L
  then have c: "inspect_sqlite_schema db = Inr st" "si_state st = Current" by auto
  have sub: "set required_tables \<subseteq> set (tables db)" and flow: "''flow_key'' \<notin> set (columns db challenges_t)"
    and meta: "schema_t \<in> set (tables db)"
    using c by (auto simp: inspect_sqlite_schema_def Let_def found_def unsupported_def inspect_legacy_def
        split: if_splits)
  have "tables db \<noteq> []" "tables db \<noteq> [''sqlite_sequence'']" "list_ex (\<lambda>t. t \<in> set (tables db)) (schema_t # required_tables)"
    using sub meta by (auto simp: required_tables_def)
  then have step: "(case schema_versions db of Inl e \<Rightarrow> Inl e
      | Inr [row] \<Rightarrow> (case as_int (hd row) of Inr version \<Rightarrow> Inr (inspect_version db version)
          | Inl e \<Rightarrow> if is_ValueError e \<or> is_TypeError e
              then Inr (unsupported None [''schema version must be an integer'']) else Inl e)
      | Inr _ \<Rightarrow> Inr (unsupported None [''schema metadata must contain one row''])) = Inr st"
    using c(1) sub flow meta by (simp add: inspect_sqlite_schema_def Let_def schema_versions_def cong: sum.case_cong)
  then obtain row version where row: "schema_versions db = Inr [row]" "as_int (hd row) = Inr version"
      "st = inspect_version db version"
    using c(2) by (auto simp: unsupported_def found_def split: sum.splits list.splits if_splits)
  then have "version = 3" "canonical_layout_diagnostics True db = []" "st = found Current (Some 3) []"
    using c(2) by (auto simp: inspect_version_def Let_def found_def unsupported_def split: if_splits)
  with sub flow meta row show ?R by (simp add: canonical_diagnostics)
next
  assume R: ?R
  then obtain row where row: "schema_versions db = Inr [row]" "as_int (hd row) = Inr 3" by blast
  have "tables db \<noteq> []" "tables db \<noteq> [''sqlite_sequence'']" using R by (auto simp: required_tables_def)
  then show ?L
    using R row by (simp add: inspect_sqlite_schema_def Let_def schema_versions_def inspect_version_def
        canonical_diagnostics found_def)
qed

text \<open>What \<open>sqlite_base_init\<close> is given: an inspection that raises yields no store.\<close>

definition schema_report :: "sql_db \<Rightarrow> string \<times> string list" where
  "schema_report db =
     (case inspect_sqlite_schema db of Inl e \<Rightarrow> (''error'', [exn_text e]) | Inr st \<Rightarrow> (state_text (si_state st), si_diagnostics st))"

lemma state_text_current: "state_text s = ''current'' \<longleftrightarrow> s = Current"
  by (cases s) auto

text \<open>
  C33: a store is only ever constructed over a database with the canonical layout: every table with
  exactly its columns, the indexes and the unique index on the user handle, the cascading foreign
  key of the credentials, and a single version row that reads 3.
\<close>

theorem stores_need_canonical_schema:
  assumes "sqlite_base_init schema_report d mode = Inr s"
  shows "canonical_layout (checked_db d) \<and> layout (checked_db d) schema_t = schema_columns
    \<and> (\<exists>row. schema_versions (checked_db d) = Inr [row] \<and> as_int (hd row) = Inr 3)"
proof -
  have "fst (schema_report (checked_db d)) = ''current''"
    using assms by (auto simp: sqlite_base_init_def Let_def case_prod_beta split: option.splits if_splits)
  then obtain st where "inspect_sqlite_schema (checked_db d) = Inr st" "si_state st = Current"
    by (auto simp: schema_report_def state_text_current split: sum.splits)
  then show ?thesis using inspect_Current_iff [of "checked_db d" st] by blast
qed

subsection \<open>The schema that is created\<close>

definition with_index :: "string \<Rightarrow> string list \<Rightarrow> sql_table \<Rightarrow> sql_table" where
  "with_index name cols tb = tb\<lparr>tb_indexes := \<lparr>ix_name = name, ix_unique = False, ix_columns = cols\<rparr> # tb_indexes tb\<rparr>"

definition package_schema :: "sql_value list list \<Rightarrow> sql_db" where
  "package_schema versions =
     [(schema_t, schema_table\<lparr>tb_rows := versions\<rparr>), (users_t, users_table),
      (credentials_t, with_index ''idx_passkey_credentials_user_id'' [''user_id''] (credentials_table users_t)),
      (challenges_t, with_index ''idx_passkey_challenges_expires_at'' [''expires_at''] challenges_table),
      (enrollment_t, with_index ''idx_passkey_enrollment_capabilities_expires_at'' [''expires_at''] enrollment_table)]"

definition package_names :: "string list" where
  "package_names = [schema_t, users_t, credentials_t, challenges_t, enrollment_t, ''idx_passkey_credentials_user_id'',
     ''idx_passkey_challenges_expires_at'', ''idx_passkey_enrollment_capabilities_expires_at'']"

text \<open>A database of a host that uses none of the names of the package.\<close>

definition host_only :: "sql_db \<Rightarrow> bool" where
  "host_only db \<longleftrightarrow> list_all (\<lambda>n. map_of db n = None \<and> \<not> index_exists db n) package_names"

lemma host_onlyD:
  assumes "host_only db" and "n \<in> set package_names"
  shows "map_of db n = None" "\<not> index_exists db n"
  using assms by (auto simp: host_only_def list_all_iff)

lemma update_append: "map_of db k = None \<Longrightarrow> AList.update k v (db @ d) = db @ AList.update k v d"
  by (induction db) (auto split: if_splits)

lemma index_exists_append [simp]: "index_exists (db @ d) n \<longleftrightarrow> index_exists db n \<or> index_exists d n"
  by (simp add: index_exists_def)

lemma index_exists_simps [simp]:
  "index_exists [] n = False"
  "index_exists ((t, tb) # d) n \<longleftrightarrow> (\<exists>ix \<in> set (tb_indexes tb). ix_name ix = n) \<or> index_exists d n"
  by (auto simp: index_exists_def list_ex_iff)

lemma on_table_append:
  "map_of db t = None \<Longrightarrow> on_table t f (db @ d) = map_prod id ((@) db) (on_table t f d)"
  by (auto simp: on_table_def update_append map_add_def split: option.split prod.split sum.split)

lemma create_table_append:
  "map_of db n = None \<Longrightarrow> \<not> index_exists db n \<Longrightarrow>
   create_table b n tb (db @ d) = map_prod id ((@) db) (create_table b n tb d)"
  by (auto simp: create_table_def map_add_def split: option.split)

lemma create_index_append:
  "map_of db n = None \<Longrightarrow> \<not> index_exists db n \<Longrightarrow> map_of db t = None \<Longrightarrow>
   create_index b n t cols (db @ d) = map_prod id ((@) db) (create_index b n t cols d)"
  by (auto simp: create_index_def map_add_def on_table_append split: option.split)

lemma apply_schema_empty: "apply_schema [] = (Inr (), package_schema [])"
  by code_simp

lemma apply_schema_host:
  assumes "host_only db"
  shows "apply_schema db = (Inr (), db @ package_schema [])"
proof -
  note h = host_onlyD [OF assms, unfolded package_names_def]
  have seq: "op_bind f g (db @ d) = map_prod id ((@) db) (op_bind f g d)"
    if "\<And>d. f (db @ d) = map_prod id ((@) db) (f d)" and "\<And>a d. g a (db @ d) = map_prod id ((@) db) (g a d)"
    for f :: "(sql_db, unit) op" and g :: "unit \<Rightarrow> (sql_db, unit) op" and d
    using that by (auto simp: op_bind_def split: prod.splits sum.splits)
  have "apply_schema (db @ d) = map_prod id ((@) db) (apply_schema d)" for d
    unfolding apply_schema_def apply_enrollment_schema_def run_all.simps
    by (intro seq) (simp_all add: create_table_append create_index_append h return_op_def)
  from this [of "[]"] show ?thesis by (simp add: apply_schema_empty)
qed

lemma host_pragmas:
  assumes "map_of db t = None"
  shows "layout (db @ d) t = layout d t" "columns (db @ d) t = columns d t"
    "has_plain_index (db @ d) t i = has_plain_index d t i"
    "has_unique_column_index (db @ d) t c = has_unique_column_index d t c"
    "foreign_key_list (db @ d) t = foreign_key_list d t"
    "t \<in> set (tables (db @ d)) \<longleftrightarrow> t \<in> set (tables d)"
    "fst (select_columns cs t (db @ d)) = fst (select_columns cs t d)"
proof -
  have "t \<notin> fst ` set db" using assms by (simp add: map_of_eq_None_iff)
  moreover have "map_of (db @ d) t = map_of d t" using assms by (simp add: map_add_def split: option.split)
  ultimately show "layout (db @ d) t = layout d t" "columns (db @ d) t = columns d t"
    "has_plain_index (db @ d) t i = has_plain_index d t i"
    "has_unique_column_index (db @ d) t c = has_unique_column_index d t c"
    "foreign_key_list (db @ d) t = foreign_key_list d t"
    "t \<in> set (tables (db @ d)) \<longleftrightarrow> t \<in> set (tables d)"
    "fst (select_columns cs t (db @ d)) = fst (select_columns cs t d)"
    by (simp_all add: layout_def columns_def table_info_def has_plain_index_def has_unique_column_index_def
        index_list_def foreign_key_list_def tables_def select_columns_def del: map_of_append split: option.split)
qed

lemma inspect_package:
  assumes "host_only db"
  shows "inspect_sqlite_schema (db @ package_schema [[SqlInt 3]]) = Inr (found Current (Some 3) [])"
proof -
  note h = host_onlyD(1) [OF assms, unfolded package_names_def]
  let ?d = "package_schema [[SqlInt 3]]"
  have "inspect_sqlite_schema ?d = Inr (found Current (Some 3) [])" by code_simp
  then have d: "set (schema_t # required_tables) \<subseteq> set (tables ?d)" "''flow_key'' \<notin> set (columns ?d challenges_t)"
      "canonical_layout ?d" "layout ?d schema_t = schema_columns"
      "\<exists>row. schema_versions ?d = Inr [row] \<and> as_int (hd row) = Inr 3"
    using inspect_Current_iff [of ?d "found Current (Some 3) []"] by (simp_all add: found_def)
  have "set (schema_t # required_tables) \<subseteq> set (tables (db @ ?d))" using d(1) by (auto simp: tables_def)
  moreover have "canonical_layout (db @ ?d)"
    using d(3) unfolding canonical_layout_def by (simp add: host_pragmas h)
  ultimately show ?thesis
    using inspect_Current_iff [of "db @ ?d" "found Current (Some 3) []"] d
    by (simp add: found_def host_pragmas h schema_versions_def)
qed

lemma host_only_Empty:
  assumes "host_only db"
  shows "inspect_sqlite_schema db = Inr (found Empty None [])"
proof -
  have "t \<notin> set (tables db)" if "t \<in> set package_names" for t
    using host_onlyD(1) [OF assms that] by (simp add: tables_def map_of_eq_None_iff)
  then have "\<not> list_ex (\<lambda>t. t \<in> set (tables db)) (schema_t # required_tables)"
    by (auto simp: package_names_def required_tables_def)
  then show ?thesis unfolding inspect_sqlite_schema_def Let_def by simp
qed

lemma complete_schema_host:
  assumes "host_only db"
  shows "complete_schema conv Empty db = (Inr (), db @ package_schema [[SqlInt 3]])"
proof -
  note h = host_onlyD(1) [OF assms, unfolded package_names_def]
  have "delete_all schema_t (db @ package_schema []) = (Inr (), db @ package_schema [])"
    by (simp add: delete_all_def on_table_append h) (simp add: on_table_def package_schema_def schema_table_def new_table_def)
  moreover have "insert_row conv schema_t [SqlInt 3] (db @ package_schema []) = (Inr (), db @ package_schema [[SqlInt 3]])"
    by (simp add: insert_row_def on_table_append h)
      (simp add: on_table_def package_schema_def schema_table_def new_table_def schema_columns_def col_def
        affinity_def unique_ok_def Let_def)
  ultimately show ?thesis
    by (simp add: complete_schema_def apply_schema_host [OF assms] op_bind_def return_op_def)
qed

lemma enrollment_again:
  assumes "host_only db"
  shows "apply_enrollment_schema (db @ package_schema [[SqlInt 3]]) = (Inr (), db @ package_schema [[SqlInt 3]])"
proof -
  note h = host_onlyD [OF assms, unfolded package_names_def]
  have "create_table True enrollment_t enrollment_table (package_schema [[SqlInt 3]]) = (Inr (), package_schema [[SqlInt 3]])"
      "create_index True ''idx_passkey_enrollment_capabilities_expires_at'' enrollment_t [''expires_at'']
        (package_schema [[SqlInt 3]]) = (Inr (), package_schema [[SqlInt 3]])"
    by code_simp+
  then show ?thesis
    by (simp add: apply_enrollment_schema_def op_bind_def create_table_append create_index_append h return_op_def)
qed

text \<open>
  C32: on a database of a host that uses none of the package's names, initialization commits the
  canonical schema next to the tables of the host, which it leaves as they are; the result is
  current, a second initialization changes nothing, and a migration finds nothing to do.
\<close>

theorem ensure_creates_current:
  assumes "\<not> in_tx c" and "current c = committed c" and "host_only (committed c)"
    and "others (committed c) = Some db" and "host_only db"
  shows "\<exists>c'. ensure_sqlite_schema conv others ''standalone'' c = (Inr (), c')
    \<and> committed c' = db @ package_schema [[SqlInt 3]] \<and> current c' = committed c' \<and> \<not> in_tx c'
    \<and> inspect_sqlite_schema (committed c') = Inr (found Current (Some 3) [])
    \<and> (\<forall>later. later (committed c') = Some (committed c') \<longrightarrow>
        ensure_sqlite_schema conv later ''standalone'' c' = (Inr (), c')
        \<and> migrate_sqlite_schema conv later ''standalone'' c' = (Inr (found Current (Some 3) []), c'))"
proof -
  let ?db = "db @ package_schema [[SqlInt 3]]"
  let ?c = "\<lparr>committed = ?db, current = ?db, in_tx = False, fk_on = True\<rparr>"
  have check: "check_schema_mode m ''standalone'' c = (Inr (), c\<lparr>fk_on := True\<rparr>)"
      "check_schema_mode m ''standalone'' ?c = (Inr (), ?c)" for m
    using assms(1) by (simp_all add: check_schema_mode_def)
  have "ensure_sqlite_schema conv others ''standalone'' c = (Inr (), ?c)"
    using assms(1,2,4) host_only_Empty [OF assms(3)] host_only_Empty [OF assms(5)] complete_schema_host [OF assms(5)]
    by (simp add: ensure_sqlite_schema_def op_bind_def check(1) inspect_conn_def found_def rolled_back_def
        op_try_def begin_immediate_def in_conn_def commit_op_def conn_commit_def)
  moreover have "ensure_sqlite_schema conv later ''standalone'' ?c = (Inr (), ?c)
      \<and> migrate_sqlite_schema conv later ''standalone'' ?c = (Inr (found Current (Some 3) []), ?c)"
    if "later ?db = Some ?db" for later
    using that inspect_package [OF assms(5)] enrollment_again [OF assms(5)]
    by (simp add: ensure_sqlite_schema_def migrate_sqlite_schema_def op_bind_def check(2) inspect_conn_def found_def
        rolled_back_def op_try_def begin_immediate_def in_conn_def commit_op_def conn_commit_def return_op_def)
  ultimately show ?thesis using inspect_package [OF assms(5)] by (intro exI [of _ ?c]) simp
qed

lemma ensure_creates_current_witness:
  "\<exists>c'. ensure_sqlite_schema (\<lambda>_ v. v) Some ''standalone'' (fresh_conn [(''accounts'', new_table [] [] [])]) = (Inr (), c')
    \<and> map fst (committed c') = [''accounts'', schema_t, users_t, credentials_t, challenges_t, enrollment_t]"
proof -
  have "host_only [(''accounts'', new_table [] [] [])]"
    by (simp add: host_only_def package_names_def new_table_def)
  then show ?thesis
    using ensure_creates_current [of "fresh_conn [(''accounts'', new_table [] [] [])]" Some
        "[(''accounts'', new_table [] [] [])]" "\<lambda>_ v. v"]
    by (auto simp: fresh_conn_def package_schema_def)
qed

subsection \<open>All or nothing\<close>

definition schema_bodies :: "(string \<Rightarrow> sql_value \<Rightarrow> sql_value) \<Rightarrow> (sql_db, unit) op list" where
  "schema_bodies conv = [apply_enrollment_schema, complete_schema conv Empty, complete_schema conv CanonicalUnversioned,
     migrate_v2 conv, migrate_legacy conv]"

text \<open>No transaction is open, and what is committed is untouched or the complete result of one body.\<close>

definition untouched :: "world \<Rightarrow> sql_db conn \<Rightarrow> sql_db conn \<Rightarrow> bool" where
  "untouched others c c' \<longleftrightarrow> \<not> in_tx c' \<and> current c' = committed c'
     \<and> (committed c' = committed c \<or> others (committed c) = Some (committed c'))"

definition completed :: "(string \<Rightarrow> sql_value \<Rightarrow> sql_value) \<Rightarrow> world \<Rightarrow> sql_db conn \<Rightarrow> sql_db conn \<Rightarrow> bool" where
  "completed conv others c c' \<longleftrightarrow> \<not> in_tx c' \<and> current c' = committed c'
     \<and> (\<exists>db. others (committed c) = Some db \<and> (\<exists>f \<in> set (schema_bodies conv). f db = (Inr (), committed c')))"

lemma transaction_settles:
  assumes "\<not> in_tx c" and "current c = committed c"
    and "\<And>db. (\<exists>e. g db = raise_op e) \<or> (\<exists>f \<in> set (schema_bodies conv). g db = op_bind (in_conn f) (\<lambda>_. commit_op))"
    and "rolled_back (op_bind (begin_immediate others) (\<lambda>_. (\<lambda>c. g (current c) c))) c = (r, c')"
  shows "(case r of Inl e \<Rightarrow> untouched others c c' | Inr _ \<Rightarrow> completed conv others c c')"
proof (cases "others (committed c)")
  case None
  then show ?thesis
    using assms by (auto simp: rolled_back_def op_try_def op_bind_def begin_immediate_def conn_rollback_def untouched_def)
next
  case (Some db)
  let ?c = "c\<lparr>committed := db, current := db, in_tx := True\<rparr>"
  have run: "op_try (g db) (\<lambda>e c. (Inl e, conn_rollback c)) ?c = (r, c')"
    using assms(1,4) Some by (simp add: rolled_back_def op_try_def op_bind_def begin_immediate_def)
  from assms(3) [of db] show ?thesis
  proof
    assume "\<exists>e. g db = raise_op e"
    then show ?thesis using run Some by (auto simp: op_try_def conn_rollback_def untouched_def)
  next
    assume "\<exists>f \<in> set (schema_bodies conv). g db = op_bind (in_conn f) (\<lambda>_. commit_op)"
    then obtain f where f: "f \<in> set (schema_bodies conv)" and g: "g db = op_bind (in_conn f) (\<lambda>_. commit_op)" by blast
    obtain x db' where x: "f db = (x, db')" by force
    show ?thesis
    proof (cases x)
      case (Inl e)
      then show ?thesis
        using run Some x by (auto simp: g op_try_def op_bind_def in_conn_def conn_rollback_def untouched_def)
    next
      case (Inr u)
      then have "c' = conn_commit (?c\<lparr>current := db'\<rparr>)" "r = Inr ()"
        using run x by (auto simp: g op_try_def op_bind_def in_conn_def commit_op_def)
      then show ?thesis using Some f x Inr by (auto simp: completed_def conn_commit_def)
    qed
  qed
qed

definition ensure_body :: "(string \<Rightarrow> sql_value \<Rightarrow> sql_value) \<Rightarrow> sql_db \<Rightarrow> (sql_db conn, unit) op" where
  "ensure_body conv db =
     (case inspect_sqlite_schema db of
        Inl e \<Rightarrow> raise_op e
      | Inr now \<Rightarrow>
          if si_state now = Current then op_bind (in_conn apply_enrollment_schema) (\<lambda>_. commit_op)
          else if si_state now \<noteq> Empty \<and> si_state now \<noteq> CanonicalUnversioned then raise_op (cannot_ensure now)
          else op_bind (in_conn (complete_schema conv (si_state now))) (\<lambda>_. commit_op))"

lemma ensure_body_cases:
  "(\<exists>e. ensure_body conv db = raise_op e)
   \<or> (\<exists>f \<in> set (schema_bodies conv). ensure_body conv db = op_bind (in_conn f) (\<lambda>_. commit_op))"
  by (auto simp: ensure_body_def schema_bodies_def split: sum.split)

lemma ensure_settles:
  assumes "\<not> in_tx c" and "current c = committed c" and "ensure_sqlite_schema conv others ''standalone'' c = (r, c')"
  shows "(case r of Inl e \<Rightarrow> untouched others c c' | Inr _ \<Rightarrow> completed conv others c c')"
proof -
  let ?c = "c\<lparr>fk_on := True\<rparr>"
  have same: "untouched others ?c c' = untouched others c c'" "completed conv others ?c c' = completed conv others c c'"
    by (simp_all add: untouched_def completed_def)
  have early: "untouched others c ?c" using assms(1,2) by (simp add: untouched_def)
  have check: "check_schema_mode m ''standalone'' c = (Inr (), ?c)" for m
    using assms(1) by (simp add: check_schema_mode_def)
  show ?thesis
  proof (cases "inspect_sqlite_schema (current c)")
    case (Inl e)
    then show ?thesis using assms(3) early by (auto simp: ensure_sqlite_schema_def op_bind_def check inspect_conn_def)
  next
    case (Inr st)
    have settle: "(case r of Inl e \<Rightarrow> untouched others c c' | Inr _ \<Rightarrow> completed conv others c c')"
      if "\<And>db. (\<exists>e. g db = raise_op e) \<or> (\<exists>f \<in> set (schema_bodies conv). g db = op_bind (in_conn f) (\<lambda>_. commit_op))"
        "rolled_back (op_bind (begin_immediate others) (\<lambda>_. (\<lambda>c. g (current c) c))) ?c = (r, c')" for g
      using transaction_settles [of ?c g conv others r c'] that assms(1,2) same by (simp split: sum.splits)
    consider "si_state st = Current" | "si_state st \<noteq> Current" "si_state st \<noteq> Empty" "si_state st \<noteq> CanonicalUnversioned"
      | "si_state st \<noteq> Current" "si_state st = Empty \<or> si_state st = CanonicalUnversioned" by blast
    then show ?thesis
    proof cases
      case 1
      let ?g = "\<lambda>_ :: sql_db. op_bind (in_conn apply_enrollment_schema) (\<lambda>_. commit_op)"
      have "op_bind (begin_immediate others) (\<lambda>_. rolled_back (?g db)) ?c = (r, c')" for db
        using assms(3) 1 Inr by (simp add: ensure_sqlite_schema_def op_bind_def check inspect_conn_def)
      then have "rolled_back (op_bind (begin_immediate others) (\<lambda>_. (\<lambda>c. ?g (current c) c))) ?c = (r, c')"
        using assms(1) by (auto simp: rolled_back_def op_try_def op_bind_def begin_immediate_def conn_rollback_def
            split: option.splits)
      then show ?thesis by (rule settle [rotated]) (auto simp: schema_bodies_def)
    next
      case 2
      then show ?thesis
        using assms(3) early Inr by (auto simp: ensure_sqlite_schema_def op_bind_def check inspect_conn_def)
    next
      case 3
      have "(\<lambda>c. ensure_body conv (current c) c) = op_bind inspect_conn (\<lambda>now.
           if si_state now = Current then op_bind (in_conn apply_enrollment_schema) (\<lambda>_. commit_op)
           else if si_state now \<noteq> Empty \<and> si_state now \<noteq> CanonicalUnversioned then raise_op (cannot_ensure now)
           else op_bind (in_conn (complete_schema conv (si_state now))) (\<lambda>_. commit_op))"
        by (auto simp: fun_eq_iff ensure_body_def op_bind_def inspect_conn_def split: sum.split)
      then have "rolled_back (op_bind (begin_immediate others) (\<lambda>_. (\<lambda>c. ensure_body conv (current c) c))) ?c = (r, c')"
        using assms(3) 3 Inr by (auto simp: ensure_sqlite_schema_def op_bind_def [of "check_schema_mode _ _"]
            op_bind_def [of inspect_conn _ ?c] check inspect_conn_def [of ?c])
      then show ?thesis by (rule settle [rotated]) (rule ensure_body_cases)
    qed
  qed
qed

lemma own_settles:
  assumes "\<not> in_tx c" and "current c = committed c" and "f \<in> set (schema_bodies conv)"
    and "op_bind (own_transaction others ''standalone'' f) (\<lambda>_. inspect_conn) c = (r, c')"
  shows "untouched others c c' \<or> completed conv others c c'"
proof -
  obtain x c1 where x: "own_transaction others ''standalone'' f c = (x, c1)" by force
  then have "c' = c1" using assms(4) by (cases x) (auto simp: op_bind_def inspect_conn_def)
  have "case x of Inl e \<Rightarrow> untouched others c c1 | Inr _ \<Rightarrow> completed conv others c c1"
    by (rule transaction_settles [OF assms(1,2), where g = "\<lambda>_. op_bind (in_conn f) (\<lambda>_. commit_op)"])
      (use assms(3) x in \<open>auto simp: own_transaction_def\<close>)
  then show ?thesis using \<open>c' = c1\<close> by (cases x) auto
qed

lemma migrate_settles:
  assumes "\<not> in_tx c" and "current c = committed c"
  shows "untouched others c (snd (migrate_sqlite_schema conv others ''standalone'' c))
    \<or> completed conv others c (snd (migrate_sqlite_schema conv others ''standalone'' c))"
proof -
  let ?c = "c\<lparr>fk_on := True\<rparr>" and ?m = "migrate_sqlite_schema conv others ''standalone'' c"
  have same: "untouched others ?c c' = untouched others c c'" "completed conv others ?c c' = completed conv others c c'" for c'
    by (simp_all add: untouched_def completed_def)
  have ok: "\<not> in_tx ?c" "current ?c = committed ?c" and early: "untouched others c ?c"
    using assms by (simp_all add: untouched_def)
  have check: "check_schema_mode m ''standalone'' c = (Inr (), ?c)" for m
    using assms(1) by (simp add: check_schema_mode_def)
  show "untouched others c (snd ?m) \<or> completed conv others c (snd ?m)"
  proof (cases "inspect_sqlite_schema (current c)")
    case (Inl e)
    then show ?thesis using early by (simp add: migrate_sqlite_schema_def op_bind_def check inspect_conn_def)
  next
    case (Inr st)
    have m: "?m = (if si_state st = Current then return_op st
       else if si_state st = Empty \<or> si_state st = CanonicalUnversioned
       then op_bind (ensure_sqlite_schema conv others ''standalone'') (\<lambda>_. inspect_conn)
       else if si_state st \<noteq> Legacy
       then raise_op (UnsupportedSQLiteSchema (''cannot migrate schema: '' @ py_join ''; '' (si_diagnostics st)))
       else if si_version st = Some 2
       then op_bind (own_transaction others ''standalone'' (migrate_v2 conv)) (\<lambda>_. inspect_conn)
       else op_bind (own_transaction others ''standalone'' (migrate_legacy conv)) (\<lambda>_. inspect_conn)) ?c"
      using Inr by (simp add: migrate_sqlite_schema_def op_bind_def [of "check_schema_mode _ _"]
          op_bind_def [of inspect_conn _ ?c] check inspect_conn_def [of ?c])
    have own: "untouched others c (snd (op_bind (own_transaction others ''standalone'' f) (\<lambda>_. inspect_conn) ?c))
        \<or> completed conv others c (snd (op_bind (own_transaction others ''standalone'' f) (\<lambda>_. inspect_conn) ?c))"
      if "f \<in> set (schema_bodies conv)" for f
      using own_settles [OF ok that, of others] same by (metis prod.collapse)
    obtain x c1 where x: "ensure_sqlite_schema conv others ''standalone'' ?c = (x, c1)" by force
    have ensured: "untouched others c c1 \<or> completed conv others c c1"
      using ensure_settles [OF ok x] same by (cases x) auto
    have "snd (op_bind (ensure_sqlite_schema conv others ''standalone'') (\<lambda>_. inspect_conn) ?c) = c1"
      using x by (cases x) (auto simp: op_bind_def inspect_conn_def)
    then show ?thesis
      using own [of "migrate_v2 conv"] own [of "migrate_legacy conv"] ensured early
      unfolding m by (simp add: schema_bodies_def)
  qed
qed

text \<open>
  C31: in standalone mode both functions are all or nothing: afterwards no transaction is open and
  what is committed is the database as it was, with what other connections committed meanwhile, or
  the complete result of one of the bodies; an initialization that raises has changed nothing.
\<close>

theorem schema_change_atomic:
  assumes "\<not> in_tx c" and "current c = committed c"
  shows "(case ensure_sqlite_schema conv others ''standalone'' c of
        (Inl e, c') \<Rightarrow> untouched others c c' | (Inr _, c') \<Rightarrow> completed conv others c c')
    \<and> (untouched others c (snd (migrate_sqlite_schema conv others ''standalone'' c))
       \<or> completed conv others c (snd (migrate_sqlite_schema conv others ''standalone'' c)))"
  using ensure_settles [OF assms, of conv others] migrate_settles [OF assms] by (auto split: prod.split sum.split)

subsection \<open>A legacy database and a table of the host\<close>

definition legacy_users :: sql_table where
  "legacy_users = (new_table [col ''user_id'' ''TEXT'' 0 1 None, col ''user_handle'' ''BLOB'' 1 0 None,
     col ''name'' ''TEXT'' 1 0 None, col ''display_name'' ''TEXT'' 0 0 None] [[''user_id'']] [])
     \<lparr>tb_rows := [[SqlText ''ann'', SqlBlob [1], SqlText ''Ann'', SqlNull]]\<rparr>"

definition legacy_credentials :: sql_table where
  "legacy_credentials = (new_table [col ''credential_id'' ''BLOB'' 0 1 None, col ''user_id'' ''TEXT'' 1 0 None,
     col ''public_key'' ''BLOB'' 1 0 None, col ''sign_count'' ''INTEGER'' 1 0 None, col ''created_at'' ''TEXT'' 1 0 None]
     [[''credential_id'']] [credential_fk])
     \<lparr>tb_rows := [[SqlBlob [2], SqlText ''ann'', SqlBlob [3], SqlInt 7, SqlText ''t'']]\<rparr>"

definition legacy_challenges :: sql_table where
  "legacy_challenges = new_table [col ''flow_key'' ''TEXT'' 0 1 None, col ''kind'' ''TEXT'' 1 0 None,
     col ''challenge'' ''BLOB'' 1 0 None, col ''expires_at'' ''TEXT'' 1 0 None, col ''user_id'' ''TEXT'' 0 0 None,
     col ''user_handle'' ''BLOB'' 0 0 None, col ''user_name'' ''TEXT'' 0 0 None, col ''user_display_name'' ''TEXT'' 0 0 None]
     [[''flow_key'']] []"

definition host_accounts :: "foreign_key list \<Rightarrow> sql_table" where
  "host_accounts fks = (new_table [col ''id'' ''INTEGER'' 0 1 None, col ''owner'' ''TEXT'' 0 0 None] [] fks)
     \<lparr>tb_rows := [[SqlInt 1, SqlText ''ann'']]\<rparr>"

definition legacy_db :: "foreign_key list \<Rightarrow> sql_db" where
  "legacy_db fks = [(users_t, legacy_users), (credentials_t, legacy_credentials), (challenges_t, legacy_challenges),
     (''accounts'', host_accounts fks)]"

definition account_fk :: foreign_key where
  "account_fk = credential_fk\<lparr>fk_from := ''owner''\<rparr>"

definition migrated :: "sql_db \<Rightarrow> inspection result \<times> sql_db" where
  "migrated db = map_prod id committed (migrate_sqlite_schema (\<lambda>_ v. v) Some ''standalone'' (fresh_conn db))"

definition legacy_outcome :: "sql_table \<Rightarrow> sql_db" where
  "legacy_outcome accounts = [(''accounts'', accounts),
     (users_t, users_table\<lparr>tb_rows := [[SqlText ''ann'', SqlText ''AQ'', SqlText ''Ann'', SqlNull]]\<rparr>),
     (credentials_t, (with_index ''idx_passkey_credentials_user_id'' [''user_id''] (credentials_table users_t))
        \<lparr>tb_rows := [[SqlText ''Ag'', SqlText ''ann'', SqlBlob [3], SqlInt 7, SqlNull, SqlNull, SqlNull, SqlNull,
           SqlText ''t'']]\<rparr>),
     (challenges_t, with_index ''idx_passkey_challenges_expires_at'' [''expires_at''] challenges_table),
     (schema_t, schema_table\<lparr>tb_rows := [[SqlInt 3]]\<rparr>),
     (enrollment_t, with_index ''idx_passkey_enrollment_capabilities_expires_at'' [''expires_at''] enrollment_table)]"

lemma migrated_legacy:
  "migrated (legacy_db [account_fk])
     = (Inr (found Current (Some 3) []), legacy_outcome ((host_accounts [account_fk])\<lparr>tb_rows := []\<rparr>))"
  by code_simp

lemma migrated_legacy_alone:
  "migrated (legacy_db []) = (Inr (found Current (Some 3) []), legacy_outcome (host_accounts []))"
  by code_simp

lemma inspect_legacy_db:
  "inspect_sqlite_schema (legacy_db [account_fk]) = Inr (found Legacy None [''legacy flow_key challenge layout''])"
  by code_simp


subsection \<open>Schemas that are committed and then refused\<close>

definition v2_db :: "string list list \<Rightarrow> sql_db" where
  "v2_db uniques =
     [(schema_t, schema_table\<lparr>tb_rows := [[SqlInt 2]]\<rparr>), (users_t, new_table user_columns uniques []),
      (credentials_t, with_index ''idx_passkey_credentials_user_id'' [''user_id''] (credentials_table users_t)),
      (challenges_t, with_index ''idx_passkey_challenges_expires_at'' [''expires_at'']
         (new_table challenge_columns_v2 [[''key'', ''kind'']] []))]"

definition strange_enrollment :: sql_db where
  "strange_enrollment = [(enrollment_t, new_table [col ''expires_at'' ''TEXT'' 0 0 None] [] [])]"

definition v2_outcome :: "string list list \<Rightarrow> sql_db" where
  "v2_outcome uniques =
     [(schema_t, schema_table\<lparr>tb_rows := [[SqlInt 3]]\<rparr>), (users_t, new_table user_columns uniques []),
      (credentials_t, with_index ''idx_passkey_credentials_user_id'' [''user_id''] (credentials_table users_t)),
      (challenges_t, with_index ''idx_passkey_challenges_expires_at'' [''expires_at''] challenges_table),
      (enrollment_t, with_index ''idx_passkey_enrollment_capabilities_expires_at'' [''expires_at''] enrollment_table)]"

lemma migrated_v2:
  "migrated (v2_db [[''user_id''], [''user_handle'']])
     = (Inr (found Current (Some 3) []), v2_outcome [[''user_id''], [''user_handle'']])"
  by code_simp

lemma migrated_v2_no_handle:
  "migrated (v2_db [[''user_id'']]) = (Inr (found Unsupported None [''missing unique index (passkey_users.user_handle)'']),
     v2_outcome [[''user_id'']])"
  by code_simp

lemma ensured_strange:
  "map_prod id committed (ensure_sqlite_schema (\<lambda>_ v. v) Some ''standalone'' (fresh_conn strange_enrollment)) =
     (Inr (), [(enrollment_t, (with_index ''idx_passkey_enrollment_capabilities_expires_at'' [''expires_at'']
        (new_table [col ''expires_at'' ''TEXT'' 0 0 None] [] [])))] @ butlast (package_schema [[SqlInt 3]]))"
  by code_simp

lemma strange_unsupported:
  "map_sum id si_state (inspect_sqlite_schema strange_enrollment) = Inr Empty"
  "map_sum id si_state (inspect_sqlite_schema ([(enrollment_t, (with_index ''idx_passkey_enrollment_capabilities_expires_at''
     [''expires_at''] (new_table [col ''expires_at'' ''TEXT'' 0 0 None] [] [])))] @ butlast (package_schema [[SqlInt 3]])))
     = Inr Unsupported"
  by code_simp+


text \<open>Concrete cases of the general theorems.\<close>

definition current_db :: sql_db where
  "current_db = package_schema [[SqlInt 3]]"

lemma stores_need_canonical_schema_witness:
  "sqlite_base_init schema_report (PathDb ''auth.db'' current_db) ''operation''
     = Inr \<lparr>ss_mode = Operation, ss_database = PathDb ''auth.db'' current_db\<rparr>
   \<and> canonical_layout current_db"
proof -
  have "schema_report current_db = (''current'', [])" by code_simp
  then have run: "sqlite_base_init schema_report (PathDb ''auth.db'' current_db) ''operation''
      = Inr \<lparr>ss_mode = Operation, ss_database = PathDb ''auth.db'' current_db\<rparr>"
    by (simp add: sqlite_base_init_def checked_db_def)
  then show ?thesis using stores_need_canonical_schema [OF run] by (simp add: checked_db_def)
qed

lemma schema_change_atomic_witness:
  "untouched (\<lambda>_. None) (fresh_conn (legacy_db [])) (snd (migrate_sqlite_schema (\<lambda>_ v. v) (\<lambda>_. None) ''standalone''
     (fresh_conn (legacy_db []))))"
  using schema_change_atomic [where c = "fresh_conn (legacy_db [])" and conv = "\<lambda>_ v. v" and others = "\<lambda>_. None"]
  by (simp add: fresh_conn_def completed_def)

end
