(* ===== verification/MigrationRows.thy ===== *)
theory MigrationRows
  imports SqliteSchemaProperties
begin

section \<open>The rows a migration keeps\<close>

text \<open>
  The 0.1 layout is copied table by table into new tables, which then take the place of the old
  ones. The lemmas follow the rows of each table through the statements of \<open>migrate_legacy\<close>.
\<close>

subsection \<open>Rows through single statements\<close>

lemma on_table_Inr:
  "on_table t f db = (Inr a, db') \<longleftrightarrow> (\<exists>tb tb'. map_of db t = Some tb \<and> f tb = (Inr a, tb') \<and> db' = AList.update t tb' db)"
  by (auto simp: on_table_def split: option.split prod.split sum.split)

lemma map_of_update: "map_of (AList.update k v d) n = (if n = k then Some v else map_of d n)"
  by (simp add: update_conv)

lemma create_table_Inr:
  "create_table False t tb db = (Inr (), db') \<longleftrightarrow>
     map_of db t = None \<and> \<not> index_exists db t \<and> db' = db @ [(t, tb)]"
  by (auto simp: create_table_def)

lemma map_of_snoc: "map_of (db @ [(t, tb)]) n = (case map_of db n of None \<Rightarrow> if n = t then Some tb else None | Some x \<Rightarrow> Some x)"
  by (auto simp: map_add_def split: option.split)

definition stored :: "(string \<Rightarrow> sql_value \<Rightarrow> sql_value) \<Rightarrow> column_info list \<Rightarrow> sql_value list \<Rightarrow> sql_value list" where
  "stored conv cols values = map2 (\<lambda>c. affinity conv (ci_type c)) cols values"

lemma insert_row_Inr:
  assumes "insert_row conv t vals db = (Inr (), db')" and "map_of db t = Some tb"
  shows "db' = AList.update t (tb\<lparr>tb_rows := tb_rows tb @ [stored conv (tb_columns tb) vals]\<rparr>) db"
  using assms by (auto simp: insert_row_def on_table_Inr stored_def Let_def split: if_splits)

lemma insert_all_Inr:
  assumes "insert_all conv t rows db = (Inr (), db')" and "map_of db t = Some tb"
  shows "map_of db' t = Some (tb\<lparr>tb_rows := tb_rows tb @ map (stored conv (tb_columns tb)) rows\<rparr>)
    \<and> (\<forall>n. n \<noteq> t \<longrightarrow> map_of db' n = map_of db n) \<and> map fst db' = map fst db"
  using assms unfolding insert_all_def
proof (induction rows arbitrary: db tb)
  case Nil
  then show ?case by (simp add: return_op_def)
next
  case (Cons row rows)
  then obtain d where d: "insert_row conv t row db = (Inr (), d)" "run_all (map (insert_row conv t) rows) d = (Inr (), db')"
    by (auto simp: op_bind_eq_Inr)
  let ?tb = "tb\<lparr>tb_rows := tb_rows tb @ [stored conv (tb_columns tb) row]\<rparr>"
  have d': "d = AList.update t ?tb db" by (rule insert_row_Inr [OF d(1) Cons.prems(2)])
  then have "map_of d t = Some ?tb" by (simp add: map_of_update)
  from Cons.IH [OF d(2) this] show ?case
    using d' Cons.prems(2) by (auto simp: map_of_update map_fst_update)
qed

definition selected :: "string list \<Rightarrow> string \<Rightarrow> sql_db \<Rightarrow> sql_value list list" where
  "selected cols t db = (case map_of db t of None \<Rightarrow> [] | Some tb \<Rightarrow> map (\<lambda>row. map (\<lambda>c. cell tb c row) cols) (tb_rows tb))"

lemma select_columns_Inr:
  "select_columns cols t db = (Inr rows, db') \<Longrightarrow> db' = db \<and> rows = selected cols t db"
  by (auto simp: select_columns_def selected_def split: option.splits if_splits)

subsection \<open>Copying\<close>

lemma copy_users_Inr:
  assumes "copy_users conv db = (Inr (), db')" and "map_of db (v2_name users_t) = Some tb"
  shows "map_of db' (v2_name users_t) = Some (tb\<lparr>tb_rows := tb_rows tb @ map (stored conv (tb_columns tb))
      (map migrate_user (selected [''user_id'', ''user_handle'', ''name'', ''display_name''] users_t db))\<rparr>)
    \<and> (\<forall>n. n \<noteq> v2_name users_t \<longrightarrow> map_of db' n = map_of db n) \<and> map fst db' = map fst db"
  using assms by (auto simp: copy_users_def op_bind_eq_Inr dest!: select_columns_Inr dest: insert_all_Inr)

definition credential_selection :: "sql_db \<Rightarrow> string list" where
  "credential_selection db = [''credential_id'', ''user_id'', ''public_key'', ''sign_count'']
     @ optional_columns db @ [''created_at'']"

lemma copy_credentials_Inr:
  assumes "copy_credentials conv db = (Inr (), db')" and "map_of db (v2_name credentials_t) = Some tb"
  shows "map_of db' (v2_name credentials_t) = Some (tb\<lparr>tb_rows := tb_rows tb @ map (stored conv (tb_columns tb))
      (map (migrate_credential (optional_columns db)) (selected (credential_selection db) credentials_t db))\<rparr>)
    \<and> (\<forall>n. n \<noteq> v2_name credentials_t \<longrightarrow> map_of db' n = map_of db n) \<and> map fst db' = map fst db"
proof -
  obtain rows where "select_columns (credential_selection db) credentials_t db = (Inr rows, db)"
      "insert_all conv (v2_name credentials_t) (map (migrate_credential (optional_columns db)) rows) db = (Inr (), db')"
    using assms(1) by (auto simp: copy_credentials_def credential_selection_def op_bind_eq_Inr
        dest: select_columns_Inr split: if_splits)
  then show ?thesis using insert_all_Inr [OF _ assms(2)] select_columns_Inr by fastforce
qed

definition challenge_selection :: "string list" where
  "challenge_selection = [''flow_key'', ''kind'', ''challenge'', ''expires_at'', ''user_id'', ''user_handle'',
     ''user_name'', ''user_display_name'']"

lemma copy_challenges_Inr:
  assumes "copy_challenges conv db = (Inr (), db')" and "map_of db (v2_name challenges_t) = Some tb"
  shows "map_of db' (v2_name challenges_t) = Some (tb\<lparr>tb_rows := tb_rows tb @ map (stored conv (tb_columns tb))
      (map migrate_challenge (selected challenge_selection challenges_t db))\<rparr>)
    \<and> (\<forall>n. n \<noteq> v2_name challenges_t \<longrightarrow> map_of db' n = map_of db n) \<and> map fst db' = map fst db"
proof -
  obtain rows where "select_columns challenge_selection challenges_t db = (Inr rows, db)"
      "insert_all conv (v2_name challenges_t) (map migrate_challenge rows) db = (Inr (), db')"
    using assms(1) by (auto simp: copy_challenges_def challenge_selection_def op_bind_eq_Inr
        dest: select_columns_Inr split: if_splits)
  then show ?thesis using insert_all_Inr [OF _ assms(2)] select_columns_Inr by fastforce
qed

lemma check_counts_Inr: "check_counts db = (Inr (), db') \<Longrightarrow> db' = db"
  by (auto simp: check_counts_def check_count_def count_rows_def op_bind_eq_Inr return_op_def raise_op_def
      split: option.splits if_splits)

subsection \<open>Replacing the tables\<close>

lemma drop_table_Inr:
  assumes "drop_table t db = (Inr (), db')" and "closed_tables S db" and "t \<notin> S"
  shows "closed_tables S db' \<and> (\<forall>n \<in> S. map_of db' n = map_of db n)"
proof -
  obtain d fuel where d: "delete_rows fuel t (\<lambda>_. True) db = Inr d" "db' = AList.delete t d"
    using assms(1) by (auto simp: drop_table_def split: if_splits sum.splits)
  from delete_agrees(1) [OF assms(2,3) d(1)] assms(2) have "closed_tables S d" "\<forall>n \<in> S. map_of d n = map_of db n"
    by (auto simp: agrees_on_def)
  moreover have "map_of db' n = map_of d n" if "n \<in> S" for n
    using that assms(3) by (auto simp: d(2) delete_conv')
  moreover have "closed_tables S db'"
    using \<open>closed_tables S d\<close> by (auto simp: d(2) closed_tables_def AList.delete_eq)
  ultimately show ?thesis by simp
qed

lemma rows_rename:
  assumes "rename_table old new db = (Inr (), db')"
  shows "rows_of db' n = (if n = new then rows_of db old else if n = old then [] else rows_of db n)"
proof -
  let ?f = "\<lambda>(k, tb). (if k = old then new else k, tb\<lparr>tb_foreign_keys := map (\<lambda>fk. if fk_table fk = old
      then fk\<lparr>fk_table := new\<rparr> else fk) (tb_foreign_keys tb)\<rparr>)"
  have db': "db' = map ?f db" and ex: "map_of db new = None" "map_of db old \<noteq> None"
    using assms by (auto simp: rename_table_def split: if_splits)
  have "old \<noteq> new" using ex by auto
  then have "rows_of (map ?f d) n = (if n = new then rows_of d old else if n = old then [] else rows_of d n)"
    if "map_of d new = None" for d
    using that by (induction d) (auto simp: rows_of_def split: if_splits)
  with ex(1) show ?thesis by (simp add: db')
qed

lemma rows_create_index: "create_index b i t cols db = (Inr (), db') \<Longrightarrow> rows_of db' n = rows_of db n"
  by (auto simp: create_index_def on_table_Inr rows_of_def map_of_update split: if_splits)

lemma rows_create_table:
  "create_table b t tb db = (Inr (), db') \<Longrightarrow> tb_rows tb = [] \<Longrightarrow> rows_of db' n = rows_of db n"
  by (auto simp: create_table_def rows_of_def map_of_snoc split: if_splits option.splits)

lemma rows_enrollment: "apply_enrollment_schema db = (Inr (), db') \<Longrightarrow> rows_of db' n = rows_of db n"
  by (auto simp: apply_enrollment_schema_def op_bind_eq_Inr return_op_def enrollment_table_def new_table_def
      rows_create_index rows_create_table)

lemma v2_names [simp]:
  "v2_name users_t = ''passkey_users_v2''" "v2_name credentials_t = ''passkey_credentials_v2''"
  "v2_name challenges_t = ''passkey_challenges_v2''"
  by (simp_all add: v2_name_def)

abbreviation v2_tables :: "string set" where
  "v2_tables \<equiv> {''passkey_users_v2'', ''passkey_credentials_v2'', ''passkey_challenges_v2''}"

lemma replace_tables_Inr:
  assumes "replace_tables db = (Inr (), db')" and "closed_tables S db" and "v2_tables \<subseteq> S"
    and "S \<inter> {users_t, credentials_t, challenges_t} = {}"
  shows "rows_of db' users_t = rows_of db ''passkey_users_v2''
    \<and> rows_of db' credentials_t = rows_of db ''passkey_credentials_v2''
    \<and> rows_of db' challenges_t = rows_of db ''passkey_challenges_v2''
    \<and> (\<forall>n \<in> S - v2_tables. rows_of db' n = rows_of db n)"
proof -
  obtain d1 d2 d3 d4 d5 d6 d7 where steps: "drop_table credentials_t db = (Inr (), d1)"
      "drop_table challenges_t d1 = (Inr (), d2)" "drop_table users_t d2 = (Inr (), d3)"
      "rename_table ''passkey_users_v2'' users_t d3 = (Inr (), d4)"
      "rename_table ''passkey_credentials_v2'' credentials_t d4 = (Inr (), d5)"
      "rename_table ''passkey_challenges_v2'' challenges_t d5 = (Inr (), d6)"
    and indexes: "create_index False ''idx_passkey_credentials_user_id'' credentials_t [''user_id''] d6 = (Inr (), d7)"
      "create_index False ''idx_passkey_challenges_expires_at'' challenges_t [''expires_at''] d7 = (Inr (), db')"
    using assms(1) unfolding replace_tables_def run_all_Cons_Inr run_all_Nil_Inr v2_names by metis
  have out: "credentials_t \<notin> S" "challenges_t \<notin> S" "users_t \<notin> S" using assms(4) by auto
  note a = drop_table_Inr [OF steps(1) assms(2) out(1)]
  note b = drop_table_Inr [OF steps(2) a [THEN conjunct1] out(2)]
  note c = drop_table_Inr [OF steps(3) b [THEN conjunct1] out(3)]
  have kept: "rows_of d3 n = rows_of db n" if "n \<in> S" for n
    using that a b c by (simp add: rows_of_def)
  have moved: "rows_of db' n = rows_of d6 n" for n
    using rows_create_index [OF indexes(1)] rows_create_index [OF indexes(2)] by simp
  note ren = rows_rename [OF steps(4)] rows_rename [OF steps(5)] rows_rename [OF steps(6)]
  have "rows_of db' users_t = rows_of d3 ''passkey_users_v2''"
      "rows_of db' credentials_t = rows_of d3 ''passkey_credentials_v2''"
      "rows_of db' challenges_t = rows_of d3 ''passkey_challenges_v2''"
    by (simp_all add: moved ren)
  moreover have "rows_of db' n = rows_of d3 n" if "n \<in> S - v2_tables" for n
    using that out by (auto simp: moved ren)
  ultimately show ?thesis using kept assms(3) by auto
qed

lemma closed_tables_append:
  "closed_tables S (d1 @ d2) \<longleftrightarrow> closed_tables S d1 \<and> closed_tables S d2"
  by (auto simp: closed_tables_def)

lemma closed_tables_same_keys:
  assumes "closed_tables S db" and "map fst db' = map fst db" and "distinct (map fst db)"
    and "\<And>n tb'. map_of db' n = Some tb' \<Longrightarrow> n \<in> S \<Longrightarrow> \<exists>tb. map_of db n = Some tb \<and> tb_foreign_keys tb' = tb_foreign_keys tb"
  shows "closed_tables S db'"
  using assms unfolding closed_tables_def by (metis map_of_eq_Some_iff)

text \<open>The tables of the new layout are made beside the old ones, empty, and only if their names are free.\<close>

lemma made_tables:
  assumes "create_table False ''passkey_users_v2'' users_table db = (Inr (), d1)"
      "create_table False ''passkey_credentials_v2'' (credentials_table ''passkey_users_v2'') d1 = (Inr (), d2)"
      "create_table False ''passkey_challenges_v2'' challenges_table d2 = (Inr (), d3)"
  shows "d3 = db @ [(''passkey_users_v2'', users_table),
        (''passkey_credentials_v2'', credentials_table ''passkey_users_v2''), (''passkey_challenges_v2'', challenges_table)]"
    and "n \<in> v2_tables \<Longrightarrow> map_of db n = None"
    and "map_of d3 ''passkey_users_v2'' = Some users_table"
        "map_of d3 ''passkey_credentials_v2'' = Some (credentials_table ''passkey_users_v2'')"
        "map_of d3 ''passkey_challenges_v2'' = Some challenges_table"
    and "n \<notin> v2_tables \<Longrightarrow> map_of d3 n = map_of db n"
    and "distinct (map fst db) \<Longrightarrow> distinct (map fst d3)"
proof -
  show d3: "d3 = db @ [(''passkey_users_v2'', users_table),
        (''passkey_credentials_v2'', credentials_table ''passkey_users_v2''), (''passkey_challenges_v2'', challenges_table)]"
    using assms by (auto simp: create_table_Inr)
  have new: "map_of db n = None" if "n \<in> v2_tables" for n
    using that assms by (auto simp: create_table_Inr map_of_snoc split: option.splits if_splits)
  then show "n \<in> v2_tables \<Longrightarrow> map_of db n = None" .
  show "map_of d3 ''passkey_users_v2'' = Some users_table"
      "map_of d3 ''passkey_credentials_v2'' = Some (credentials_table ''passkey_users_v2'')"
      "map_of d3 ''passkey_challenges_v2'' = Some challenges_table" "n \<notin> v2_tables \<Longrightarrow> map_of d3 n = map_of db n"
    using new by (auto simp: d3 map_add_def split: option.split)
  show "distinct (map fst db) \<Longrightarrow> distinct (map fst d3)" using new by (auto simp: d3 map_of_eq_None_iff)
qed

lemma closed_tables_made:
  assumes "closed_tables H db" and "\<And>n. n \<in> v2_tables \<Longrightarrow> map_of db n = None"
  shows "closed_tables (H \<union> v2_tables) (db @ [(''passkey_users_v2'', users_table),
    (''passkey_credentials_v2'', credentials_table ''passkey_users_v2''), (''passkey_challenges_v2'', challenges_table)])"
proof -
  have "(n, tb) \<notin> set db" if "n \<in> v2_tables" for n tb
    using assms(2) [OF that] by (auto simp: map_of_eq_None_iff image_iff)
  then have "closed_tables (H \<union> v2_tables) db" using assms(1) unfolding closed_tables_def by blast
  then show ?thesis
    unfolding closed_tables_append
    by (simp add: closed_tables_def users_table_def credentials_table_def challenges_table_def new_table_def)
qed

lemma copied_tables:
  assumes made: "create_table False ''passkey_users_v2'' users_table db = (Inr (), d1)"
      "create_table False ''passkey_credentials_v2'' (credentials_table ''passkey_users_v2'') d1 = (Inr (), d2)"
      "create_table False ''passkey_challenges_v2'' challenges_table d2 = (Inr (), d3)"
    and copied: "copy_users conv d3 = (Inr (), d4)" "copy_credentials conv d4 = (Inr (), d5)"
      "copy_challenges conv d5 = (Inr (), d6)"
    and host: "distinct (map fst db)" "closed_tables H db"
  shows "rows_of d6 ''passkey_users_v2'' = map (stored conv user_columns \<circ> migrate_user)
      (selected [''user_id'', ''user_handle'', ''name'', ''display_name''] users_t db)
    \<and> rows_of d6 ''passkey_credentials_v2'' = map (stored conv credential_columns \<circ> migrate_credential (optional_columns db))
      (selected (credential_selection db) credentials_t db)
    \<and> rows_of d6 ''passkey_challenges_v2'' = map (stored conv challenge_columns \<circ> migrate_challenge)
      (selected challenge_selection challenges_t db)
    \<and> closed_tables (H \<union> v2_tables) d6
    \<and> (\<forall>n. if n \<in> v2_tables then map_of db n = None else map_of d6 n = map_of db n)"
proof -
  let ?u = "''passkey_users_v2''" and ?c = "''passkey_credentials_v2''" and ?h = "''passkey_challenges_v2''"
  note d3 = made_tables(1) [OF made] and new = made_tables(2) [OF made] and m3 = made_tables(3-6) [OF made]
  note u = copy_users_Inr [OF copied(1), unfolded v2_names, OF m3(1)]
  have "map_of d4 ?c = Some (credentials_table ?u)" using u m3 by simp
  note c = copy_credentials_Inr [OF copied(2), unfolded v2_names, OF this]
  have "map_of d5 ?h = Some challenges_table" using u c m3 by simp
  note h = copy_challenges_Inr [OF copied(3), unfolded v2_names, OF this]
  have old: "map_of d4 n = map_of db n" "map_of d5 n = map_of db n" "map_of d6 n = map_of db n" if "n \<notin> v2_tables" for n
    using that u c h m3(4) [OF that] by auto
  have sel: "selected cols t d3 = selected cols t db" "selected cols t d4 = selected cols t db"
      "selected cols t d5 = selected cols t db" "columns d4 t = columns db t" if "t \<notin> v2_tables" for cols t
    using that old [OF that] m3(4) [OF that] by (simp_all add: selected_def columns_def table_info_def)
  have opt: "optional_columns d4 = optional_columns db" by (simp add: optional_columns_def sel)
  then have cs: "credential_selection d4 = credential_selection db" by (simp add: credential_selection_def)
  have "\<exists>tb. map_of d3 n = Some tb \<and> tb_foreign_keys tb' = tb_foreign_keys tb" if "map_of d6 n = Some tb'" for n tb'
  proof (cases "n \<in> v2_tables")
    case True
    have "map_of d6 ?u = map_of d4 ?u" "map_of d6 ?c = map_of d5 ?c" using c h by simp_all
    then have "\<exists>rows. map_of d6 n = map_option (\<lambda>tb. tb\<lparr>tb_rows := rows\<rparr>) (map_of d3 n)"
      using True u [THEN conjunct1] c [THEN conjunct1] h [THEN conjunct1] unfolding m3(1-3)
      by (elim insertE emptyE) (simp_all only: m3(1-3) option.map option.inject, blast+)
    then show ?thesis using that by (cases "map_of d3 n") auto
  next
    case False
    then show ?thesis using that old(3) m3(4) by simp
  qed
  then have "closed_tables (H \<union> v2_tables) d6"
    by (intro closed_tables_same_keys [OF closed_tables_made [OF host(2) new, folded d3] _ made_tables(7) [OF made host(1)]])
      (use u c h in simp_all)
  moreover have "rows_of d6 ?u = map (stored conv user_columns \<circ> migrate_user)
      (selected [''user_id'', ''user_handle'', ''name'', ''display_name''] users_t db)"
      "rows_of d6 ?c = map (stored conv credential_columns \<circ> migrate_credential (optional_columns db))
        (selected (credential_selection db) credentials_t db)"
      "rows_of d6 ?h = map (stored conv challenge_columns \<circ> migrate_challenge) (selected challenge_selection challenges_t db)"
    using u c h by (simp_all add: rows_of_def sel opt cs users_table_def credentials_table_def challenges_table_def new_table_def)
  ultimately show ?thesis using old(3) new by simp
qed

text \<open>
  C30: a migration of the 0.1 layout that succeeds has every user, credential and challenge, in the
  order of the old tables, with the handles and credential ids of bytes as base64url text, the
  columns the old layout lacked NULL, and everything else as it was; the version is 3, and every
  table of the host that has no way by foreign keys to a table of the package keeps its rows.
\<close>

theorem legacy_migration_keeps_rows:
  assumes "migrate_legacy conv db = (Inr (), db')" and "distinct (map fst db)"
    and "H \<subseteq> set (tables db)" and "closed_tables H db" and "H \<inter> {users_t, credentials_t, challenges_t, schema_t} = {}"
  shows "rows_of db' users_t = map (stored conv user_columns \<circ> migrate_user)
      (selected [''user_id'', ''user_handle'', ''name'', ''display_name''] users_t db)
    \<and> rows_of db' credentials_t = map (stored conv credential_columns \<circ> migrate_credential (optional_columns db))
      (selected (credential_selection db) credentials_t db)
    \<and> rows_of db' challenges_t = map (stored conv challenge_columns \<circ> migrate_challenge)
      (selected challenge_selection challenges_t db)
    \<and> rows_of db' schema_t = [[SqlInt 3]]
    \<and> (\<forall>n \<in> H. rows_of db' n = rows_of db n)"
proof -
  let ?u = "''passkey_users_v2''" and ?c = "''passkey_credentials_v2''" and ?h = "''passkey_challenges_v2''"
  obtain d1 d2 d3 d4 d5 d6 d7 d8 d9 d10 d11 where
      made: "create_table False ?u users_table db = (Inr (), d1)"
        "create_table False ?c (credentials_table ?u) d1 = (Inr (), d2)"
        "create_table False ?h challenges_table d2 = (Inr (), d3)"
    and copied: "copy_users conv d3 = (Inr (), d4)" "copy_credentials conv d4 = (Inr (), d5)"
        "copy_challenges conv d5 = (Inr (), d6)"
    and counted: "check_counts d6 = (Inr (), d7)" and replaced: "replace_tables d7 = (Inr (), d8)"
    and version: "create_table False schema_t schema_table d8 = (Inr (), d9)"
        "insert_row conv schema_t [SqlInt 3] d9 = (Inr (), d10)" "apply_enrollment_schema d10 = (Inr (), d11)"
    and checked: "db' = d11"
    using assms(1) unfolding migrate_legacy_def run_all_Cons_Inr run_all_Nil_Inr v2_names
    by (auto split: if_splits)
  note copies = copied_tables [OF made copied assms(2,4)]
  have old: "map_of d6 n = map_of db n" if "n \<notin> v2_tables" for n using copies that by meson
  have new: "map_of db n = None" if "n \<in> v2_tables" for n using copies that by meson
  have "closed_tables (H \<union> v2_tables) d7" using copies check_counts_Inr [OF counted] by simp
  note r = replace_tables_Inr [OF replaced this _ ]
  have rep: "rows_of d8 users_t = rows_of d6 ?u" "rows_of d8 credentials_t = rows_of d6 ?c"
      "rows_of d8 challenges_t = rows_of d6 ?h" "\<And>n. n \<in> H \<Longrightarrow> n \<notin> v2_tables \<Longrightarrow> rows_of d8 n = rows_of d6 n"
    using r assms(5) check_counts_Inr [OF counted] by auto
  have d9: "d9 = d8 @ [(schema_t, schema_table)]" "map_of d8 schema_t = None" using version(1) by (auto simp: create_table_Inr)
  then have "map_of d9 schema_t = Some schema_table" by (simp add: map_add_def)
  note v = insert_row_Inr [OF version(2) this]
  have last: "rows_of db' n = (if n = schema_t then [[SqlInt 3]] else rows_of d8 n)" for n
    using rows_enrollment [OF version(3), of n] rows_create_table [OF version(1), of n] d9
    by (auto simp: checked v rows_of_def map_of_update schema_table_def new_table_def schema_columns_def col_def
        stored_def affinity_def)
  have host: "rows_of db' n = rows_of db n" if "n \<in> H" for n
  proof -
    have n: "n \<notin> v2_tables" using that assms(3) new by (auto simp: tables_def map_of_eq_None_iff)
    have "rows_of d8 n = rows_of db n" using rep(4) [OF that n] old [OF n] by (simp add: rows_of_def)
    moreover have "n \<noteq> schema_t" using that assms(5) by auto
    ultimately show ?thesis by (simp add: last)
  qed
  show ?thesis
    using host rep(1-3) copies by (simp add: last)
qed

lemma migrate_legacy_db:
  "migrate_legacy (\<lambda>_ v. v) (legacy_db []) = (Inr (), legacy_outcome (host_accounts []))"
  by code_simp

lemma legacy_migration_keeps_rows_witness:
  "\<exists>db'. migrate_legacy (\<lambda>_ v. v) (legacy_db []) = (Inr (), db')
     \<and> rows_of db' users_t = [[SqlText ''ann'', SqlText ''AQ'', SqlText ''Ann'', SqlNull]]
     \<and> rows_of db' ''accounts'' = [[SqlInt 1, SqlText ''ann'']]"
proof -
  have accounts: "{''accounts''} \<subseteq> set (tables (legacy_db []))" "closed_tables {''accounts''} (legacy_db [])"
      "distinct (map fst (legacy_db []))"
    by (simp_all add: legacy_db_def tables_def closed_tables_def host_accounts_def new_table_def)
  have users: "map (stored (\<lambda>_ v. v) user_columns \<circ> migrate_user)
      (selected [''user_id'', ''user_handle'', ''name'', ''display_name''] users_t (legacy_db []))
      = [[SqlText ''ann'', SqlText ''AQ'', SqlText ''Ann'', SqlNull]]"
    by code_simp
  show ?thesis
    using legacy_migration_keeps_rows [OF migrate_legacy_db accounts(3,1,2)]
    by (simp add: migrate_legacy_db users) (simp add: legacy_db_def rows_of_def host_accounts_def new_table_def)
qed

end
