(* ===== verification/StoreContracts.thy ===== *)
theory StoreContracts
  imports PasskeyFlows Http
begin

section \<open>The published store contracts (\<open>testing.py\<close>)\<close>

text \<open>
  The three assertions that the package offers to authors of stores, as functions of the stores
  they are applied to: \<open>assert\<close> raises AssertionError, and a contract that returns has held. They
  are proved to hold for every store of the package. The display name of the user in the code has
  a letter outside Latin-1 and is an argument here.
\<close>

subsection \<open>Assertions\<close>

definition py_assert :: "bool \<Rightarrow> string \<Rightarrow> ('s, unit) op" where
  "py_assert b msg s = (if b then Inr () else Inl (AssertionError msg), s)"

text \<open>\<open>assert P (f ())\<close> for a call that only reads, and for one that also writes.\<close>

definition expect :: "('s \<Rightarrow> 'a result) \<Rightarrow> ('a \<Rightarrow> bool) \<Rightarrow> ('s, unit) op" where
  "expect f P s = (case f s of Inl e \<Rightarrow> (Inl e, s) | Inr a \<Rightarrow> py_assert (P a) [] s)"

definition expect_op :: "('s, 'a) op \<Rightarrow> ('a \<Rightarrow> bool) \<Rightarrow> ('s, unit) op" where
  "expect_op f P = op_bind f (\<lambda>a. py_assert (P a) [])"

lemma py_assert_True [simp]: "py_assert True msg s = (Inr (), s)"
  by (simp add: py_assert_def)

lemma expect_Inr [simp]: "f s = Inr a \<Longrightarrow> P a \<Longrightarrow> expect f P s = (Inr (), s)"
  by (simp add: expect_def)

lemma expect_op_Inr: "f s = (Inr a, s') \<Longrightarrow> P a \<Longrightarrow> expect_op f P s = (Inr (), s')"
  by (simp add: expect_op_def op_bind_def)

lemma run_all_step: "f s = (Inr (), s') \<Longrightarrow> run_all (f # fs) s = run_all fs s'"
  by (simp add: op_bind_def)

subsection \<open>Credential stores\<close>

definition contract_user :: "string \<Rightarrow> passkey_user" where
  "contract_user display_name = \<lparr>pu_user_id = ''user-1'', pu_user_handle = utf8_encode ''stable-handle'',
     pu_name = ''mikolaj'', pu_display_name = Some display_name\<rparr>"

text \<open>\<open>datetime(2026, 1, 1, tzinfo=UTC)\<close>.\<close>

definition contract_start :: datetime where
  "contract_start = 63902822400000000"

definition contract_phone :: passkey_credential where
  "contract_phone = \<lparr>pc_credential_id = utf8_encode ''phone'', pc_user_id = ''user-1'',
     pc_public_key = utf8_encode ''phone-public-key'', pc_sign_count = 3, pc_transports = [''internal''],
     pc_device_type = Some ''single_device'', pc_backed_up = Some False, pc_label = Some ''Phone'',
     pc_created_at = contract_start\<rparr>"

definition contract_laptop :: passkey_credential where
  "contract_laptop = \<lparr>pc_credential_id = utf8_encode ''laptop'', pc_user_id = ''user-1'',
     pc_public_key = utf8_encode ''laptop-public-key'', pc_sign_count = 0, pc_transports = [],
     pc_device_type = None, pc_backed_up = None, pc_label = None,
     pc_created_at = contract_start + us_per_second\<rparr>"

definition contract_registration :: "string \<Rightarrow> passkey_credential \<Rightarrow> verified_registration" where
  "contract_registration display_name c =
     \<lparr>vr_user = contract_user display_name, vr_credential = c, vr_context = None\<rparr>"

definition assert_credential_store_contract :: "'k credential_ops \<Rightarrow> string \<Rightarrow> ('k, unit) op" where
  "assert_credential_store_contract store display_name =
     (let user = contract_user display_name;
          phone = pc_credential_id contract_phone; laptop = pc_credential_id contract_laptop in
      run_all
       [ks_save store (contract_registration display_name contract_phone),
        ks_save store (contract_registration display_name contract_laptop),
        expect (ks_get_user store (pu_user_id user)) (\<lambda>r. r = Some user),
        expect (ks_by_handle store (pu_user_handle user)) (\<lambda>r. r = Some user),
        expect (ks_get store phone) (\<lambda>r. r = Some contract_phone),
        expect (ks_list store (pu_user_id user)) (\<lambda>cs. pc_credential_id ` set cs = {phone, laptop}),
        expect_op (ks_cas store phone 3 4 (Some ''multi_device'') (Some True))
          (\<lambda>updated. pc_sign_count updated = 4 \<and> pc_device_type updated = Some ''multi_device''
             \<and> pc_backed_up updated = Some True),
        expect_op (ks_delete store laptop (Some ''other-user'') False) (\<lambda>b. \<not> b),
        expect_op (ks_delete store laptop (Some (pu_user_id user)) False) (\<lambda>b. b),
        expect (ks_get store laptop) (\<lambda>r. r = None)])"

subsection \<open>Challenge stores\<close>

text \<open>The clock of the store is read once per call, at \<open>t1\<close> to \<open>t4\<close>.\<close>

definition assert_challenge_store_contract ::
  "'c challenge_ops \<Rightarrow> datetime \<Rightarrow> datetime \<Rightarrow> datetime \<Rightarrow> datetime \<Rightarrow> ('c, unit) op" where
  "assert_challenge_store_contract store t1 t2 t3 t4 =
     run_all
      [op_bind (cs_save store t1 ''authentication-flow'' Authentication (utf8_encode ''challenge'') 300 None None)
         (\<lambda>_. return_op ()),
       expect_op (cs_pop store t2 ''authentication-flow'' Authentication)
         (\<lambda>r. ch_challenge r = utf8_encode ''challenge''),
       op_bind (cs_save store t3 ''expired-flow'' Authentication (utf8_encode ''expired'') (- 1) None None)
         (\<lambda>_. return_op ()),
       op_try (op_bind (cs_pop store t4 ''expired-flow'' Authentication)
           (\<lambda>_. raise_op (AssertionError ''expired challenge must be inaccessible'')))
         (\<lambda>e. case e of ChallengeNotFound _ \<Rightarrow> return_op () | _ \<Rightarrow> raise_op e)]"

subsection \<open>Transactions of the caller\<close>

text \<open>
  The database has the tables of the package (\<open>'k\<close>) and, once it is created, the table of the
  host with one TEXT PRIMARY KEY column. A statement other than BEGIN, COMMIT and ROLLBACK commits
  itself outside a transaction if it is a CREATE; the \<open>sqlite3\<close> module opens a transaction before
  an INSERT.
\<close>

type_synonym 'k shared_db = "'k \<times> string list option"

definition execute_ddl :: "('db, 'a) op \<Rightarrow> ('db conn, 'a) op" where
  "execute_ddl f c =
     (case f (current c) of
        (Inl e, _) \<Rightarrow> (Inl e, c)
      | (Inr a, db) \<Rightarrow> (Inr a, if in_tx c then c\<lparr>current := db\<rparr> else c\<lparr>current := db, committed := db\<rparr>))"

definition execute_dml :: "('db, 'a) op \<Rightarrow> ('db conn, 'a) op" where
  "execute_dml f c =
     (case f (current c) of
        (Inl e, _) \<Rightarrow> (Inl e, c\<lparr>in_tx := True\<rparr>)
      | (Inr a, db) \<Rightarrow> (Inr a, c\<lparr>current := db, in_tx := True\<rparr>))"

abbreviation no_host_table :: exn where
  "no_host_table \<equiv> OperationalError ''no such table: _contract_host_records''"

definition create_host_records :: "('k shared_db, unit) op" where
  "create_host_records db =
     (if snd db \<noteq> None then (Inl (OperationalError ''table _contract_host_records already exists''), db)
      else (Inr (), (fst db, Some [])))"

definition insert_host_record :: "string \<Rightarrow> ('k shared_db, unit) op" where
  "insert_host_record uid db =
     (case snd db of
        None \<Rightarrow> (Inl no_host_table, db)
      | Some rows \<Rightarrow>
          if uid \<in> set rows
          then (Inl (IntegrityError ''UNIQUE constraint failed: _contract_host_records.user_id''), db)
          else (Inr (), (fst db, Some (rows @ [uid]))))"

definition host_records :: "'k shared_db conn \<Rightarrow> string list result" where
  "host_records c = (case snd (current c) of None \<Rightarrow> Inl no_host_table | Some rows \<Rightarrow> Inr rows)"

definition external_user :: passkey_user where
  "external_user = \<lparr>pu_user_id = ''u1'', pu_user_handle = utf8_encode ''h1'', pu_name = ''Alice'',
     pu_display_name = None\<rparr>"

definition external_credential :: "datetime \<Rightarrow> passkey_credential" where
  "external_credential now = \<lparr>pc_credential_id = utf8_encode ''c1'', pc_user_id = ''u1'',
     pc_public_key = utf8_encode ''pubkey'', pc_sign_count = 0, pc_transports = [],
     pc_device_type = None, pc_backed_up = None, pc_label = None, pc_created_at = now\<rparr>"

text \<open>
  The inner class SimulatedHostFailure is raised and caught in the function itself and seen by no
  store, so its handler is what follows the block. Closing the connection leaves the result.
\<close>

definition assert_external_transaction_contract ::
  "('k shared_db conn \<Rightarrow> 'k shared_db conn credential_ops result) \<Rightarrow> ('k shared_db conn, unit) op
   \<Rightarrow> datetime \<Rightarrow> 'k shared_db conn \<Rightarrow> unit result" where
  "assert_external_transaction_contract store_factory schema_initializer now memory_db =
     (let user = external_user; credential = external_credential now;
          reg = \<lparr>vr_user = user, vr_credential = credential, vr_context = None\<rparr>;
          with_store = (\<lambda>f c. case store_factory c of Inl e \<Rightarrow> (Inl e, c) | Inr store \<Rightarrow> run_all (f store) c);
          still_open = (\<lambda>c. py_assert (in_tx c) ''store committed the caller transaction'' c) in
      fst (run_all
       [schema_initializer,
        execute_ddl create_host_records,
        conn_begin,
        with_store (\<lambda>store.
         [execute_dml (insert_host_record (pu_user_id user)),
          ks_save store reg,
          still_open,
          (\<lambda>c. (Inr (), conn_rollback c))]),
        conn_begin,
        with_store (\<lambda>store.
         [expect (ks_get store (pc_credential_id credential)) (\<lambda>r. r = None),
          expect (ks_get_user store (pu_user_id user)) (\<lambda>r. r = None),
          expect (ks_by_handle store (pu_user_handle user)) (\<lambda>r. r = None),
          expect host_records (\<lambda>rows. rows = []),
          execute_dml (insert_host_record (pu_user_id user)),
          ks_save store reg,
          still_open,
          (\<lambda>c. (Inr (), conn_commit c))]),
        conn_begin,
        with_store (\<lambda>store.
         [expect (ks_get store (pc_credential_id credential)) (\<lambda>r. r = Some credential),
          expect (ks_get_user store (pu_user_id user)) (\<lambda>r. r = Some user),
          expect host_records (\<lambda>rows. rows = [pu_user_id user]),
          (\<lambda>c. (Inr (), conn_rollback c))])] memory_db))"

text \<open>\<open>SQLiteCredentialStore(connection, transaction_mode="external")\<close>.\<close>

definition on_package :: "('k, 'a) op \<Rightarrow> ('k \<times> 'h, 'a) op" where
  "on_package f db = (case f (fst db) of (r, k) \<Rightarrow> (r, (k, snd db)))"

definition external_credentials :: "(cred_db \<times> 'h) conn credential_ops" where
  "external_credentials =
     \<lparr>ks_save = (\<lambda>vr c.
          if pc_user_id (vr_credential vr) \<noteq> pu_user_id (vr_user vr) then (Inl sql_ownership_conflict, c)
          else connection External True (on_package (save_body (vr_user vr) (vr_credential vr))) c),
       ks_get_user = (\<lambda>uid c. sql_get_user uid (fst (current c))),
       ks_by_handle = (\<lambda>h c. sql_get_user_by_handle h (fst (current c))),
       ks_list = (\<lambda>uid c. sql_list_credentials uid (fst (current c))),
       ks_get = (\<lambda>cid c. sql_get_credential cid (fst (current c))),
       ks_cas = (\<lambda>cid ex n dt bu. connection External True (on_package (cas_body cid ex n dt bu))),
       ks_label = (\<lambda>cid uid l. connection External True (on_package (label_body cid uid l))),
       ks_delete = (\<lambda>cid uid rr. connection External True (on_package (delete_body External cid uid rr)))\<rparr>"

definition external_credential_store ::
  "(cred_db \<times> 'h \<Rightarrow> string \<times> string list) \<Rightarrow> (cred_db \<times> 'h) conn
   \<Rightarrow> (cred_db \<times> 'h) conn credential_ops result" where
  "external_credential_store inspect c =
     (case sqlite_base_init inspect (ConnDb c) ''external'' of
        Inl e \<Rightarrow> Inl e | Inr _ \<Rightarrow> Inr external_credentials)"

subsection \<open>Every store that keeps the contract of the protocol passes\<close>

lemma refined_Inr:
  "map_prod (map_sum bare id) f p = (Inr a, st) \<Longrightarrow> p = (Inr a, snd p) \<and> f (snd p) = st"
  by (cases p; cases "fst p") auto

lemma contract_fields [simp]:
  "pc_user_id contract_phone = ''user-1''" "pc_user_id contract_laptop = ''user-1''"
  "pc_sign_count contract_phone = 3" "pu_user_id (contract_user name) = ''user-1''"
  "vr_user (contract_registration name c) = contract_user name"
  "vr_credential (contract_registration name c) = c"
  by (simp_all add: contract_phone_def contract_laptop_def contract_user_def contract_registration_def)

lemma contract_ids [simp]:
  "pc_credential_id contract_phone \<noteq> pc_credential_id contract_laptop"
  "pc_credential_id contract_laptop \<noteq> pc_credential_id contract_phone"
  by code_simp+

abbreviation spec_both :: "string \<Rightarrow> passkey_credential \<Rightarrow> cred_spec" where
  "spec_both name phone \<equiv>
     \<lparr>sp_users = [''user-1'' \<mapsto> contract_user name],
      sp_handles = [pu_user_handle (contract_user name) \<mapsto> ''user-1''],
      sp_creds = [pc_credential_id contract_phone \<mapsto> phone, pc_credential_id contract_laptop \<mapsto> contract_laptop]\<rparr>"

lemma contract_spec_save:
  "spec_save (contract_registration name contract_phone) spec_empty =
     (Inr (), (spec_both name contract_phone)\<lparr>sp_creds := [pc_credential_id contract_phone \<mapsto> contract_phone]\<rparr>)"
  "spec_save (contract_registration name contract_laptop)
       ((spec_both name contract_phone)\<lparr>sp_creds := [pc_credential_id contract_phone \<mapsto> contract_phone]\<rparr>) =
     (Inr (), spec_both name contract_phone)"
  by (simp_all add: spec_save_def spec_empty_def Let_def)

definition contract_phone_used :: passkey_credential where
  "contract_phone_used = contract_phone\<lparr>pc_sign_count := 4, pc_device_type := Some ''multi_device'',
     pc_backed_up := Some True\<rparr>"

lemma contract_spec_cas:
  "spec_cas (pc_credential_id contract_phone) 3 4 (Some ''multi_device'') (Some True) (spec_both name contract_phone) =
     (Inr contract_phone_used, spec_both name contract_phone_used)"
  by (simp add: spec_cas_def contract_phone_used_def fun_upd_twist Let_def)

lemma contract_spec_delete:
  "spec_delete (pc_credential_id contract_laptop) (Some ''other-user'') False (spec_both name phone) =
     (Inr False, spec_both name phone)"
  "spec_delete (pc_credential_id contract_laptop) (Some ''user-1'') False (spec_both name phone) =
     (Inr True, (spec_both name phone)\<lparr>sp_creds := [pc_credential_id contract_phone \<mapsto> phone]\<rparr>)"
  by (auto simp: spec_delete_def fun_eq_iff)

lemma contract_spec_list:
  "pc_credential_id ` spec_list (spec_both name contract_phone) ''user-1'' =
     {pc_credential_id contract_phone, pc_credential_id contract_laptop}"
proof -
  have "spec_list (spec_both name contract_phone) ''user-1'' = {contract_phone, contract_laptop}"
    by (auto simp: spec_list_def intro: exI [of _ "pc_credential_id contract_phone"]
        exI [of _ "pc_credential_id contract_laptop"])
  then show ?thesis by simp
qed

context credential_store
begin

abbreviation store_ops :: "'s credential_ops" where
  "store_ops \<equiv> \<lparr>ks_save = save, ks_get_user = get_user, ks_by_handle = get_user_by_handle, ks_list = list_for,
     ks_get = get_cred, ks_cas = cas, ks_label = set_label, ks_delete = delete\<rparr>"

lemma contract_holds:
  assumes start: "inv s0" "abs s0 = spec_empty"
    and regs: "reg_ok (contract_registration name contract_phone)" "reg_ok (contract_registration name contract_laptop)"
    and counts: "count_ok 3" "count_ok 4"
  shows "\<exists>s. assert_credential_store_contract store_ops name s0 = (Inr (), s)"
proof -
  note saved1 = save_refines [OF start(1) regs(1), unfolded start(2) contract_spec_save(1), THEN refined_Inr]
  obtain s1 where s1: "save (contract_registration name contract_phone) s0 = (Inr (), s1)"
      "abs s1 = (spec_both name contract_phone)\<lparr>sp_creds := [pc_credential_id contract_phone \<mapsto> contract_phone]\<rparr>"
      "inv s1"
    using saved1 save_inv [OF start(1) regs(1)] by blast
  obtain s2 where s2: "save (contract_registration name contract_laptop) s1 = (Inr (), s2)"
      "abs s2 = spec_both name contract_phone" "inv s2"
    using save_refines [OF s1(3) regs(2), unfolded s1(2) contract_spec_save(2), THEN refined_Inr]
      save_inv [OF s1(3) regs(2)] by blast
  obtain s3 where s3: "cas (pc_credential_id contract_phone) 3 4 (Some ''multi_device'') (Some True) s2 =
        (Inr contract_phone_used, s3)" "abs s3 = spec_both name contract_phone_used" "inv s3"
    using cas_refines [OF s2(3) counts, where cid = "pc_credential_id contract_phone" and dt = "Some ''multi_device''" and bu = "Some True",
        unfolded s2(2) contract_spec_cas, THEN refined_Inr]
      cas_inv [OF s2(3) counts] by blast
  obtain s4 where s4: "delete (pc_credential_id contract_laptop) (Some ''other-user'') False s3 = (Inr False, s4)"
      "abs s4 = spec_both name contract_phone_used" "inv s4"
    using delete_refines [OF s3(3), of "pc_credential_id contract_laptop" "Some ''other-user''" False,
        unfolded s3(2) contract_spec_delete(1), THEN refined_Inr] delete_inv [OF s3(3)] by blast
  obtain s5 where s5: "delete (pc_credential_id contract_laptop) (Some ''user-1'') False s4 = (Inr True, s5)"
      "abs s5 = (spec_both name contract_phone_used)\<lparr>sp_creds := [pc_credential_id contract_phone \<mapsto> contract_phone_used]\<rparr>"
      "inv s5"
    using delete_refines [OF s4(3), of "pc_credential_id contract_laptop" "Some ''user-1''" False,
        unfolded s4(2) contract_spec_delete(2), THEN refined_Inr] delete_inv [OF s4(3)] by blast
  obtain cs where cs: "list_for ''user-1'' s2 = Inr cs" "set cs = spec_list (spec_both name contract_phone) ''user-1''"
    using list_spec [OF s2(3)] s2(2) by metis
  have reads: "get_user ''user-1'' s2 = Inr (Some (contract_user name))"
      "get_user_by_handle (pu_user_handle (contract_user name)) s2 = Inr (Some (contract_user name))"
      "get_cred (pc_credential_id contract_phone) s2 = Inr (Some contract_phone)"
      "get_cred (pc_credential_id contract_laptop) s5 = Inr None"
    by (simp_all add: get_user_spec by_handle_spec get_cred_spec s2 s5 spec_by_handle_def)
  have run: "expect_op (cas (pc_credential_id contract_phone) 3 4 (Some ''multi_device'') (Some True))
        (\<lambda>updated. pc_sign_count updated = 4 \<and> pc_device_type updated = Some ''multi_device''
           \<and> pc_backed_up updated = Some True) s2 = (Inr (), s3)"
      "expect_op (delete (pc_credential_id contract_laptop) (Some ''other-user'') False) Not s3 = (Inr (), s4)"
      "expect_op (delete (pc_credential_id contract_laptop) (Some ''user-1'') False) (\<lambda>b. b) s4 = (Inr (), s5)"
    by (simp_all add: expect_op_def op_bind_def s3(1) s4(1) s5(1) contract_phone_used_def)
  show ?thesis
    unfolding assert_credential_store_contract_def Let_def
    by (simp add: run_all_step s1(1) s2(1) run reads cs contract_spec_list del: run_all.simps(2))
qed

end

context challenge_store
begin

lemma contract_holds:
  assumes "inv s0" and clock: "valid_datetime t1" "valid_datetime t2" "valid_datetime t3" "valid_datetime t4"
    and order: "t2 < t1 + 300 * us_per_second" "t3 \<le> t4" "valid_datetime (t1 + 300 * us_per_second)"
      "valid_datetime (t3 - us_per_second)"
  shows "\<exists>s. assert_challenge_store_contract \<lparr>cs_save = save, cs_pop = pop\<rparr> t1 t2 t3 t4 s0 = (Inr (), s)"
proof -
  let ?a = "''authentication-flow''" and ?e = "''expired-flow''"
  obtain r where r: "challenge_record_for t1 ?a Authentication (utf8_encode ''challenge'') 300 None None = Inr r"
      "ch_challenge r = utf8_encode ''challenge''" "ch_expires_at r = t1 + 300 * us_per_second"
    using order(3) by (simp add: challenge_record_for_def add_seconds_def Let_def)
  obtain q where q: "challenge_record_for t3 ?e Authentication (utf8_encode ''expired'') (- 1) None None = Inr q"
      "ch_expires_at q = t3 - us_per_second"
    using order(4) by (simp add: challenge_record_for_def add_seconds_def Let_def)
  obtain s1 where s1: "save t1 ?a Authentication (utf8_encode ''challenge'') 300 None None s0 = (Inr r, s1)"
      "inv s1" "live s1 t2 ?a Authentication = Some r"
    using save_result [OF assms(1), of t1 ?a Authentication "utf8_encode ''challenge''" 300 None None]
      save_live [OF assms(1) r(1), of t2 ?a Authentication] save_inv [OF assms(1)] r(1,3) order(1)
    by (metis prod.collapse)
  obtain s2 where s2: "pop t2 ?a Authentication s1 = (Inr r, s2)" "inv s2"
    using pop_result [OF s1(2) clock(2), of ?a Authentication] pop_inv [OF s1(2)] s1(3)
    by (metis (no_types, lifting) option.simps(5) prod.collapse)
  obtain s3 where s3: "save t3 ?e Authentication (utf8_encode ''expired'') (- 1) None None s2 = (Inr q, s3)"
      "inv s3" "live s3 t4 ?e Authentication = None"
    using save_result [OF s2(2), of t3 ?e Authentication "utf8_encode ''expired''" "- 1" None None]
      save_live [OF s2(2) q(1), of t4 ?e Authentication] save_inv [OF s2(2)] q order(2)
    by (smt (verit) prod.collapse us_per_second_def)
  obtain s4 where s4: "pop t4 ?e Authentication s3 = (Inl (challenge_missing Authentication), s4)"
    using pop_result [OF s3(2) clock(4), of ?e Authentication] s3(3)
    by (metis (no_types, lifting) option.simps(4) prod.collapse)
  have run: "op_bind (save t1 ?a Authentication (utf8_encode ''challenge'') 300 None None) (\<lambda>_. return_op ()) s0 = (Inr (), s1)"
      "expect_op (pop t2 ?a Authentication) (\<lambda>r. ch_challenge r = utf8_encode ''challenge'') s1 = (Inr (), s2)"
      "op_bind (save t3 ?e Authentication (utf8_encode ''expired'') (- 1) None None) (\<lambda>_. return_op ()) s2 = (Inr (), s3)"
      "op_try (op_bind (pop t4 ?e Authentication)
           (\<lambda>_. raise_op (AssertionError ''expired challenge must be inaccessible'')))
         (\<lambda>e. case e of ChallengeNotFound _ \<Rightarrow> return_op () | _ \<Rightarrow> raise_op e) s3 = (Inr (), s4)"
    using s1(1) s2(1) s3(1) s4 r(2) by (simp_all add: op_bind_def op_try_def expect_op_Inr)
  show ?thesis
    using run by (simp add: assert_challenge_store_contract_def run_all_step del: run_all.simps(2))
qed

end

subsection \<open>A store in the transaction of its caller\<close>

definition empty_tables :: cred_db where
  "empty_tables = \<lparr>cd_users = [], cd_creds = []\<rparr>"

definition external_tables :: "datetime \<Rightarrow> cred_db" where
  "external_tables now = db_of [external_user] [external_credential now]"

lemma external_save_body:
  "save_body external_user (external_credential now) empty_tables = (Inr (), external_tables now)"
  by (simp add: save_body_def Let_def op_bind_def insert_user_def insert_cred_def empty_tables_def
      external_tables_def db_of_def sqlite_user_values_def sqlite_credential_values_def
      external_user_def external_credential_def sqlite_int_ok_def)

lemma external_reads:
  assumes "valid_datetime now"
  shows "sql_get_credential cid empty_tables = Inr None" "sql_get_user uid empty_tables = Inr None"
    "sql_get_user_by_handle h empty_tables = Inr None"
    "sql_get_credential (pc_credential_id (external_credential now)) (external_tables now) =
       Inr (Some (external_credential now))"
    "sql_get_user (pu_user_id external_user) (external_tables now) = Inr (Some external_user)"
proof -
  have ok: "lists_ok [external_user] [external_credential now]"
    using assms by (simp add: lists_ok_def cred_repr_def external_user_def external_credential_def sqlite_int_ok_def)
  show "sql_get_credential cid empty_tables = Inr None" "sql_get_user uid empty_tables = Inr None"
      "sql_get_user_by_handle h empty_tables = Inr None"
    by (simp_all add: empty_tables_def sql_get_credential_def sql_get_user_def sql_get_user_by_handle_def
        opt_user_def opt_cred_def select_by_def)
  show "sql_get_credential (pc_credential_id (external_credential now)) (external_tables now) =
       Inr (Some (external_credential now))"
    using opt_cred_select [OF ok, of "pc_credential_id (external_credential now)"]
    by (simp add: sql_get_credential_def external_tables_def select_by_Cons)
  show "sql_get_user (pu_user_id external_user) (external_tables now) = Inr (Some external_user)"
    by (simp add: sql_get_user_def external_tables_def select_by_Cons opt_user_def)
qed

abbreviation shared_conn :: "bool \<Rightarrow> cred_db shared_db \<Rightarrow> cred_db shared_db \<Rightarrow> cred_db shared_db conn" where
  "shared_conn open_tx now_db old_db \<equiv> \<lparr>committed = old_db, current = now_db, in_tx = open_tx, fk_on = True\<rparr>"

lemma external_save:
  "ks_save external_credentials \<lparr>vr_user = external_user, vr_credential = external_credential now, vr_context = None\<rparr>
     (shared_conn True (empty_tables, h) old) = (Inr (), shared_conn True (external_tables now, h) old)"
  by (simp add: external_credentials_def connection_def on_package_def external_save_body)
    (simp add: external_user_def external_credential_def)


subsection \<open>Properties\<close>

text \<open>
  The four stores of the package pass the contract assertions, with any display name and with
  a clock that moves by less than the five minutes between \<open>save\<close> and \<open>pop\<close>.
\<close>

theorem stores_keep_published_contracts:
  assumes "valid_datetime t1" "valid_datetime t2" "valid_datetime t3" "valid_datetime t4"
    and "t2 < t1 + 300 * us_per_second" "valid_datetime (t1 + 300 * us_per_second)"
    and "t3 \<le> t4" "valid_datetime (t3 - us_per_second)"
  shows "fst (assert_credential_store_contract memory_credentials name mem_creds_init) = Inr ()
    \<and> fst (assert_credential_store_contract sqlite_credentials name empty_tables) = Inr ()
    \<and> fst (assert_challenge_store_contract memory_challenges t1 t2 t3 t4 []) = Inr ()
    \<and> fst (assert_challenge_store_contract sqlite_challenges t1 t2 t3 t4 []) = Inr ()"
proof -
  have repr: "cred_repr contract_phone" "cred_repr contract_laptop"
    by (simp_all add: cred_repr_def contract_phone_def contract_laptop_def contract_start_def valid_datetime_def
        datetime_max_def us_per_second_def sqlite_int_ok_def)
  have "\<exists>s. assert_credential_store_contract memory_credentials name mem_creds_init = (Inr (), s)"
    unfolding memory_credentials_def by (rule memc.contract_holds) (simp_all add: mem_reg_ok_def)
  moreover have "\<exists>s. assert_credential_store_contract sqlite_credentials name empty_tables = (Inr (), s)"
    unfolding sqlite_credentials_def empty_tables_def
    by (rule sqlc.contract_holds) (simp_all add: sql_reg_ok_def repr sqlite_int_ok_def)
  moreover have "\<exists>s. assert_challenge_store_contract memory_challenges t1 t2 t3 t4 [] = (Inr (), s)"
    unfolding memory_challenges_def by (rule mem.contract_holds) (use assms in simp_all)
  moreover have "\<exists>s. assert_challenge_store_contract sqlite_challenges t1 t2 t3 t4 [] = (Inr (), s)"
    unfolding sqlite_challenges_def
    by (rule sql.contract_holds) (use assms in \<open>simp_all add: challenge_table_ok_def\<close>)
  ultimately show ?thesis by auto
qed

lemma stores_keep_published_contracts_witness:
  "fst (assert_challenge_store_contract sqlite_challenges contract_start contract_start contract_start contract_start []) = Inr ()"
  using stores_keep_published_contracts [of contract_start contract_start contract_start contract_start]
  by (simp add: contract_start_def valid_datetime_def datetime_max_def us_per_second_def)

text \<open>A store that commits what its caller has not: the counterexample of the package's own tests.\<close>

definition committing :: "'db conn credential_ops \<Rightarrow> 'db conn credential_ops" where
  "committing store = store\<lparr>ks_save := \<lambda>vr. op_bind (ks_save store vr) (\<lambda>_ c. (Inr (), conn_commit c))\<rparr>"

text \<open>
  C38: over a current schema the SQLite store in external mode passes the transaction contract: it
  leaves the caller's transaction open, a rollback takes its rows and the host's, a commit keeps
  both. The same store with a hidden commit fails it.
\<close>

theorem external_contract_detects_hidden_commit:
  assumes "valid_datetime now" and "\<And>db. inspect db = (''current'', [])"
    and "schema_initializer c0 = (Inr (), shared_conn False (empty_tables, None) (empty_tables, None))"
  shows "assert_external_transaction_contract (external_credential_store inspect) schema_initializer now c0 = Inr ()
    \<and> assert_external_transaction_contract (map_sum id committing \<circ> external_credential_store inspect)
        schema_initializer now c0 = Inl (AssertionError ''store committed the caller transaction'')"
proof -
  have store: "external_credential_store inspect (shared_conn True db old) = Inr external_credentials" for db old
    by (simp add: external_credential_store_def sqlite_base_init_def checked_db_def assms(2))
  have reads: "ks_get external_credentials cid c = sql_get_credential cid (fst (current c))"
    "ks_get_user external_credentials uid c = sql_get_user uid (fst (current c))"
    "ks_by_handle external_credentials h c = sql_get_user_by_handle h (fst (current c))" for cid uid h and c :: "(cred_db \<times> string list option) conn"
    by (simp_all add: external_credentials_def)
  note steps = assms(3) execute_ddl_def create_host_records_def conn_begin_def store execute_dml_def
    insert_host_record_def external_save conn_rollback_def conn_commit_def host_records_def reads
    external_reads [OF assms(1)] op_bind_def expect_def py_assert_def
  show ?thesis
    unfolding assert_external_transaction_contract_def Let_def
    by (simp add: steps committing_def)
qed

lemma external_contract_detects_hidden_commit_witness:
  "assert_external_transaction_contract (external_credential_store (\<lambda>_. (''current'', [])))
     (\<lambda>c. (Inr (), shared_conn False (empty_tables, None) (empty_tables, None))) contract_start
     (fresh_conn (empty_tables, None)) = Inr ()"
  using external_contract_detects_hidden_commit [of contract_start "\<lambda>_. (''current'', [])"
      "\<lambda>c. (Inr (), shared_conn False (empty_tables, None) (empty_tables, None))" "fresh_conn (empty_tables, None)"]
  by (simp add: contract_start_def valid_datetime_def datetime_max_def us_per_second_def)

end
