(* ===== verification/UiCopy.thy ===== *)
theory UiCopy
  imports Prelude
begin

section \<open>The texts of the pages (\<open>i18n.py\<close>)\<close>

text \<open>
  The tables of copy in English, Polish and German, key by key in the order of the source, and
  \<open>ui_copy\<close>, which picks one. Their texts leave Latin-1, so a text is a list of code points:
  \<open>ascii\<close> reads a literal, the other characters are written as numbers. The keys are ASCII and stay
  strings. \<open>json_object\<close> is \<open>json.dumps(copy, ensure_ascii=False, separators=(",", ":"))\<close>, the text
  that the pages embed for the browser. \<open>template_reads\<close> and \<open>script_reads\<close> list the keys that the
  packaged templates (with what they include) and \<open>passkey-ui.js\<close> look up.
\<close>

type_synonym utext = "nat list"
type_synonym copy_table = "(string \<times> utext) list"

definition ascii :: "string \<Rightarrow> utext" where
  "ascii s = map of_char s"

subsection \<open>The tables\<close>

definition copy_en :: copy_table where
  "copy_en =
    [(''login_page_title'', ascii ''Sign in with a passkey''),
     (''login_eyebrow'', ascii ''Passkey sign in''),
     (''login_heading'', ascii ''Sign in without a password''),
     (''login_description'', ascii ''Use your device passkey prompt to continue.''),
     (''login_submit'', ascii ''Continue with passkey''),
     (''login_username_label'', ascii ''Username (optional)''),
     (''login_hybrid'', ascii ''Sign in with a phone (QR code)''),
     (''login_waiting'', ascii ''Waiting for the WebAuthn passkey prompt.''),
     (''register_page_title'', ascii ''Create an account''),
     (''register_eyebrow'', ascii ''Account registration''),
     (''register_heading'', ascii ''Create your account''),
     (''register_description'', ascii ''Choose a username and create a passkey for your new account.''),
     (''register_username_label'', ascii ''Username''),
     (''register_username_placeholder'', ascii ''username''),
     (''register_username_title'', ascii ''Username is required and must not contain spaces''),
     (''register_display_name_label'', ascii ''Display name (optional)''),
     (''register_display_name_placeholder'', ascii ''Your name''),
     (''register_submit'', ascii ''Create account''),
     (''register_waiting'', ascii ''Waiting for registration details.''),
     (''activation_page_title'', ascii ''Activate your account''),
     (''activation_eyebrow'', ascii ''Account invitation''),
     (''activation_heading'', ascii ''Activate your account''),
     (''activation_description'', ascii ''Create a passkey for the account in this invitation.''),
     (''activation_submit'', ascii ''Activate account''),
     (''activation_waiting'', ascii ''Waiting for account activation.''),
     (''recovery_page_title'', ascii ''Recover account access''),
     (''recovery_eyebrow'', ascii ''Account recovery''),
     (''recovery_heading'', ascii ''Recover access''),
     (''recovery_description'', ascii ''Create a new passkey for the account bound to this recovery link.''),
     (''recovery_submit'', ascii ''Recover access''),
     (''recovery_waiting'', ascii ''Waiting for account recovery.''),
     (''capability_unavailable'', ascii ''This link is invalid or no longer available. Request a new link.''),
     (''credentials_page_title'', ascii ''Your passkeys''),
     (''credentials_heading'', ascii ''Your passkeys''),
     (''credentials_description'', ascii ''Add, label, and remove passkeys owned by your account.''),
     (''credentials_add'', ascii ''Add passkey''),
     (''credentials_unnamed'', ascii ''Unnamed passkey''),
     (''credentials_created'', ascii ''Created''),
     (''credentials_label'', ascii ''Passkey label''),
     (''credentials_save'', ascii ''Save label''),
     (''credentials_remove'', ascii ''Remove''),
     (''credentials_empty'', ascii ''No passkeys are registered.''),
     (''credentials_device_bound'', ascii ''Device-bound''),
     (''credentials_backup_eligible'', ascii ''Backup eligible; not backed up''),
     (''credentials_backed_up'', ascii ''Backed up''),
     (''credentials_backup_unknown'', ascii ''Backup status unknown''),
     (''confirm_credential_removal'', ascii ''Remove this passkey?''),
     (''noscript'', ascii ''WebAuthn passkeys require JavaScript and a browser with PublicKeyCredential support.''),
     (''loading'', ascii ''Loading'' @ [0x2026]),
     (''js_login_success'', ascii ''Passkey sign-in succeeded.''),
     (''js_register_success'', ascii ''Passkey registration succeeded.''),
     (''js_insecure_context'', ascii ''Passkeys require a secure HTTPS connection.''),
     (''js_unsupported'', ascii ''This browser does not support WebAuthn passkeys with PublicKeyCredential.''),
     (''js_waiting_prompt'', ascii ''Waiting for your passkey prompt.''),
     (''js_hybrid_prompt'', ascii ''In the passkey prompt, choose another device and scan the QR code.''),
     (''js_request_failed'', ascii ''Passkey request failed.''),
     (''js_username_required'', ascii ''Username is required.''),
     (''js_username_spaces'', ascii ''Username must not contain spaces.'')]"

definition copy_pl :: copy_table where
  "copy_pl =
    [(''credentials_device_bound'', ascii ''Przypisany do urz'' @ [0x105] @ ascii ''dzenia''),
     (''credentials_backup_eligible'', ascii ''Mo'' @ [0x17C] @
       ascii ''liwa kopia zapasowa; jeszcze niewykonana''),
     (''credentials_backed_up'', ascii ''Kopia zapasowa wykonana''),
     (''credentials_backup_unknown'', ascii ''Nieznany stan kopii zapasowej''),
     (''login_page_title'', ascii ''Zaloguj si'' @ [0x119] @ ascii '' kluczem dost'' @ [0x119] @
       ascii ''pu''),
     (''login_eyebrow'', ascii ''Logowanie kluczem''),
     (''login_heading'', ascii ''Zaloguj si'' @ [0x119] @ ascii '' bez has'' @ [0x142] @ ascii ''a''),
     (''login_description'', ascii ''U'' @ [0x17C] @ ascii ''yj monitu klucza dost'' @ [0x119] @
       ascii ''pu na urz'' @ [0x105] @ ascii ''dzeniu, aby kontynuowa'' @ [0x107] @ ascii ''.''),
     (''login_submit'', ascii ''Kontynuuj z kluczem dost'' @ [0x119] @ ascii ''pu''),
     (''login_username_label'', ascii ''Nazwa u'' @ [0x17C] @ ascii ''ytkownika (opcjonalnie)''),
     (''login_hybrid'', ascii ''Zaloguj si'' @ [0x119] @ ascii '' telefonem (kod QR)''),
     (''login_waiting'', ascii ''Oczekiwanie na monit WebAuthn klucza dost'' @ [0x119] @ ascii ''pu.''),
     (''register_page_title'', ascii ''Utw'' @ [0xF3] @ ascii ''rz konto''),
     (''register_eyebrow'', ascii ''Rejestracja konta''),
     (''register_heading'', ascii ''Utw'' @ [0xF3] @ ascii ''rz swoje konto''),
     (''register_description'', ascii ''Wybierz nazw'' @ [0x119] @ ascii '' u'' @ [0x17C] @
       ascii ''ytkownika i utw'' @ [0xF3] @ ascii ''rz klucz dost'' @ [0x119] @
       ascii ''pu do nowego konta.''),
     (''register_username_label'', ascii ''Nazwa u'' @ [0x17C] @ ascii ''ytkownika''),
     (''register_username_placeholder'', ascii ''nazwa u'' @ [0x17C] @ ascii ''ytkownika''),
     (''register_username_title'', ascii ''Nazwa u'' @ [0x17C] @
       ascii ''ytkownika jest wymagana i nie mo'' @ [0x17C] @ ascii ''e zawiera'' @ [0x107] @
       ascii '' spacji''),
     (''register_display_name_label'', ascii ''Nazwa wy'' @ [0x15B] @ ascii ''wietlana (opcjonalnie)''),
     (''register_display_name_placeholder'', ascii ''Twoje imi'' @ [0x119] @ ascii '' i nazwisko''),
     (''register_submit'', ascii ''Utw'' @ [0xF3] @ ascii ''rz konto''),
     (''register_waiting'', ascii ''Oczekiwanie na dane rejestracji.''),
     (''activation_page_title'', ascii ''Aktywuj konto''),
     (''activation_eyebrow'', ascii ''Zaproszenie do konta''),
     (''activation_heading'', ascii ''Aktywuj konto''),
     (''activation_description'', ascii ''Utw'' @ [0xF3] @ ascii ''rz klucz dost'' @ [0x119] @
       ascii ''pu dla konta wskazanego w zaproszeniu.''),
     (''activation_submit'', ascii ''Aktywuj konto''),
     (''activation_waiting'', ascii ''Oczekiwanie na aktywacj'' @ [0x119] @ ascii '' konta.''),
     (''recovery_page_title'', ascii ''Odzyskaj dost'' @ [0x119] @ ascii ''p do konta''),
     (''recovery_eyebrow'', ascii ''Odzyskiwanie konta''),
     (''recovery_heading'', ascii ''Odzyskaj dost'' @ [0x119] @ ascii ''p''),
     (''recovery_description'', ascii ''Utw'' @ [0xF3] @ ascii ''rz nowy klucz dost'' @ [0x119] @
       ascii ''pu dla konta przypisanego do tego odno'' @ [0x15B] @ ascii ''nika odzyskiwania.''),
     (''recovery_submit'', ascii ''Odzyskaj dost'' @ [0x119] @ ascii ''p''),
     (''recovery_waiting'', ascii ''Oczekiwanie na odzyskanie dost'' @ [0x119] @ ascii ''pu.''),
     (''capability_unavailable'', ascii ''Ten odno'' @ [0x15B] @ ascii ''nik jest nieprawid'' @
       [0x142] @ ascii ''owy lub nie jest ju'' @ [0x17C] @ ascii '' dost'' @ [0x119] @
       ascii ''pny. Popro'' @ [0x15B] @ ascii '' o nowy odno'' @ [0x15B] @ ascii ''nik.''),
     (''credentials_page_title'', ascii ''Twoje klucze dost'' @ [0x119] @ ascii ''pu''),
     (''credentials_heading'', ascii ''Twoje klucze dost'' @ [0x119] @ ascii ''pu''),
     (''credentials_description'', ascii ''Dodawaj, nazywaj i usuwaj klucze nale'' @ [0x17C, 0x105] @
       ascii ''ce do Twojego konta.''),
     (''credentials_add'', ascii ''Dodaj klucz dost'' @ [0x119] @ ascii ''pu''),
     (''credentials_unnamed'', ascii ''Klucz bez nazwy''),
     (''credentials_created'', ascii ''Utworzono''),
     (''credentials_label'', ascii ''Nazwa klucza''),
     (''credentials_save'', ascii ''Zapisz nazw'' @ [0x119]),
     (''credentials_remove'', ascii ''Usu'' @ [0x144]),
     (''credentials_empty'', ascii ''Nie zarejestrowano kluczy dost'' @ [0x119] @ ascii ''pu.''),
     (''confirm_credential_removal'', ascii ''Usun'' @ [0x105, 0x107] @ ascii '' ten klucz dost'' @
       [0x119] @ ascii ''pu?''),
     (''noscript'', ascii ''Klucze WebAuthn wymagaj'' @ [0x105] @ ascii '' JavaScriptu oraz przegl'' @
       [0x105] @ ascii ''darki z obs'' @ [0x142] @ ascii ''ug'' @ [0x105] @
       ascii '' PublicKeyCredential.''),
     (''loading'', [0x141] @ ascii ''adowanie'' @ [0x2026]),
     (''js_login_success'', ascii ''Logowanie kluczem dost'' @ [0x119] @ ascii ''pu powiod'' @
       [0x142] @ ascii ''o si'' @ [0x119] @ ascii ''.''),
     (''js_register_success'', ascii ''Rejestracja klucza dost'' @ [0x119] @ ascii ''pu powiod'' @
       [0x142] @ ascii ''a si'' @ [0x119] @ ascii ''.''),
     (''js_insecure_context'', ascii ''Klucze dost'' @ [0x119] @ ascii ''pu wymagaj'' @ [0x105] @
       ascii '' bezpiecznego po'' @ [0x142, 0x105] @ ascii ''czenia HTTPS.''),
     (''js_unsupported'', ascii ''Ta przegl'' @ [0x105] @ ascii ''darka nie obs'' @ [0x142] @
       ascii ''uguje kluczy WebAuthn (PublicKeyCredential).''),
     (''js_waiting_prompt'', ascii ''Oczekiwanie na monit klucza dost'' @ [0x119] @ ascii ''pu.''),
     (''js_hybrid_prompt'', ascii ''W monicie klucza wybierz inne urz'' @ [0x105] @
       ascii ''dzenie i zeskanuj kod QR.''),
     (''js_request_failed'', [0x17B, 0x105] @ ascii ''danie klucza dost'' @ [0x119] @
       ascii ''pu nie powiod'' @ [0x142] @ ascii ''o si'' @ [0x119] @ ascii ''.''),
     (''js_username_required'', ascii ''Nazwa u'' @ [0x17C] @ ascii ''ytkownika jest wymagana.''),
     (''js_username_spaces'', ascii ''Nazwa u'' @ [0x17C] @ ascii ''ytkownika nie mo'' @ [0x17C] @
       ascii ''e zawiera'' @ [0x107] @ ascii '' spacji.'')]"

definition copy_de :: copy_table where
  "copy_de =
    [(''login_page_title'', ascii ''Mit Passkey anmelden''),
     (''login_eyebrow'', ascii ''Passkey-Anmeldung''),
     (''login_heading'', ascii ''Ohne Passwort anmelden''),
     (''login_description'', ascii ''Nutzen Sie die Passkey-Aufforderung Ihres Ger'' @ [0xE4] @
       ascii ''ts, um fortzufahren.''),
     (''login_submit'', ascii ''Mit Passkey fortfahren''),
     (''login_username_label'', ascii ''Benutzername (optional)''),
     (''login_hybrid'', ascii ''Mit einem Telefon anmelden (QR-Code)''),
     (''login_waiting'', ascii ''Warten auf die WebAuthn-Passkey-Aufforderung.''),
     (''register_page_title'', ascii ''Passkey registrieren''),
     (''register_eyebrow'', ascii ''Passkey-Registrierung''),
     (''register_heading'', ascii ''Passkey erstellen''),
     (''register_description'', ascii ''F'' @ [0xFC] @
       ascii ''gen Sie dem aktuellen Konto einen Passkey hinzu, ohne die Registrierungsrichtlinie des Hosts zu '' @
       [0xE4] @ ascii ''ndern.''),
     (''register_username_label'', ascii ''Benutzername''),
     (''register_username_placeholder'', ascii ''benutzername''),
     (''register_username_title'', ascii ''Benutzername ist erforderlich und darf keine Leerzeichen enthalten''),
     (''register_display_name_label'', ascii ''Anzeigename (optional)''),
     (''register_display_name_placeholder'', ascii ''Ihr Name''),
     (''register_submit'', ascii ''Passkey erstellen''),
     (''register_waiting'', ascii ''Warten auf Registrierungsdaten.''),
     (''activation_page_title'', ascii ''Konto aktivieren''),
     (''activation_eyebrow'', ascii ''Kontoeinladung''),
     (''activation_heading'', ascii ''Konto aktivieren''),
     (''activation_description'', ascii ''Erstellen Sie einen Passkey f'' @ [0xFC] @
       ascii ''r das in dieser Einladung angegebene Konto.''),
     (''activation_submit'', ascii ''Konto aktivieren''),
     (''activation_waiting'', ascii ''Warten auf die Kontoaktivierung.''),
     (''recovery_page_title'', ascii ''Kontozugriff wiederherstellen''),
     (''recovery_eyebrow'', ascii ''Kontowiederherstellung''),
     (''recovery_heading'', ascii ''Zugriff wiederherstellen''),
     (''recovery_description'', ascii ''Erstellen Sie einen neuen Passkey f'' @ [0xFC] @
       ascii ''r das mit diesem Wiederherstellungslink verkn'' @ [0xFC] @ ascii ''pfte Konto.''),
     (''recovery_submit'', ascii ''Zugriff wiederherstellen''),
     (''recovery_waiting'', ascii ''Warten auf die Kontowiederherstellung.''),
     (''capability_unavailable'', ascii ''Dieser Link ist ung'' @ [0xFC] @
       ascii ''ltig oder nicht mehr verf'' @ [0xFC] @
       ascii ''gbar. Fordern Sie einen neuen Link an.''),
     (''credentials_page_title'', ascii ''Ihre Passkeys''),
     (''credentials_heading'', ascii ''Ihre Passkeys''),
     (''credentials_description'', ascii ''F'' @ [0xFC] @
       ascii ''gen Sie Passkeys Ihres Kontos hinzu, benennen oder entfernen Sie sie.''),
     (''credentials_add'', ascii ''Passkey hinzuf'' @ [0xFC] @ ascii ''gen''),
     (''credentials_unnamed'', ascii ''Unbenannter Passkey''),
     (''credentials_created'', ascii ''Erstellt''),
     (''credentials_label'', ascii ''Passkey-Bezeichnung''),
     (''credentials_save'', ascii ''Bezeichnung speichern''),
     (''credentials_remove'', ascii ''Entfernen''),
     (''credentials_empty'', ascii ''Keine Passkeys registriert.''),
     (''credentials_device_bound'', ascii ''Ger'' @ [0xE4] @ ascii ''tegebunden''),
     (''credentials_backup_eligible'', ascii ''Sicherung m'' @ [0xF6] @
       ascii ''glich; noch nicht gesichert''),
     (''credentials_backed_up'', ascii ''Gesichert''),
     (''credentials_backup_unknown'', ascii ''Sicherungsstatus unbekannt''),
     (''confirm_credential_removal'', ascii ''Diesen Passkey entfernen?''),
     (''noscript'', ascii ''WebAuthn-Passkeys erfordern JavaScript und einen Browser mit PublicKeyCredential-Unterst'' @
       [0xFC] @ ascii ''tzung.''),
     (''loading'', ascii ''Laden'' @ [0x2026]),
     (''js_login_success'', ascii ''Passkey-Anmeldung erfolgreich.''),
     (''js_register_success'', ascii ''Passkey-Registrierung erfolgreich.''),
     (''js_insecure_context'', ascii ''Passkeys erfordern eine sichere HTTPS-Verbindung.''),
     (''js_unsupported'', ascii ''Dieser Browser unterst'' @ [0xFC] @
       ascii ''tzt keine WebAuthn-Passkeys (PublicKeyCredential).''),
     (''js_waiting_prompt'', ascii ''Warten auf Ihre Passkey-Aufforderung.''),
     (''js_hybrid_prompt'', ascii ''W'' @ [0xE4] @ ascii ''hlen Sie ein anderes Ger'' @ [0xE4] @
       ascii ''t und scannen Sie den QR-Code.''),
     (''js_request_failed'', ascii ''Passkey-Anfrage fehlgeschlagen.''),
     (''js_username_required'', ascii ''Benutzername ist erforderlich.''),
     (''js_username_spaces'', ascii ''Benutzername darf keine Leerzeichen enthalten.'')]"

definition ui_tables :: "string \<Rightarrow> copy_table option" where
  "ui_tables = map_of [(''en'', copy_en), (''pl'', copy_pl), (''de'', copy_de)]"

text \<open>The last branch is \<open>_COPY["en"]\<close>, a \<open>KeyError\<close> when even English is missing.\<close>

definition ui_copy :: "string \<Rightarrow> string \<Rightarrow> copy_table result" where
  "ui_copy locale dflt =
     (case ui_tables locale of Some table \<Rightarrow> Inr table | None \<Rightarrow>
      case ui_tables dflt of Some table \<Rightarrow> Inr table | None \<Rightarrow>
      case ui_tables ''en'' of Some table \<Rightarrow> Inr table | None \<Rightarrow> Inl (KeyError ''en''))"

subsection \<open>The JSON text of a table\<close>

text \<open>
  With \<open>ensure_ascii=False\<close> the encoder escapes the quote, the backslash and the characters below 32
  and leaves every other character as it is.
\<close>

definition hex_digit :: "nat \<Rightarrow> nat" where
  "hex_digit n = (if n < 10 then 48 + n else 87 + n)"

definition json_escape_char :: "nat \<Rightarrow> utext" where
  "json_escape_char n =
     (if n = 0x22 then [0x5C, 0x22] else if n = 0x5C then [0x5C, 0x5C]
      else if n = 8 then ascii (CHR 0x5C # ''b'') else if n = 9 then ascii (CHR 0x5C # ''t'')
      else if n = 10 then ascii (CHR 0x5C # ''n'') else if n = 12 then ascii (CHR 0x5C # ''f'')
      else if n = 13 then ascii (CHR 0x5C # ''r'')
      else if n < 32 then ascii (CHR 0x5C # ''u00'') @ [hex_digit (n div 16), hex_digit (n mod 16)]
      else [n])"

definition json_text :: "utext \<Rightarrow> utext" where
  "json_text s = 0x22 # concat (map json_escape_char s) @ [0x22]"

fun json_members :: "copy_table \<Rightarrow> utext" where
  "json_members [] = []"
| "json_members [(k, t)] = json_text (ascii k) @ 0x3A # json_text t"
| "json_members ((k, t) # rest) = json_text (ascii k) @ 0x3A # json_text t @ 0x2C # json_members rest"

definition json_object :: "copy_table \<Rightarrow> utext" where
  "json_object table = 0x7B # json_members table @ [0x7D]"

subsection \<open>The keys that the pages read\<close>

definition login_panel_reads :: "string list" where
  "login_panel_reads = [''login_eyebrow'', ''login_heading'', ''login_description'', ''login_username_label'',
     ''login_submit'', ''login_hybrid'', ''register_page_title'', ''login_waiting'', ''noscript'']"

definition register_panel_reads :: "string list" where
  "register_panel_reads = [''register_eyebrow'', ''register_heading'', ''register_description'',
     ''register_username_label'', ''register_username_placeholder'', ''register_username_title'',
     ''register_display_name_label'', ''register_display_name_placeholder'', ''register_submit'',
     ''register_waiting'', ''noscript'']"

definition capability_reads :: "string list" where
  "capability_reads = [''activation_page_title'', ''recovery_page_title'', ''loading'', ''activation_eyebrow'',
     ''recovery_eyebrow'', ''activation_heading'', ''recovery_heading'', ''activation_description'',
     ''recovery_description'', ''activation_submit'', ''recovery_submit'', ''activation_waiting'',
     ''recovery_waiting'', ''noscript'']"

definition management_reads :: "string list" where
  "management_reads = [''credentials_page_title'', ''credentials_heading'', ''credentials_description'',
     ''credentials_add'', ''credentials_unnamed'', ''credentials_backed_up'', ''credentials_backup_eligible'',
     ''credentials_device_bound'', ''credentials_backup_unknown'', ''credentials_created'',
     ''credentials_label'', ''credentials_save'', ''credentials_remove'', ''credentials_empty'']"

definition template_reads :: "string \<Rightarrow> string list" where
  "template_reads template =
     (if template = ''login.html'' then [''login_page_title'', ''loading''] @ login_panel_reads
      else if template = ''register.html'' then [''register_page_title'', ''loading''] @ register_panel_reads
      else if template = ''capability_registration.html'' then capability_reads
      else if template = ''credential_management.html'' then management_reads
      else if template = ''account_panel.html'' then register_panel_reads else [])"

definition script_reads :: "string list" where
  "script_reads = [''js_login_success'', ''js_register_success'', ''js_insecure_context'', ''js_unsupported'',
     ''js_waiting_prompt'', ''js_hybrid_prompt'', ''js_request_failed'', ''js_username_required'',
     ''js_username_spaces'', ''confirm_credential_removal'']"

subsection \<open>The tables are complete\<close>

text \<open>
  A table is fit for the pages when each key is there once, every key that is read has a text, and no
  text holds a less-than sign.
\<close>

definition fit_copy :: "copy_table \<Rightarrow> bool" where
  "fit_copy table \<longleftrightarrow> distinct (map fst table) \<and> set (map fst table) = set (map fst copy_en)
     \<and> list_all (\<lambda>(k, t). t \<noteq> [] \<and> 0x3C \<notin> set (ascii k) \<and> 0x3C \<notin> set t) table"

lemma ascii_lt [simp]: "0x3C \<in> set (ascii s) \<longleftrightarrow> CHR ''<'' \<in> set s"
proof -
  have "(of_char c = (0x3C :: nat)) = (c = CHR ''<'')" for c
    using of_char_eq_iff [of c "CHR ''<''"] by simp
  then show ?thesis by (auto simp: ascii_def image_iff eq_commute)
qed

lemma ascii_Nil [simp]: "ascii s = [] \<longleftrightarrow> s = []"
  by (simp add: ascii_def)

abbreviation texts_ok :: "copy_table \<Rightarrow> bool" where
  "texts_ok \<equiv> list_all (\<lambda>(k, t). t \<noteq> [] \<and> 0x3C \<notin> set (ascii k) \<and> 0x3C \<notin> set t)"

lemma texts_en: "texts_ok copy_en" and texts_pl: "texts_ok copy_pl" and texts_de: "texts_ok copy_de"
  by (simp_all add: copy_en_def copy_pl_def copy_de_def)

lemma keys_pl: "set (map fst copy_pl) = set (map fst copy_en)"
  unfolding copy_pl_def copy_en_def list.map fst_conv list.set set_eq_subset insert_subset
  by (intro conjI empty_subsetI; (rule insertI1 | rule insertI2)+)

lemma keys_de: "set (map fst copy_de) = set (map fst copy_en)"
  unfolding copy_de_def copy_en_def list.map fst_conv list.set set_eq_subset insert_subset
  by (intro conjI empty_subsetI; (rule insertI1 | rule insertI2)+)

lemma distinct_en: "distinct (map fst copy_en)"
  by (simp add: copy_en_def)

lemma sizes: "length copy_pl = length copy_en" "length copy_de = length copy_en"
  by (simp_all add: copy_pl_def copy_de_def copy_en_def)

lemma distinct_same_keys:
  "distinct (map fst xs) \<Longrightarrow> set (map fst ys) = set (map fst xs) \<Longrightarrow> length ys = length xs
   \<Longrightarrow> distinct (map fst ys)"
  by (metis card_distinct distinct_card length_map)

lemma fit_en: "fit_copy copy_en"
  unfolding fit_copy_def using distinct_en texts_en by blast

lemma fit_pl: "fit_copy copy_pl"
  unfolding fit_copy_def using distinct_same_keys [OF distinct_en keys_pl sizes(1)] keys_pl texts_pl by blast

lemma fit_de: "fit_copy copy_de"
  unfolding fit_copy_def using distinct_same_keys [OF distinct_en keys_de sizes(2)] keys_de texts_de by blast

lemma ui_tables_fit: "ui_tables locale = Some table \<Longrightarrow> fit_copy table"
  by (auto simp: ui_tables_def fit_en fit_pl fit_de split: if_splits)

lemma ui_tables_en: "ui_tables ''en'' = Some copy_en"
  by (simp add: ui_tables_def)

text \<open>So \<open>ui_copy\<close> has an answer for every locale: \<open>_COPY["en"]\<close> cannot fail.\<close>

lemma ui_copy_fit: "\<exists>table. ui_copy locale dflt = Inr table \<and> fit_copy table"
  by (auto simp: ui_copy_def ui_tables_en fit_en split: option.splits dest: ui_tables_fit)

lemma fit_copy_reads:
  assumes "fit_copy table" and "key \<in> set (map fst copy_en)"
  shows "\<exists>t. map_of table key = Some t \<and> t \<noteq> []"
proof -
  have keys: "set (map fst table) = set (map fst copy_en)" and texts: "texts_ok table"
    using assms(1) unfolding fit_copy_def by blast+
  have "key \<in> set (map fst table)" using assms(2) unfolding keys .
  then obtain t where t: "map_of table key = Some t" by (metis map_of_eq_None_iff not_None_eq list.set_map)
  have "case (key, t) of (k, t) \<Rightarrow> t \<noteq> [] \<and> 0x3C \<notin> set (ascii k) \<and> 0x3C \<notin> set t"
    using texts map_of_SomeD [OF t] unfolding list_all_iff by (rule bspec)
  then show ?thesis using t by simp
qed

lemma login_panel_listed: "set login_panel_reads \<subseteq> set (map fst copy_en)"
  unfolding login_panel_reads_def copy_en_def list.map fst_conv list.set insert_subset
  by (intro conjI empty_subsetI; (rule insertI1 | rule insertI2)+)

lemma register_panel_listed: "set register_panel_reads \<subseteq> set (map fst copy_en)"
  unfolding register_panel_reads_def copy_en_def list.map fst_conv list.set insert_subset
  by (intro conjI empty_subsetI; (rule insertI1 | rule insertI2)+)

lemma capability_listed: "set capability_reads \<subseteq> set (map fst copy_en)"
  unfolding capability_reads_def copy_en_def list.map fst_conv list.set insert_subset
  by (intro conjI empty_subsetI; (rule insertI1 | rule insertI2)+)

lemma management_listed: "set management_reads \<subseteq> set (map fst copy_en)"
  unfolding management_reads_def copy_en_def list.map fst_conv list.set insert_subset
  by (intro conjI empty_subsetI; (rule insertI1 | rule insertI2)+)

lemma titles_listed:
  "set [''login_page_title'', ''register_page_title'', ''loading''] \<subseteq> set (map fst copy_en)"
  unfolding copy_en_def list.map fst_conv list.set insert_subset
  by (intro conjI empty_subsetI; (rule insertI1 | rule insertI2)+)

lemmas panels_listed = login_panel_listed register_panel_listed capability_listed management_listed titles_listed

lemma template_reads_listed: "set (template_reads template) \<subseteq> set (map fst copy_en)"
  unfolding template_reads_def by (simp only: split: if_split) (use panels_listed in simp)

lemma script_reads_listed: "set script_reads \<subseteq> set (map fst copy_en)"
  unfolding script_reads_def copy_en_def list.map fst_conv list.set insert_subset
  by (intro conjI empty_subsetI; (rule insertI1 | rule insertI2)+)

subsection \<open>The JSON text cannot close the element it stands in\<close>

lemma hex_digit_lt: "n < 16 \<Longrightarrow> hex_digit n \<noteq> 0x3C"
  by (simp add: hex_digit_def)

lemma json_escape_char_lt: "0x3C \<in> set (json_escape_char n) \<longleftrightarrow> n = 0x3C"
  using hex_digit_lt [of "n div 16"] hex_digit_lt [of "n mod 16"]
  by (auto simp: json_escape_char_def)

lemma json_text_lt: "0x3C \<in> set (json_text s) \<longleftrightarrow> 0x3C \<in> set s"
  by (auto simp: json_text_def json_escape_char_lt)

lemma json_members_lt:
  "list_all (\<lambda>(k, t). 0x3C \<notin> set (ascii k) \<and> 0x3C \<notin> set t) table \<Longrightarrow> 0x3C \<notin> set (json_members table)"
  by (induction table rule: json_members.induct) (simp_all add: json_text_lt)

lemma fit_copy_json: "fit_copy table \<Longrightarrow> 0x3C \<notin> set (json_object table)"
  by (auto simp: fit_copy_def json_object_def list_all_iff intro!: json_members_lt)

end
