(* ===== verification/UiPages.thy ===== *)
theory UiPages
  imports Htmx UiCopy RouterProperties
begin

section \<open>Rendering the HTMX pages (\<open>PasskeyTemplateRenderer\<close> in \<open>templates.py\<close>)\<close>

text \<open>
  A page is the template and the context it is rendered with; \<open>rn_jinja\<close> is Jinja's
  \<open>get_template(name).render\<close>, \<open>rn_csrf_token\<close> the callback of the configuration, \<open>rn_platform\<close> the
  context that \<open>app_factory\<close> leaves on \<open>request.state\<close>. \<open>pg_copy\<close> and \<open>pg_t_json\<close> are the names \<open>t\<close>
  and \<open>t_json\<close> of the templates: the texts of the page and their JSON, which is embedded unescaped.
\<close>

subsection \<open>The context of a page\<close>

record page =
  pg_template :: string
  pg_request :: http_request
  pg_paths :: passkey_paths
  pg_js_url :: string
  pg_css_url :: string
  pg_csrf_header_name :: string
  pg_csrf_token :: "string option"
  pg_login_success_url :: "string option"
  pg_register_success_url :: "string option"
  pg_registration_kind :: "registration_kind option"
  pg_capability :: "string option"
  pg_capability_valid :: bool
  pg_credentials :: "passkey_credential list"
  pg_anonymous_bootstrap :: bool
  pg_login_error_target :: string
  pg_register_error_target :: string
  pg_conditional_ui :: bool
  pg_lang :: string
  pg_copy :: copy_table
  pg_t_json :: utext
  pg_platform :: json_dict

record 's renderer =
  rn_config :: ui_config
  rn_csrf_token :: "http_request \<Rightarrow> ('s, string option) op"
  rn_session_user :: "(http_request \<Rightarrow> ('s, passkey_user option) op) option"
  rn_platform :: "http_request \<Rightarrow> json_dict"
  rn_jinja :: "page \<Rightarrow> string result"

text \<open>The names that \<open>platform_context.update\<close> sets; they win over those of \<open>app_factory\<close>.\<close>

definition page_keys :: "string list" where
  "page_keys = [''request'', ''paths'', ''passkey_js_url'', ''passkey_css_url'', ''csrf_header_name'',
     ''csrf_token'', ''login_success_url'', ''register_success_url'', ''registration_kind'', ''capability'',
     ''capability_valid'', ''credentials'', ''anonymous_bootstrap'', ''login_error_target_id'',
     ''register_error_target_id'', ''conditional_ui'', ''lang'', ''platform_locale'', ''t'', ''t_json'']"

definition platform_context :: "json_dict \<Rightarrow> json_dict" where
  "platform_context host =
     filter (\<lambda>(k, _). k \<notin> set page_keys)
       (fold (\<lambda>(k, v). AList.update k v) host
         [(''platform_user'', JNull), (''platform_identity_menu'', JArr []), (''platform_show_register'', JBool False)])"

definition page_context ::
  "'s renderer \<Rightarrow> string \<Rightarrow> http_request \<Rightarrow> registration_kind option \<Rightarrow> string option
   \<Rightarrow> passkey_credential list \<Rightarrow> bool \<Rightarrow> string option \<Rightarrow> page result" where
  "page_context rn template rq kind capability credentials anonymous csrf =
     (let config = rn_config rn; static_base = rstrip_slash (uc_static_url_path config);
          lang = resolve_locale rq config in
      res_bind (ui_copy lang (uc_default_locale config)) (\<lambda>copy.
      res_bind (login_success_url rq config) (\<lambda>login_success.
          Inr \<lparr>pg_template = template, pg_request = rq, pg_paths = uc_paths config,
               pg_js_url = static_base @ ''/passkey-ui.js'', pg_css_url = static_base @ ''/passkey-ui.css'',
               pg_csrf_header_name = uc_csrf_header_name config, pg_csrf_token = csrf,
               pg_login_success_url = login_success,
               pg_register_success_url = register_success_url config kind, pg_registration_kind = kind,
               pg_capability = shown_capability capability,
               pg_capability_valid = (shown_capability capability \<noteq> None), pg_credentials = credentials,
               pg_anonymous_bootstrap = anonymous, pg_login_error_target = uc_login_error_target_id config,
               pg_register_error_target = uc_register_error_target_id config,
               pg_conditional_ui = uc_conditional_ui config, pg_lang = lang, pg_copy = copy,
               pg_t_json = json_object copy,
               pg_platform = platform_context (rn_platform rn rq)\<rparr>)))"

definition render_content ::
  "'s renderer \<Rightarrow> string \<Rightarrow> http_request \<Rightarrow> registration_kind option \<Rightarrow> string option
   \<Rightarrow> passkey_credential list \<Rightarrow> bool \<Rightarrow> ('s, string) op" where
  "render_content rn template rq kind capability credentials anonymous =
     op_bind (rn_csrf_token rn rq) (\<lambda>csrf.
     pure_op (res_bind (page_context rn template rq kind capability credentials anonymous csrf) (rn_jinja rn)))"

text \<open>\<open>_render\<close>: the page as an HTML response, with the cookie of its language.\<close>

definition locale_cookies :: "http_request \<Rightarrow> ui_config \<Rightarrow> http_cookie list" where
  "locale_cookies rq config =
     (let lang = resolve_locale rq config in
      if truthy (uc_locale_cookie_name config) \<and> lang \<in> set (uc_supported_locales config)
      then [\<lparr>ck_key = the (uc_locale_cookie_name config), ck_value = lang, ck_max_age = None, ck_path = ''/'',
             ck_secure = False, ck_httponly = False, ck_samesite = ''lax''\<rparr>] else [])"

definition render_page ::
  "'s renderer \<Rightarrow> string \<Rightarrow> http_request \<Rightarrow> registration_kind option \<Rightarrow> string option
   \<Rightarrow> passkey_credential list \<Rightarrow> bool \<Rightarrow> ('s, http_response) op" where
  "render_page rn template rq kind capability credentials anonymous =
     op_bind (render_content rn template rq kind capability credentials anonymous) (\<lambda>content.
     return_op \<lparr>rs_status = 200, rs_body = TextBody content, rs_headers = [], rs_location = None,
       rs_cookies = locale_cookies rq (rn_config rn)\<rparr>)"

subsection \<open>The pages\<close>

definition render_login :: "'s renderer \<Rightarrow> http_request \<Rightarrow> ('s, http_response) op" where
  "render_login rn rq = render_page rn ''login.html'' rq None None [] False"

definition render_register :: "'s renderer \<Rightarrow> http_request \<Rightarrow> ('s, http_response) op" where
  "render_register rn rq =
     op_bind (case rn_session_user rn of
         None \<Rightarrow> return_op False
       | Some get_session_user \<Rightarrow> op_bind (get_session_user rq) (\<lambda>u. return_op (u = None)))
       (render_page rn ''register.html'' rq None None [])"

definition render_credential_management ::
  "'s renderer \<Rightarrow> http_request \<Rightarrow> passkey_credential list \<Rightarrow> ('s, http_response) op" where
  "render_credential_management rn rq credentials =
     render_page rn ''credential_management.html'' rq None None credentials False"

definition render_capability_registration ::
  "'s renderer \<Rightarrow> http_request \<Rightarrow> registration_kind \<Rightarrow> string option \<Rightarrow> ('s, http_response) op" where
  "render_capability_registration rn rq kind capability =
     render_page rn ''capability_registration.html'' rq (Some kind) capability [] False"

definition render_account_panel :: "'s renderer \<Rightarrow> http_request \<Rightarrow> ('s, string) op" where
  "render_account_panel rn rq = render_content rn ''account_panel.html'' rq None None [] False"

text \<open>The hooks of the installed router: the host's hooks, with these pages.\<close>

definition ui_hooks :: "'s renderer \<Rightarrow> 's route_hooks \<Rightarrow> 's route_hooks" where
  "ui_hooks rn hooks =
     wrap_hooks hooks (render_login rn) (render_register rn) (render_capability_registration rn)
       (render_credential_management rn)"

subsection \<open>What a page says\<close>

lemma page_context_Inr:
  assumes "page_context rn template rq kind capability credentials anonymous csrf = Inr pg"
  shows "pg_template pg = template" and "pg_credentials pg = credentials" and "pg_csrf_token pg = csrf"
    and "pg_lang pg = resolve_locale rq (rn_config rn)" and "pg_capability pg = shown_capability capability"
  using assms by (auto simp: page_context_def Let_def res_bind_Inr split: option.splits)

lemma render_page_Inr:
  assumes "render_page rn template rq kind capability credentials anonymous s = (Inr resp, s')"
  shows "\<exists>csrf pg content. rn_csrf_token rn rq s = (Inr csrf, s')
    \<and> page_context rn template rq kind capability credentials anonymous csrf = Inr pg
    \<and> rn_jinja rn pg = Inr content \<and> rs_body resp = TextBody content
    \<and> http_response.rs_cookies resp = locale_cookies rq (rn_config rn)"
  using assms by (auto simp: render_page_def render_content_def op_bind_eq_Inr return_op_def pure_op_def res_bind_Inr)

subsection \<open>Properties\<close>

lemma credentials_page_Inr:
  assumes "rt_hooks rt = ui_hooks rn hooks" and "quiet (hk_get_session_user hooks rq)"
    and "credentials_page rt rq s = (Inr resp, s')"
  shows "\<exists>user credentials. fst (hk_get_session_user hooks rq s) = Inr (Some user)
    \<and> list_credentials (rt_service rt) (pu_user_id user) (fst s) = Inr credentials
    \<and> render_page rn ''credential_management.html'' rq None None credentials False s = (Inr resp, s')"
proof -
  have hooks: "hk_get_session_user (rt_hooks rt) = hk_get_session_user hooks"
      "hk_render_credentials (rt_hooks rt) = Some (render_credential_management rn)"
    by (simp_all add: assms(1) ui_hooks_def wrap_hooks_def)
  obtain user s1 where user: "require_session_user rt rq s = (Inr user, s1)"
    and rest: "op_bind (on_service (\<lambda>t. (list_credentials (rt_service rt) (pu_user_id user) t, t)))
        (render_credential_management rn rq) s1 = (Inr resp, s')"
    using assms(3) by (auto simp: credentials_page_def op_bind_eq_Inr [of "require_session_user rt rq"] hooks)
  obtain session where session: "hk_get_session_user hooks rq s = (Inr session, s1)" "session = Some user"
    using user by (auto simp: require_session_user_def op_bind_eq_Inr hooks raise_op_def return_op_def
        split: option.splits)
  have "s1 = s" using quietD [OF assms(2) session(1)] .
  then show ?thesis using rest session
    by (auto simp: op_bind_eq_Inr on_service_eq render_credential_management_def)
qed

text \<open>
  C40: the text of a page is complete and safe to embed. The context of a page fails only when the
  return path of the request cannot be split, never for want of a table. In every language the page
  has a text for each key its template and the packaged script look up, and the JSON that the template
  writes unescaped into a \<open>script\<close> element holds no less-than sign, so it cannot close the element.
\<close>

theorem page_texts_complete:
  "case page_context rn template rq kind capability credentials anonymous csrf of
     Inl e \<Rightarrow> login_success_url rq (rn_config rn) = Inl e
   | Inr pg \<Rightarrow> set (template_reads template) \<union> set script_reads
         \<subseteq> {key. \<exists>t. map_of (pg_copy pg) key = Some t \<and> t \<noteq> []}
       \<and> 0x3C \<notin> set (pg_t_json pg) \<and> pg_t_json pg = json_object (pg_copy pg)
       \<and> ui_copy (pg_lang pg) (uc_default_locale (rn_config rn)) = Inr (pg_copy pg)"
proof -
  let ?lang = "resolve_locale rq (rn_config rn)" and ?dflt = "uc_default_locale (rn_config rn)"
  obtain table where table: "ui_copy ?lang ?dflt = Inr table" "fit_copy table" using ui_copy_fit by blast
  have "\<exists>t. map_of table key = Some t \<and> t \<noteq> []"
    if "key \<in> set (template_reads template) \<union> set script_reads" for key
    using that template_reads_listed script_reads_listed by (blast intro: fit_copy_reads [OF table(2)])
  then show ?thesis
    using table fit_copy_json [OF table(2)]
    by (cases "login_success_url rq (rn_config rn)") (auto simp: page_context_def Let_def res_bind_def)
qed

text \<open>
  C39: the management page of the SQLite service is only rendered for a user with a session, and the
  credentials it lists are that user's in the database: all of them, once each, and no other's.
\<close>

theorem credentials_page_shows_own:
  assumes "rt_hooks rt = ui_hooks rn hooks" and "rt_service rt = sql_service cfg wa repr"
    and "quiet (hk_get_session_user hooks rq)" and "cred_db_ok (snd (fst s))"
    and "credentials_page rt rq s = (Inr resp, s')"
  shows "\<exists>user csrf pg content. fst (hk_get_session_user hooks rq s) = Inr (Some user)
    \<and> page_context rn ''credential_management.html'' rq None None (pg_credentials pg) False csrf = Inr pg
    \<and> rn_jinja rn pg = Inr content \<and> rs_body resp = TextBody content
    \<and> distinct (pg_credentials pg)
    \<and> set (pg_credentials pg) = {c. \<exists>cid. sql_get_credential cid (snd (fst s)) = Inr (Some c)
        \<and> pc_user_id c = pu_user_id user}"
proof -
  let ?db = "snd (fst s)"
  obtain user credentials where user: "fst (hk_get_session_user hooks rq s) = Inr (Some user)"
    and listed: "list_credentials (rt_service rt) (pu_user_id user) (fst s) = Inr credentials"
    and page: "render_page rn ''credential_management.html'' rq None None credentials False s = (Inr resp, s')"
    using credentials_page_Inr [OF assms(1,3,5)] by blast
  obtain csrf pg content where pg:
      "page_context rn ''credential_management.html'' rq None None credentials False csrf = Inr pg"
      "rn_jinja rn pg = Inr content" "rs_body resp = TextBody content"
    using render_page_Inr [OF page] by blast
  note shown = page_context_Inr(2) [OF pg(1)]
  obtain cs where cs: "sql_list_credentials (pu_user_id user) ?db = Inr cs" "distinct cs"
      "set cs = spec_list (sql_cred_abs ?db) (pu_user_id user)"
    using sqlc.list_spec [OF assms(4)] by blast
  have "credentials = cs" using listed cs(1) by (simp add: list_credentials_def assms(2))
  then show ?thesis
    using user pg cs(2,3) shown
    by (intro exI [of _ user] exI [of _ csrf] exI [of _ pg] exI [of _ content])
      (simp add: spec_list_def sqlc.get_cred_spec [OF assms(4)])
qed

definition demo_renderer :: "'s renderer" where
  "demo_renderer = \<lparr>rn_config = ui_config_init, rn_csrf_token = (\<lambda>_. return_op None), rn_session_user = None,
     rn_platform = (\<lambda>_. []),
     rn_jinja = (\<lambda>pg. Inr (concat (map id_b64url (pg_credentials pg))))\<rparr>"

definition demo_ui_hooks :: "((challenge_table \<times> cred_db) \<times> string list) route_hooks" where
  "demo_ui_hooks = demo_hooks\<lparr>hk_get_session_user := \<lambda>_. return_op (Some ann)\<rparr>"

definition demo_ui_router :: "(challenge_table, cred_db, string list) passkey_router" where
  "demo_ui_router = demo_router\<lparr>rt_hooks := ui_hooks demo_renderer demo_ui_hooks\<rparr>"

lemma ann_db_only: "sql_get_credential cid ann_db = Inr (Some c) \<longleftrightarrow> cid = [1] \<and> c = ann_key 1"
  using ann_repr(1) [of 1]
  by (auto simp: ann_db_lists sql_get_credential_def select_by_Cons opt_cred_def credential_row_roundtrip
      ann_key_def [THEN arg_cong [where f = pc_credential_id], simplified] split: if_splits)

lemma ann_id_text: "id_b64url (ann_key 1) = ''AQ''"
  by code_simp

lemma distinct_set_singleton: "distinct xs \<Longrightarrow> set xs = {x} \<Longrightarrow> xs = [x]"
  by (cases xs; cases "tl xs") auto

lemma credentials_page_shows_own_witness:
  "\<exists>resp s'. credentials_page demo_ui_router (demo_request [] []) (([], ann_db), []) = (Inr resp, s')
     \<and> rs_body resp = TextBody ''AQ''"
proof -
  let ?s = "(([], ann_db), [])" and ?rq = "demo_request [] []"
  obtain cs where cs: "sql_list_credentials ''ann'' ann_db = Inr cs"
    using sqlc.list_spec [OF ann_db_ok, of "''ann''"] by blast
  have parts: "rt_hooks demo_ui_router = ui_hooks demo_renderer demo_ui_hooks"
      "quiet (hk_get_session_user demo_ui_hooks ?rq)" "cred_db_ok (snd (fst ?s))"
    by (simp_all add: demo_ui_router_def demo_ui_hooks_def quiet_def ann_db_ok)
  obtain table where copy: "ui_copy l d = Inr (table l d)" for l d using ui_copy_fit by metis
  have "\<exists>resp s'. credentials_page demo_ui_router ?rq ?s = (Inr resp, s')"
    by (simp add: credentials_page_def require_session_user_def demo_ui_router_def demo_router_def demo_ui_hooks_def
        ui_hooks_def wrap_hooks_def on_service_def list_credentials_def ann_def cs op_bind_def
        render_credential_management_def render_page_def render_content_def page_context_def demo_renderer_def
        copy login_success_url_def same_origin_return_path_def query_get_def demo_request_def pure_op_def Let_def)
  then obtain resp s' where run: "credentials_page demo_ui_router ?rq ?s = (Inr resp, s')" by blast
  have service: "rt_service demo_ui_router = sql_service demo_cfg demo_wa demo_repr"
    by (simp add: demo_ui_router_def demo_router_def)
  obtain user csrf pg content where page: "fst (hk_get_session_user demo_ui_hooks ?rq ?s) = Inr (Some user)"
      "rn_jinja (demo_renderer :: ((challenge_table \<times> cred_db) \<times> string list) renderer) pg = Inr content"
      "rs_body resp = TextBody content" "distinct (pg_credentials pg)"
      "set (pg_credentials pg) = {c. \<exists>cid. sql_get_credential cid ann_db = Inr (Some c) \<and> pc_user_id c = pu_user_id user}"
    using credentials_page_shows_own [OF parts(1) service parts(2,3) run] by auto
  have "set (pg_credentials pg) = {ann_key 1}"
  proof -
    have "user = ann" using page(1) by (simp add: demo_ui_hooks_def)
    moreover have "pc_user_id (ann_key 1) = pu_user_id ann" by (simp add: ann_def ann_key_def)
    ultimately show ?thesis unfolding page(5) ann_db_only by blast
  qed
  then have "pg_credentials pg = [ann_key 1]" by (rule distinct_set_singleton [OF page(4)])
  then show ?thesis using run page(2,3) by (auto simp: demo_renderer_def ann_id_text)
qed

end
