(* ===== verification/OidcWire.thy ===== *)
theory OidcWire
  imports OidcAdapterProperties
begin

section \<open>Responses, signing header and token views of the provider\<close>

text \<open>
  The parts of \<open>oidc_fastapi.py\<close> and \<open>oidc.py\<close> that the handlers reach through Authlib: the
  conversion of what Authlib returns to a Starlette response, the JOSE header of an ID token, and
  the methods that make a \<open>TokenRecord\<close> one of Authlib's token objects.
\<close>

subsection \<open>Responses\<close>

text \<open>A body is a mapping, text, bytes, or another object with its \<open>str\<close>; a status that is no int is \<open>None\<close>.\<close>

datatype authlib_body = MappingBody json_dict | StrBody string | RawBody bytes | OtherBody string

datatype authlib_result =
    Converted http_response
  | Triple "int option" authlib_body "(string \<times> string) list"
  | NoTriple

fun body_of :: "authlib_body \<Rightarrow> http_body" where
  "body_of (MappingBody d) = JsonBody (JObj d)"
| "body_of (StrBody s) = TextBody s"
| "body_of (RawBody b) = BytesBody b"
| "body_of (OtherBody s) = TextBody s"

text \<open>\<open>{key: value for key, value in headers}\<close>: the last value of a name at its first place.\<close>

definition header_dict :: "(string \<times> string) list \<Rightarrow> (string \<times> string) list" where
  "header_dict headers = fold (\<lambda>(k, v). AList.update k v) headers []"

definition handle_response :: "int \<Rightarrow> authlib_body \<Rightarrow> (string \<times> string) list \<Rightarrow> http_response" where
  "handle_response status body headers =
     \<lparr>rs_status = nat status, rs_body = body_of body, rs_headers = header_dict headers,
      rs_location = map_of (header_dict headers) ''Location'', rs_cookies = []\<rparr>"

fun as_response :: "authlib_result \<Rightarrow> http_response result" where
  "as_response (Converted r) = Inr r"
| "as_response (Triple (Some status) body headers) = Inr (handle_response status body headers)"
| "as_response (Triple None _ _) = Inl (TypeError ''Authlib returned an invalid status code'')"
| "as_response NoTriple = Inl (TypeError ''Authlib returned an invalid response'')"

lemma header_dict_keys: "distinct (map fst (header_dict headers))"
proof -
  have "distinct (map fst (fold (\<lambda>(k, v). AList.update k v) headers d))" if "distinct (map fst d)" for d :: "(string \<times> string) list"
    using that by (induction headers arbitrary: d) (auto simp: distinct_update)
  then show ?thesis by (simp add: header_dict_def)
qed

lemma header_dict_last: "map_of (header_dict headers) k = map_of (rev headers) k"
proof -
  have "map_of (fold (\<lambda>(k, v). AList.update k v) headers d) k = (map_of d ++ map_of (rev headers)) k" for d
    by (induction headers arbitrary: d) (auto simp: update_conv' map_add_def split: option.split)
  then show ?thesis by (simp add: header_dict_def)
qed

subsection \<open>The header of an ID token\<close>

text \<open>\<open>kid\<close> is \<open>getattr(key, "kid", None)\<close>, \<open>None\<close> also for a value that is no string.\<close>

definition client_private_key :: "'u oidc_provider \<Rightarrow> 'k list \<Rightarrow> 'k result" where
  "client_private_key p keys =
     (if \<not> pr_has_signing_keys p then Inl (RuntimeError ''an OIDC signing-key store is required'')
      else Inr (current_private_key keys))"

definition encode_header :: "'u oidc_provider \<Rightarrow> ('k \<Rightarrow> string option) \<Rightarrow> 'k list \<Rightarrow> json_dict result" where
  "encode_header p kid keys =
     res_bind (client_private_key p keys) (\<lambda>key.
       if \<not> truthy (kid key) then Inl (RuntimeError ''OIDC signing key has no kid'')
       else Inr [(''alg'', JStr ''RS256''), (''kid'', JStr (the (kid key)))])"

fun rotations :: "'k list \<Rightarrow> 'k list \<Rightarrow> 'k list" where
  "rotations [] keys = keys"
| "rotations (k # ks) keys = rotations ks (rotate_keys k keys)"

lemma rotations_append: "rotations ks keys = rev ks @ keys"
  by (induction ks arbitrary: keys) (simp_all add: rotate_keys_def)

text \<open>
  The key that signed an ID token stays in the published key set through every later rotation, so
  a client finds the \<open>kid\<close> of the token there.
\<close>

theorem signing_key_stays_published:
  assumes "mk_signing_keys is_private keys0 = Inr keys" and "encode_header p kid (rotations early keys) = Inr header"
  shows "\<exists>key published. header = [(''alg'', JStr ''RS256''), (''kid'', JStr (the (kid key)))]
    \<and> client_private_key p (rotations early keys) = Inr key
    \<and> public_jwks public (rotations later (rotations early keys)) = JObj [(''keys'', JArr published)]
    \<and> public key \<in> set published"
proof -
  let ?now = "rotations early keys"
  have "?now \<noteq> []" using assms(1) by (auto simp: mk_signing_keys_def rotations_append split: if_splits)
  moreover have "client_private_key p ?now = Inr (hd ?now)"
      "header = [(''alg'', JStr ''RS256''), (''kid'', JStr (the (kid (hd ?now))))]"
    using assms(2)
    by (auto simp: encode_header_def client_private_key_def current_private_key_def res_bind_Inr split: if_splits)
  ultimately show ?thesis
    by (intro exI [of _ "hd ?now"] exI [of _ "map public (rotations later ?now)"])
      (auto simp: public_jwks_def rotations_append [of later])
qed

subsection \<open>A token record as Authlib sees it\<close>

text \<open>The wall clock of these methods is their argument \<open>now\<close>.\<close>

definition expires_in_left :: "int \<Rightarrow> 'u token_record \<Rightarrow> int" where
  "expires_in_left now r = max 0 (tr_expires_at r - now)"

definition token_expired :: "int \<Rightarrow> 'u token_record \<Rightarrow> bool" where
  "token_expired now r \<longleftrightarrow> tr_expires_at r \<le> now"

definition token_client :: "'u token_record \<Rightarrow> oidc_client result" where
  "token_client r =
     (case tr_client r of
        Some c \<Rightarrow> Inr c
      | None \<Rightarrow> mk_client (tr_client_id r) [''https://invalid.local/unused''] [''openid''] None None)"

definition check_token_client :: "'u token_record \<Rightarrow> oidc_client \<Rightarrow> bool" where
  "check_token_client r c \<longleftrightarrow> oc_client_id c = tr_client_id r"

text \<open>What \<open>get_access_token\<close> returns has time left, and a record without a client stands for a public one.\<close>

lemma got_token_has_time:
  "mem_get_token now value st = Some r \<Longrightarrow> \<not> token_expired now r \<and> 0 < expires_in_left now r \<and> \<not> tr_revoked r"
  by (auto simp: mem_get_token_def token_expired_def expires_in_left_def split: option.splits if_splits)

lemma token_client_id:
  assumes "tr_client r = None" and "token_client r = Inr c"
  shows "check_token_client r c \<and> oc_auth_method c = ''none'' \<and> oc_secret_hash c = None"
  using assms by (auto simp: token_client_def mk_client_def check_token_client_def Let_def res_bind_Inr split: if_splits)

end
