(* ===== verification/EnrollmentInit.thy ===== *)
theory EnrollmentInit
  imports SqliteSchemaProperties EnrollmentSqlite
begin

section \<open>Opening the SQLite capability store (\<open>enrollment.py\<close>)\<close>

text \<open>
  The constructor of \<open>SQLiteEnrollmentCapabilityStore\<close> creates its table itself, in the transaction
  of the caller or in one of its own, and so meets the schema lifecycle of \<open>sqlite_schema.py\<close>:
  both orders of opening the store and initializing the schema lead to a current schema.
\<close>

definition enrollment_store_init :: "(sql_db conn, unit) op" where
  "enrollment_store_init = enroll_connection apply_enrollment_schema"

lemma enroll_connection_fresh:
  "enroll_connection body (fresh_conn db) =
     (case body db of (Inr a, db') \<Rightarrow> (Inr a, fresh_conn db') | (Inl e, _) \<Rightarrow> (Inl e, fresh_conn db))"
  by (simp add: enroll_connection_def fresh_conn_def conn_begin_def conn_commit_def conn_rollback_def
      split: prod.split sum.split)

text \<open>Over a schema of the package the constructor changes nothing.\<close>

lemma enrollment_init_current:
  assumes "host_only db"
  shows "enrollment_store_init (fresh_conn (db @ package_schema [[SqlInt 3]])) =
    (Inr (), fresh_conn (db @ package_schema [[SqlInt 3]]))"
  by (simp add: enrollment_store_init_def enroll_connection_fresh enrollment_again [OF assms])

text \<open>In an open transaction of the caller nothing is committed, whatever the statements do.\<close>

lemma enrollment_init_caller:
  assumes "in_tx c" and "enrollment_store_init c = (r, c')"
  shows "in_tx c' \<and> committed c' = committed c"
  using assms by (auto simp: enrollment_store_init_def enroll_connection_def split: prod.splits)

definition enrollment_only :: sql_db where
  "enrollment_only = snd (apply_enrollment_schema [])"

lemma apply_enrollment_empty: "apply_enrollment_schema [] = (Inr (), enrollment_only)"
  by code_simp

lemma enrollment_only_Empty: "inspect_sqlite_schema enrollment_only = Inr (found Empty None [])"
  by code_simp

definition enrollment_completed :: sql_db where
  "enrollment_completed = snd (complete_schema (\<lambda>_ v. v) Empty enrollment_only)"

lemma complete_enrollment_only:
  "complete_schema (\<lambda>_ v. v) Empty enrollment_only = (Inr (), enrollment_completed)"
  "inspect_sqlite_schema enrollment_completed = Inr (found Current (Some 3) [])"
  by code_simp+

theorem enrollment_store_first:
  "\<exists>c1 c2. enrollment_store_init (fresh_conn []) = (Inr (), c1)
     \<and> inspect_sqlite_schema (committed c1) = Inr (found Empty None [])
     \<and> ensure_sqlite_schema (\<lambda>_ v. v) Some ''standalone'' c1 = (Inr (), c2)
     \<and> inspect_sqlite_schema (committed c2) = Inr (found Current (Some 3) [])"
proof -
  note db = complete_enrollment_only
  have "ensure_sqlite_schema (\<lambda>_ v. v) Some ''standalone'' (fresh_conn enrollment_only) = (Inr (), fresh_conn enrollment_completed)"
    using enrollment_only_Empty db(1)
    by (simp add: ensure_sqlite_schema_def check_schema_mode_def inspect_conn_def begin_immediate_def rolled_back_def
        in_conn_def commit_op_def op_bind_def op_try_def conn_commit_def fresh_conn_def found_def)
  then show ?thesis
    using db(2) enrollment_only_Empty
    by (simp add: enrollment_store_init_def enroll_connection_fresh apply_enrollment_empty) (simp add: fresh_conn_def)
qed

end
