(* ===== verification/Spec2Isabelle.thy ===== *)
theory Spec2Isabelle
  imports Base64 PyTime Sha256Vectors PasskeyModels PasskeyConfig SqliteConn ChallengeStores
    CredProperties EnrollmentProperties PasskeyProperties OidcAdapterProperties RouterProperties Htmx JsonFuel MigrationRows
    StoreContracts UiPages OidcWire EnrollmentInit
begin

text \<open>
  A verification of my-auth (\<open>src/src/my_auth\<close>): passkeys and an OpenID Connect provider as a Python
  library that a FastAPI host installs.

  The program. A host mounts two routers. The passkey router (\<open>fastapi.py\<close>) turns HTTP requests
  into calls of \<open>PasskeyService\<close> (\<open>passkeys.py\<close>), which keeps challenges and credentials in two
  stores, each with an implementation in memory (\<open>passkey_memory.py\<close>) and one in SQLite
  (\<open>passkey_sqlite.py\<close>), and lets the \<open>webauthn\<close> package check the cryptography. Capabilities
  (\<open>enrollment.py\<close>) let an invited or recovering user open a registration. The OIDC router
  (\<open>oidc_fastapi.py\<close>) drives Authlib over the provider of \<open>oidc.py\<close>, whose users are the host's, for
  example those a passkey login has put in a session. \<open>sqlite_schema.py\<close> creates and migrates the
  tables that the SQLite stores insist on, \<open>fastapi_htmx\<close> adds pages, and \<open>testing.py\<close> publishes
  the contracts of the stores.

  How code becomes definitions. A dataclass is a record, an enumeration or a Literal a datatype, a
  raised exception \<open>Inl\<close> of an \<open>exn\<close> and a returned value \<open>Inr\<close>. A function that changes state
  is an operation \<open>('s, 'a) op\<close>: it takes the state and gives the result and the state after it, so a
  change before an exception is kept where the code keeps it. Dictionaries are association lists
  in insertion order. An object that others call (a store, the hooks of the host, the \<open>webauthn\<close>
  package, Authlib) is a record of its operations. Clocks, random tokens and flow ids are
  arguments; where a clock comes from the host (\<open>enrollment.py\<close>), the argument is its reading, which
  \<open>now_utc\<close> refuses when it is not an aware datetime. A method that holds a lock for its whole body is one step. Definitions carry the
  names of the code, with a prefix \<open>mem_\<close> or \<open>sql_\<close> where two classes share a method name.

  Theories, from below.

  \<^item> \<open>Prelude\<close>, \<open>PyValues\<close>, \<open>Base64\<close>, \<open>Sha256\<close>, \<open>Json\<close>, \<open>JsonFuel\<close>, \<open>PyTime\<close>, \<open>Url\<close>, \<open>UrlQuery\<close>,
    \<open>Http\<close>: the exceptions, the sequencing of operations, and what the code uses of the standard
    library and of requests and responses: string methods, UTF-8, base64url, SHA-256 on 32-bit words
    (with a test vector in \<open>Sha256Vectors\<close>), the JSON reader and writer, ISO time texts, \<open>urlsplit\<close>,
    \<open>parse_qs\<close> and \<open>urlencode\<close>. Lemmas: the codecs are inverse to each other, the order of time
    texts is the order of instants, the JSON reader ends.
  \<^item> \<open>PasskeyModels\<close>, \<open>PasskeyConfig\<close> (\<open>passkey_models.py\<close>, \<open>passkey_errors.py\<close>): data classes,
    origin normalization and the relying party configuration. The kinds of a challenge and of a
    registration are instances of \<open>enum\<close>, so a fact about all their texts is evaluated.
  \<^item> \<open>SqliteConn\<close> (\<open>_SQLiteBase\<close>): the transaction discipline of the two modes.
  \<^item> \<open>ChallengeStores\<close>, \<open>CredentialStores\<close>, \<open>CredMemory\<close>, \<open>CredSqlite\<close>, \<open>CredProperties\<close>: the
    stores. The locales \<open>challenge_store\<close> and \<open>credential_store\<close> are the two protocols with an
    abstract machine; each is interpreted on the memory and on the SQLite implementation, and the
    properties say that any sequence of calls has the replies of the abstract machine.
  \<^item> \<open>Enrollment\<close>, \<open>EnrollmentSqlite\<close>, \<open>EnrollmentInit\<close>, \<open>EnrollmentProperties\<close> (\<open>enrollment.py\<close>):
    the life cycle of a capability as the step relation \<open>cap_step\<close>, the locale \<open>capability_store\<close>
    and its two interpretations, runs of calls against any readings of the clock, and where the two
    implementations differ.
  \<^item> \<open>PasskeyService\<close>, \<open>PasskeyFlows\<close>, \<open>PasskeyProperties\<close> (\<open>passkeys.py\<close>): the service over any
    pair of stores; the locale \<open>passkey_backend\<close> joins the two store contracts, and its lemmas
    hold for the memory and the SQLite service alike.
  \<^item> \<open>PasskeySettings\<close>, \<open>PasskeyRouter\<close>, \<open>RouterProperties\<close> (\<open>fastapi.py\<close>): settings and handlers,
    and what a request can bring about, up to a registration followed by a login over HTTP.
  \<^item> \<open>Htmx\<close>, \<open>UiCopy\<close>, \<open>UiPages\<close> (\<open>fastapi_htmx\<close>): configuration, redirects, locale, installation, the
    tables of texts of \<open>i18n.py\<close> as lists of code points, and the context that each page is rendered
    with, as hooks of the passkey router. The keys that the Jinja templates and the packaged script
    look up are listed in \<open>template_reads\<close> and \<open>script_reads\<close>, and every table has them.
  \<^item> \<open>Oidc\<close>, \<open>OidcTokens\<close>, \<open>OidcStores\<close>, \<open>OidcProvider\<close>, \<open>OidcProperties\<close> (\<open>oidc.py\<close>): clients,
    codes with PKCE, tokens, the locales \<open>code_store\<close> and \<open>token_store\<close> with their
    interpretations, and the claims of a user.
  \<^item> \<open>OidcAdapter\<close>, \<open>OidcAdapterProperties\<close>, \<open>OidcWire\<close> (\<open>oidc_fastapi.py\<close>): the endpoints, the
    methods Authlib calls back, the signing keys, and the conversion of responses. \<open>authlib_ok\<close>
    says what is assumed of Authlib: it changes the state only through the methods of the
    package that it is given, answers errors with a status other than 200, and keeps the access token.
  \<^item> \<open>SqlTables\<close>, \<open>SqliteSchema\<close>, \<open>SqliteSchemaProperties\<close>, \<open>MigrationRows\<close> (\<open>sqlite_schema.py\<close>):
    tables with columns, indexes, foreign keys and rows; inspection, initialization and migration
    with other connections that commit in between; what becomes of the rows.
  \<^item> \<open>StoreContracts\<close> (\<open>testing.py\<close>): the published assertions, proved of the stores of the package
    from the laws of the locales.
  \<^item> This theory: the property that spans the endpoints of the provider.

  Findings. Some theorems state behaviour the code cannot mean: a call in operation mode discards
  the open transaction of its caller (\<open>SqliteConn\<close>), a reused flow id raises a raw database
  error (\<open>EnrollmentProperties\<close>), any client revokes any token and a body that is not UTF-8 is a
  server error (\<open>OidcAdapterProperties\<close>), the migration of the 0.1 layout deletes rows of the
  host and a migration can commit a schema the stores refuse (\<open>SqliteSchemaProperties\<close>), and a
  return path with a tab leaves the site (\<open>Htmx\<close>).

  Bounds and fuel. A \<open>str\<close> is a list of characters of code at most 255; JSON text with an escape
  above that is refused by the model, and a display name outside Latin-1 is not covered. Integers are
  unbounded as in Python; the SQLite stores refuse those beyond 64 bits as \<open>sqlite3\<close> does.
  Instants are microseconds from year 1, and sums beyond year 9999 raise. \<open>json_value\<close> takes fuel;
  the length of the text is enough, and more changes nothing (\<open>JsonFuel\<close>). The cascade of a
  deletion takes the number of rows in the database as fuel, which is enough because every step
  removes a row (\<open>SqlTables\<close>). SHA-256 recurses on the number of blocks and rounds.

  Not modelled. Lock waits and time-outs of SQLite, pragmas other than \<open>foreign_keys\<close>, CHECK
  constraints, views, triggers and names that differ in case only; the interleaving of two Python
  threads inside a method without a lock; the cryptography of \<open>webauthn\<close>, \<open>joserfc\<close> and \<open>secrets\<close>
  and the checks Authlib makes itself, which are parameters; Starlette's parsing of a
  message; logging; CSS, JavaScript and the markup of the Jinja templates (of both only the copy keys
  they look up are modelled); \<open>static.py\<close> and the re-exports of \<open>__init__.py\<close>; typing protocols,
  which have no code; tests, documents and packaging.
\<close>

section \<open>From the consent of a user to the claims an application reads\<close>

text \<open>
  C3: in a store without a code that is still alive, let the authorization endpoint answer a
  request, the token endpoint then give out an access token, and the UserInfo endpoint then accept
  that token. The host consented, in the first request, to one user, and the subject of the claims
  is the subject of that user. The host's resolver is assumed to give a subject a user of that
  subject.
\<close>

theorem userinfo_names_consenting_user:
  assumes "authlib_ok al" and "mem_codes_ok (os_codes s0)" and "\<And>v. mem_live_code (os_codes s0) now1 v = None"
    and "\<And>subject fallback u. resolve_subject (or_provider r) subject fallback = Inr (Some u) \<Longrightarrow>
      subject_for (or_provider r) u = Inr subject"
    and "authorization r al now0 rq0 (s0, h0) = (res0, s1, h1)" and "now0 \<le> now1"
    and "token_endpoint r al py now1 rq1 s1 = (Inr resp1, s2)" and "rs_status resp1 = 200"
    and "rs_body resp1 = JsonBody (JObj token)" and "json_get ''access_token'' token = JStr access"
    and "bearer_access_token (or_max_body_bytes r) rq2 = Inr (Some access)"
    and "userinfo_response r al now2 rq2 s2 = Inr resp2" and "rs_status resp2 = 200"
  shows "\<exists>ctx h h' subject cs. ph_consent (or_hooks r) rq0 ctx h = (Inr True, h')
    \<and> subject_for (or_provider r) (cc_user ctx) = Inr subject
    \<and> rs_body resp2 = JsonBody (JObj cs) \<and> map_of cs ''sub'' = Some (JStr subject)"
proof -
  let ?p = "or_provider r"
  note ok = authorization_codes_ok [OF assms(1,2,5)]
  obtain vs token' rec where "rs_body resp1 = JsonBody (JObj token')"
      "json_get ''access_token'' token' = JStr (tr_access_token rec)" and ex: "exchanged ?p now1 vs s1 s2 token' rec"
    by (rule token_endpoint_exchanged [OF assms(1) ok assms(7,8)])
  then have access: "tr_access_token rec = access" using assms(9,10) by simp
  obtain c user where c: "mem_live_code (os_codes s1) now1 (ac_value c) = Some c"
    and user: "resolve_subject ?p (ac_subject c) (ac_user c) = Inr (Some user)" "subject_for ?p user = Inr (tr_subject rec)"
    and saved: "map_of (os_tokens s2) (token_key access) = Some rec"
    using ex access unfolding exchanged_def by blast
  have new: "mem_live_code (os_codes s0) now1 (ac_value c) \<noteq> Some c" using assms(3) by simp
  obtain u ctx h h' where ctx: "cc_user ctx = u" "ph_consent (or_hooks r) rq0 ctx h = (Inr True, h')"
    and subject: "subject_for ?p u = Inr (ac_subject c)"
    by (rule stored_code_consented [OF assms(1,2,5,6) c new])
      (use new_code_Inr in \<open>fastforce simp: consent_context_for_def res_bind_Inr\<close>)
  have same: "tr_subject rec = ac_subject c" using assms(4) [OF user(1)] user(2) by simp
  obtain user2 cs rec2 where info: "map_of (os_tokens s2) (token_key access) = Some rec2"
      "resolve_subject ?p (tr_subject rec2) (tr_user rec2) = Inr (Some user2)"
      "claims_for ?p user2 (ScopeText (tr_scope rec2)) = Inr cs" "resp2 = json_response 200 (al_json_headers al) (JObj cs)"
    by (rule userinfo_Inr [OF assms(12,13)]) (use assms(11) in auto)
  have "subject_for ?p user2 = Inr (ac_subject c)" using assms(4) [OF info(2)] info(1) saved same by simp
  then have "map_of cs ''sub'' = Some (JStr (ac_subject c))" using claims_for_Inr [OF info(3)] by auto
  then show ?thesis using ctx subject info(4) by (auto simp: json_response_def)
qed

definition demo_userinfo_request :: http_request where
  "demo_userinfo_request = demo_oidc_request\<lparr>rq_headers := [''Authorization'' \<mapsto> ''Bearer tok'']\<rparr>"

lemma demo_userinfo:
  assumes "os_tokens st = [(token_key ''tok'', demo_saved_token)]"
  shows "\<exists>resp. userinfo_response demo_token_router demo_al 300 demo_userinfo_request st = Inr resp \<and> rs_status resp = 200"
proof -
  let ?p = "or_provider demo_token_router"
  have p: "?p = or_provider demo_oidc_router" by (simp add: demo_token_router_def)
  have bearer: "bearer_access_token n demo_userinfo_request = Inr (Some ''tok'')" for n
    by (simp add: bearer_access_token_def demo_userinfo_request_def demo_oidc_request_def header_token_def
        py_split_def py_isspace_def py_casefold_def lower_char_def)
  have found: "mem_get_token 300 ''tok'' (os_tokens st) = Some demo_saved_token"
    by (simp add: assms mem_get_token_def demo_saved_token_def)
  have user: "resolve_subject ?p ''ann'' (Some demo_user) = Inr (Some demo_user)" "is_active ?p demo_user"
    using demo_user_subject demo_user_active by (simp_all add: p resolve_subject_def demo_fields default_adapter_def)
  have "py_strip ''openid'' = ''openid''" by (rule py_strip_id) (simp add: py_isspace_def)
  then have "scope_tuple (ScopeText ''openid'') = Inr [''openid'']" by (simp add: scope_tuple_def)
  then obtain cs where "claims_for ?p demo_user (ScopeText ''openid'') = Inr cs"
    using demo_user_subject by (simp add: claims_for_def p demo_fields default_adapter_def default_user_claims_def
        default_user_subject_def demo_user_def json_get_def Let_def)
  then show ?thesis
    using user by (simp add: userinfo_response_def Let_def bearer found demo_saved_token_def json_response_def
        py_casefold_def lower_char_def)
qed

lemma userinfo_names_consenting_user_witness:
  "\<exists>s2 resp (ctx :: json_dict consent_context) subject cs. token_endpoint demo_token_router demo_al demo_py 299 (post_form demo_form)
       \<lparr>os_codes = demo_codes, os_tokens = []\<rparr> = (Inr (json_response 200 [] (JObj demo_reply)), s2)
     \<and> userinfo_response demo_token_router demo_al 300 demo_userinfo_request s2 = Inr resp
     \<and> subject_for (or_provider demo_token_router) (cc_user ctx) = Inr subject
     \<and> rs_body resp = JsonBody (JObj cs) \<and> map_of cs ''sub'' = Some (JStr subject)"
proof -
  let ?r = demo_token_router
  have start: "mem_codes_ok (os_codes demo_oidc_start)" "mem_live_code (os_codes demo_oidc_start) 299 v = None" for v
    by (simp_all add: demo_oidc_start_def mem_codes_init_def mem_codes_ok_def mem_live_code_def)
  have users: "pr_users (or_provider ?r) = default_adapter" by (simp add: demo_token_router_def demo_fields)
  have resolves: "subject_for (or_provider ?r) u = Inr subject"
    if "resolve_subject (or_provider ?r) subject fallback = Inr (Some u)" for subject fallback u
    using that by (auto simp: resolve_subject_def users default_adapter_def res_bind_Inr split: option.splits if_splits)
  have consent: "authorization ?r demo_al 0 demo_oidc_request (demo_oidc_start, ()) =
      (Inr (redirect_response 302 ''https://a.io/cb?code=v''), \<lparr>os_codes = demo_codes, os_tokens = []\<rparr>, ())"
    using demo_authorization by (simp add: demo_token_router_def authorization_max_body)
  obtain s2 where s2: "token_endpoint ?r demo_al demo_py 299 (post_form demo_form) \<lparr>os_codes = demo_codes, os_tokens = []\<rparr>
      = (Inr (json_response 200 [] (JObj demo_reply)), s2)" "os_tokens s2 = [(token_key ''tok'', demo_saved_token)]"
    using demo_exchange by blast
  obtain resp where resp: "userinfo_response ?r demo_al 300 demo_userinfo_request s2 = Inr resp" "rs_status resp = 200"
    using demo_userinfo [OF s2(2)] by blast
  have bearer: "bearer_access_token (or_max_body_bytes ?r) demo_userinfo_request = Inr (Some ''tok'')"
    by (simp add: bearer_access_token_def demo_userinfo_request_def demo_oidc_request_def header_token_def
        py_split_def py_isspace_def py_casefold_def lower_char_def)
  have reply: "rs_status (json_response 200 [] (JObj demo_reply)) = 200"
      "rs_body (json_response 200 [] (JObj demo_reply)) = JsonBody (JObj demo_reply)"
      "json_get ''access_token'' demo_reply = JStr ''tok''"
    by (simp_all add: json_response_def demo_reply_def json_get_def)
  have "\<exists>ctx h h' subject cs. ph_consent (or_hooks ?r) demo_oidc_request ctx h = (Inr True, h')
      \<and> subject_for (or_provider ?r) (cc_user ctx) = Inr subject
      \<and> rs_body resp = JsonBody (JObj cs) \<and> map_of cs ''sub'' = Some (JStr subject)"
    by (rule userinfo_names_consenting_user [OF demo_al_ok start _ consent _ s2(1) reply bearer resp])
      (erule resolves, simp)
  then show ?thesis using s2(1) resp(1) by blast
qed

end
